theory Spec2Isabelle
  imports Main "HOL-Library.Word"
begin

unbundle bit_operations_syntax

section \<open>Data model\<close>

text \<open>
  A 128-bit vector register viewed as two packed 64-bit lanes. \<open>lane0\<close> is the low
  lane (bytes 0..7 of the register), \<open>lane1\<close> the high lane (bytes 8..15). The x86
  type \<open>__m128i\<close> and the NEON type \<open>uint64x2_t\<close> are both this type.
\<close>

datatype vec128 = Vec (lane0: "64 word") (lane1: "64 word")

type_synonym m128i = vec128
type_synonym uint64x2_t = vec128
type_synonym uint64x1_t = "64 word"
type_synonym uint8x16_t = "8 word list"

text \<open>
  A pointer \<open>const word64 *\<close> is the sequence of 64-bit words stored from the pointed
  address on: \<open>p n\<close> is \<open>p[n]\<close>, and \<open>ptr_add p n\<close> is the pointer \<open>p + n\<close>.
\<close>

type_synonym word64_ptr = "nat \<Rightarrow> 64 word"

definition ptr_add :: "word64_ptr \<Rightarrow> nat \<Rightarrow> word64_ptr" where
  "ptr_add p n = (\<lambda>j. p (n + j))"

subsection \<open>The byte view of a register (little-endian hosts)\<close>

definition bytes_of_word64 :: "64 word \<Rightarrow> 8 word list" where
  "bytes_of_word64 w = map (\<lambda>i. ucast (drop_bit (8 * i) w)) [0..<8]"

definition word64_of_bytes :: "8 word list \<Rightarrow> 64 word" where
  "word64_of_bytes bs = foldr (\<lambda>b w. ucast b OR push_bit 8 w) bs 0"

definition bytes_of_vec :: "vec128 \<Rightarrow> 8 word list" where
  "bytes_of_vec v = bytes_of_word64 (lane0 v) @ bytes_of_word64 (lane1 v)"

definition vec_of_bytes :: "8 word list \<Rightarrow> vec128" where
  "vec_of_bytes bs = Vec (word64_of_bytes (take 8 bs)) (word64_of_bytes (take 8 (drop 8 bs)))"

text \<open>The 64-bit word with its eight bytes in the opposite order.\<close>

definition byte_swap64 :: "64 word \<Rightarrow> 64 word" where
  "byte_swap64 w = word64_of_bytes (rev (bytes_of_word64 w))"

section \<open>Instruction semantics\<close>

subsection \<open>x86 SSE2/SSE3/SSSE3 intrinsics\<close>

definition mm_unpackhi_epi64 :: "m128i \<Rightarrow> m128i \<Rightarrow> m128i" where
  "mm_unpackhi_epi64 a b = Vec (lane1 a) (lane1 b)"

definition mm_unpacklo_epi64 :: "m128i \<Rightarrow> m128i \<Rightarrow> m128i" where
  "mm_unpacklo_epi64 a b = Vec (lane0 a) (lane0 b)"

definition mm_add_epi64 :: "m128i \<Rightarrow> m128i \<Rightarrow> m128i" where
  "mm_add_epi64 a b = Vec (lane0 a + lane0 b) (lane1 a + lane1 b)"

definition mm_sub_epi64 :: "m128i \<Rightarrow> m128i \<Rightarrow> m128i" where
  "mm_sub_epi64 a b = Vec (lane0 a - lane0 b) (lane1 a - lane1 b)"

definition mm_xor_si128 :: "m128i \<Rightarrow> m128i \<Rightarrow> m128i" where
  "mm_xor_si128 a b = Vec (lane0 a XOR lane0 b) (lane1 a XOR lane1 b)"

definition mm_or_si128 :: "m128i \<Rightarrow> m128i \<Rightarrow> m128i" where
  "mm_or_si128 a b = Vec (lane0 a OR lane0 b) (lane1 a OR lane1 b)"

definition mm_and_si128 :: "m128i \<Rightarrow> m128i \<Rightarrow> m128i" where
  "mm_and_si128 a b = Vec (lane0 a AND lane0 b) (lane1 a AND lane1 b)"

definition mm_slli_epi64 :: "m128i \<Rightarrow> nat \<Rightarrow> m128i" where
  "mm_slli_epi64 a n = Vec (push_bit n (lane0 a)) (push_bit n (lane1 a))"

definition mm_srli_epi64 :: "m128i \<Rightarrow> nat \<Rightarrow> m128i" where
  "mm_srli_epi64 a n = Vec (drop_bit n (lane0 a)) (drop_bit n (lane1 a))"

text \<open>\<open>_mm_set_epi8\<close> takes the bytes from the most significant (e15) down to e0.\<close>

definition mm_set_epi8 :: "8 word \<Rightarrow> 8 word \<Rightarrow> 8 word \<Rightarrow> 8 word \<Rightarrow> 8 word \<Rightarrow> 8 word
    \<Rightarrow> 8 word \<Rightarrow> 8 word \<Rightarrow> 8 word \<Rightarrow> 8 word \<Rightarrow> 8 word \<Rightarrow> 8 word \<Rightarrow> 8 word \<Rightarrow> 8 word
    \<Rightarrow> 8 word \<Rightarrow> 8 word \<Rightarrow> m128i" where
  "mm_set_epi8 e15 e14 e13 e12 e11 e10 e9 e8 e7 e6 e5 e4 e3 e2 e1 e0 =
     vec_of_bytes [e0, e1, e2, e3, e4, e5, e6, e7, e8, e9, e10, e11, e12, e13, e14, e15]"

text \<open>
  \<open>_mm_shuffle_epi8 a b\<close>: byte \<open>i\<close> of the result is 0 when bit 7 of byte \<open>i\<close> of
  \<open>b\<close> is set, and byte \<open>b[i] & 15\<close> of \<open>a\<close> otherwise.
\<close>

definition mm_shuffle_epi8 :: "m128i \<Rightarrow> m128i \<Rightarrow> m128i" where
  "mm_shuffle_epi8 a b = vec_of_bytes
     (map (\<lambda>m. if bit m 7 then 0 else bytes_of_vec a ! unat (m AND 0x0F)) (bytes_of_vec b))"

text \<open>\<open>_mm_load_si128\<close> loads 16 bytes, that is two consecutive 64-bit words.\<close>

definition mm_load_si128 :: "word64_ptr \<Rightarrow> m128i" where
  "mm_load_si128 p = Vec (p 0) (p 1)"

text \<open>\<open>_mm_loaddup_pd\<close> loads one 64-bit element and duplicates it into both lanes.\<close>

definition mm_loaddup_pd :: "word64_ptr \<Rightarrow> vec128" where
  "mm_loaddup_pd p = Vec (p 0) (p 0)"

definition mm_castpd_si128 :: "vec128 \<Rightarrow> m128i" where
  "mm_castpd_si128 v = v"

subsection \<open>ARM NEON intrinsics\<close>

definition vget_high_u64 :: "uint64x2_t \<Rightarrow> uint64x1_t" where
  "vget_high_u64 a = lane1 a"

definition vget_low_u64 :: "uint64x2_t \<Rightarrow> uint64x1_t" where
  "vget_low_u64 a = lane0 a"

definition vcombine_u64 :: "uint64x1_t \<Rightarrow> uint64x1_t \<Rightarrow> uint64x2_t" where
  "vcombine_u64 low high = Vec low high"

definition vshlq_n_u64 :: "uint64x2_t \<Rightarrow> nat \<Rightarrow> uint64x2_t" where
  "vshlq_n_u64 a n = Vec (push_bit n (lane0 a)) (push_bit n (lane1 a))"

definition vshrq_n_u64 :: "uint64x2_t \<Rightarrow> nat \<Rightarrow> uint64x2_t" where
  "vshrq_n_u64 a n = Vec (drop_bit n (lane0 a)) (drop_bit n (lane1 a))"

definition vorrq_u64 :: "uint64x2_t \<Rightarrow> uint64x2_t \<Rightarrow> uint64x2_t" where
  "vorrq_u64 a b = Vec (lane0 a OR lane0 b) (lane1 a OR lane1 b)"

definition veorq_u64 :: "uint64x2_t \<Rightarrow> uint64x2_t \<Rightarrow> uint64x2_t" where
  "veorq_u64 a b = Vec (lane0 a XOR lane0 b) (lane1 a XOR lane1 b)"

definition vandq_u64 :: "uint64x2_t \<Rightarrow> uint64x2_t \<Rightarrow> uint64x2_t" where
  "vandq_u64 a b = Vec (lane0 a AND lane0 b) (lane1 a AND lane1 b)"

definition vaddq_u64 :: "uint64x2_t \<Rightarrow> uint64x2_t \<Rightarrow> uint64x2_t" where
  "vaddq_u64 a b = Vec (lane0 a + lane0 b) (lane1 a + lane1 b)"

definition vsubq_u64 :: "uint64x2_t \<Rightarrow> uint64x2_t \<Rightarrow> uint64x2_t" where
  "vsubq_u64 a b = Vec (lane0 a - lane0 b) (lane1 a - lane1 b)"

definition vld1q_dup_u64 :: "word64_ptr \<Rightarrow> uint64x2_t" where
  "vld1q_dup_u64 ptr = Vec (ptr 0) (ptr 0)"

definition vld1q_u8 :: "8 word list \<Rightarrow> uint8x16_t" where
  "vld1q_u8 ptr = take 16 ptr"

definition vreinterpretq_u8_u64 :: "uint64x2_t \<Rightarrow> uint8x16_t" where
  "vreinterpretq_u8_u64 v = bytes_of_vec v"

definition vreinterpretq_u64_u8 :: "uint8x16_t \<Rightarrow> uint64x2_t" where
  "vreinterpretq_u64_u8 bs = vec_of_bytes bs"

text \<open>\<open>vqtbl1q_u8 t idx\<close>: table lookup, an index of 16 or more gives 0.\<close>

definition vqtbl1q_u8 :: "uint8x16_t \<Rightarrow> uint8x16_t \<Rightarrow> uint8x16_t" where
  "vqtbl1q_u8 t idx = map (\<lambda>i. if unat i < 16 then t ! unat i else 0) idx"

subsection \<open>POWER AltiVec/VSX primitives\<close>

text \<open>
  Modelled from the spec: the primitives \<open>VecAdd64\<close>, \<open>VecSub64\<close>, \<open>VecAnd64\<close>, \<open>VecXor64\<close>,
  \<open>VecRotateLeft64\<close>, \<open>VecRotateRight64\<close>, \<open>VecSplatWord64\<close>, \<open>VecSplatElement64\<close>,
  \<open>VecLoad\<close>, \<open>VecLoadAligned\<close> and \<open>VecPermute\<close>, and the macro \<open>CRYPTOPP_BIG_ENDIAN\<close>, are
  in ppc_simd.h and config headers that are not under src/. They follow section 4.1 of
  the specification: operations over two packed 64-bit lanes (wrapping add and subtract,
  XOR, AND, rotate by a constant), a 128-bit load of two consecutive 64-bit words, a
  broadcast of one 64-bit word, and a byte permute on the 16-byte view. On 32-bit POWER
  the same 64-bit contracts are synthesized over 32-bit lanes, so \<open>uint32x4_p\<close> is the same
  type here. \<open>lane0\<close> is element 0 of the vector and \<open>lane1\<close> element 1, in storage order.
  The host byte order \<open>CRYPTOPP_BIG_ENDIAN\<close> is the parameter \<open>big_endian\<close>: on a
  big-endian host the bytes of each 64-bit element are stored most significant first.
\<close>

type_synonym uint8x16_p = "8 word list"
type_synonym uint32x4_p = vec128
type_synonym uint64x2_p = vec128
type_synonym simon128_t = vec128



definition VecAnd64 :: "uint64x2_p \<Rightarrow> uint64x2_p \<Rightarrow> uint64x2_p" where
  "VecAnd64 a b = Vec (lane0 a AND lane0 b) (lane1 a AND lane1 b)"

definition VecXor64 :: "uint64x2_p \<Rightarrow> uint64x2_p \<Rightarrow> uint64x2_p" where
  "VecXor64 a b = Vec (lane0 a XOR lane0 b) (lane1 a XOR lane1 b)"

definition VecRotateLeft64 :: "nat \<Rightarrow> uint64x2_p \<Rightarrow> uint64x2_p" where
  "VecRotateLeft64 R v = Vec (word_rotl R (lane0 v)) (word_rotl R (lane1 v))"





definition VecLoadAligned :: "word64_ptr \<Rightarrow> uint32x4_p" where
  "VecLoadAligned p = Vec (p 0) (p 1)"

text \<open>The 16 bytes of a register in storage order, and the register they make.\<close>

definition bytes_of_vec_p :: "bool \<Rightarrow> vec128 \<Rightarrow> 8 word list" where
  "bytes_of_vec_p big_endian v =
     (if big_endian
      then rev (bytes_of_word64 (lane0 v)) @ rev (bytes_of_word64 (lane1 v))
      else bytes_of_word64 (lane0 v) @ bytes_of_word64 (lane1 v))"

definition vec_of_bytes_p :: "bool \<Rightarrow> 8 word list \<Rightarrow> vec128" where
  "vec_of_bytes_p big_endian bs =
     (if big_endian
      then Vec (word64_of_bytes (rev (take 8 bs))) (word64_of_bytes (rev (take 8 (drop 8 bs))))
      else Vec (word64_of_bytes (take 8 bs)) (word64_of_bytes (take 8 (drop 8 bs))))"

text \<open>
  \<open>VecPermute a b msk\<close>: byte \<open>i\<close> of the result is byte \<open>msk[i] mod 32\<close> of the 32
  bytes of \<open>a\<close> followed by \<open>b\<close>.
\<close>

definition VecPermute :: "bool \<Rightarrow> vec128 \<Rightarrow> vec128 \<Rightarrow> uint8x16_p \<Rightarrow> vec128" where
  "VecPermute big_endian a b msk = vec_of_bytes_p big_endian
     (map (\<lambda>m. (bytes_of_vec_p big_endian a @ bytes_of_vec_p big_endian b) ! (unat m mod 32))
        msk)"

section \<open>Lane primitives of the source\<close>

subsection \<open>SSSE3\<close>

text \<open>The generic templates \<open>RotateLeft64<R>\<close> and \<open>RotateRight64<R>\<close> (no XOP).\<close>

definition RotateLeft64_SSE :: "nat \<Rightarrow> m128i \<Rightarrow> m128i" where
  "RotateLeft64_SSE R val = mm_or_si128 (mm_slli_epi64 val R) (mm_srli_epi64 val (64 - R))"

definition RotateRight64_SSE :: "nat \<Rightarrow> m128i \<Rightarrow> m128i" where
  "RotateRight64_SSE R val = mm_or_si128 (mm_slli_epi64 val (64 - R)) (mm_srli_epi64 val R)"

text \<open>The specializations \<open>RotateLeft64<8>\<close> and \<open>RotateRight64<8>\<close>.\<close>

definition RotateLeft64_8_SSE :: "m128i \<Rightarrow> m128i" where
  "RotateLeft64_8_SSE val =
     (let mask = mm_set_epi8 14 13 12 11 10 9 8 15 6 5 4 3 2 1 0 7
      in mm_shuffle_epi8 val mask)"

definition RotateRight64_8_SSE :: "m128i \<Rightarrow> m128i" where
  "RotateRight64_8_SSE val =
     (let mask = mm_set_epi8 8 15 14 13 12 11 10 9 0 7 6 5 4 3 2 1
      in mm_shuffle_epi8 val mask)"

subsection \<open>NEON\<close>

definition UnpackHigh64 :: "uint64x2_t \<Rightarrow> uint64x2_t \<Rightarrow> uint64x2_t" where
  "UnpackHigh64 a b =
     (let x = vget_high_u64 a; y = vget_high_u64 b in vcombine_u64 x y)"

definition UnpackLow64 :: "uint64x2_t \<Rightarrow> uint64x2_t \<Rightarrow> uint64x2_t" where
  "UnpackLow64 a b =
     (let x = vget_low_u64 a; y = vget_low_u64 b in vcombine_u64 x y)"

definition RotateLeft64_NEON :: "nat \<Rightarrow> uint64x2_t \<Rightarrow> uint64x2_t" where
  "RotateLeft64_NEON R val =
     (let a = vshlq_n_u64 val R; b = vshrq_n_u64 val (64 - R) in vorrq_u64 a b)"

definition RotateRight64_NEON :: "nat \<Rightarrow> uint64x2_t \<Rightarrow> uint64x2_t" where
  "RotateRight64_NEON R val =
     (let a = vshlq_n_u64 val (64 - R); b = vshrq_n_u64 val R in vorrq_u64 a b)"

text \<open>The AArch32/AArch64 specializations for a rotation by 8.\<close>

definition RotateLeft64_8_NEON :: "uint64x2_t \<Rightarrow> uint64x2_t" where
  "RotateLeft64_8_NEON val =
     (let maskb = [7,0,1,2, 3,4,5,6, 15,8,9,10, 11,12,13,14];
          mask = vld1q_u8 maskb
      in vreinterpretq_u64_u8 (vqtbl1q_u8 (vreinterpretq_u8_u64 val) mask))"

definition RotateRight64_8_NEON :: "uint64x2_t \<Rightarrow> uint64x2_t" where
  "RotateRight64_8_NEON val =
     (let maskb = [1,2,3,4, 5,6,7,0, 9,10,11,12, 13,14,15,8];
          mask = vld1q_u8 maskb
      in vreinterpretq_u64_u8 (vqtbl1q_u8 (vreinterpretq_u8_u64 val) mask))"

section \<open>Cipher kernels\<close>

text \<open>
  Each kernel takes its blocks by reference and overwrites them; the model returns the
  new blocks. \<open>rounds\<close> is an \<open>unsigned int\<close>. The loop \<open>for (size_t i=0; i <
  static_cast<size_t>(rounds); ++i)\<close> counts from 0 to a bound below \<open>2^32\<close>, so its
  index is a natural number. \<open>std::swap\<close> and \<open>Swap128\<close> exchange two registers.
\<close>

definition swap :: "vec128 \<times> vec128 \<Rightarrow> vec128 \<times> vec128" where
  "swap s = (snd s, fst s)"

definition Swap128 :: "m128i \<times> m128i \<Rightarrow> m128i \<times> m128i" where
  "Swap128 s = swap s"

subsection \<open>SPECK-128, NEON\<close>

function SPECK128_Enc_Block_loop_NEON ::
  "nat \<Rightarrow> nat \<Rightarrow> word64_ptr \<Rightarrow> uint64x2_t \<times> uint64x2_t \<Rightarrow> uint64x2_t \<times> uint64x2_t" where
  "SPECK128_Enc_Block_loop_NEON i n subkeys (x1, y1) =
     (if i < n then
        (let rk = vld1q_dup_u64 (ptr_add subkeys i);
             x1 = RotateRight64_8_NEON x1;
             x1 = vaddq_u64 x1 y1;
             x1 = veorq_u64 x1 rk;
             y1 = RotateLeft64_NEON 3 y1;
             y1 = veorq_u64 y1 x1
         in SPECK128_Enc_Block_loop_NEON (i + 1) n subkeys (x1, y1))
      else (x1, y1))"
  by pat_completeness auto
termination
  by (relation "measure (\<lambda>(i, n, subkeys, s). n - i)") auto

declare SPECK128_Enc_Block_loop_NEON.simps [simp del]

definition SPECK128_Enc_Block_NEON ::
  "uint64x2_t \<Rightarrow> uint64x2_t \<Rightarrow> word64_ptr \<Rightarrow> 32 word \<Rightarrow> uint64x2_t \<times> uint64x2_t" where
  "SPECK128_Enc_Block_NEON block0 block1 subkeys rounds =
     (let x1 = UnpackHigh64 block0 block1;
          y1 = UnpackLow64 block0 block1;
          (x1, y1) = SPECK128_Enc_Block_loop_NEON 0 (unat rounds) subkeys (x1, y1)
      in (UnpackLow64 y1 x1, UnpackHigh64 y1 x1))"

function SPECK128_Enc_6_Blocks_loop_NEON ::
  "nat \<Rightarrow> nat \<Rightarrow> word64_ptr \<Rightarrow> uint64x2_t \<times> uint64x2_t \<times> uint64x2_t \<times> uint64x2_t \<times> uint64x2_t \<times> uint64x2_t
     \<Rightarrow> uint64x2_t \<times> uint64x2_t \<times> uint64x2_t \<times> uint64x2_t \<times> uint64x2_t \<times> uint64x2_t" where
  "SPECK128_Enc_6_Blocks_loop_NEON i n subkeys (x1, y1, x2, y2, x3, y3) =
     (if i < n then
        (let rk = vld1q_dup_u64 (ptr_add subkeys i);
             x1 = RotateRight64_8_NEON x1;
             x2 = RotateRight64_8_NEON x2;
             x3 = RotateRight64_8_NEON x3;
             x1 = vaddq_u64 x1 y1;
             x2 = vaddq_u64 x2 y2;
             x3 = vaddq_u64 x3 y3;
             x1 = veorq_u64 x1 rk;
             x2 = veorq_u64 x2 rk;
             x3 = veorq_u64 x3 rk;
             y1 = RotateLeft64_NEON 3 y1;
             y2 = RotateLeft64_NEON 3 y2;
             y3 = RotateLeft64_NEON 3 y3;
             y1 = veorq_u64 y1 x1;
             y2 = veorq_u64 y2 x2;
             y3 = veorq_u64 y3 x3
         in SPECK128_Enc_6_Blocks_loop_NEON (i + 1) n subkeys (x1, y1, x2, y2, x3, y3))
      else (x1, y1, x2, y2, x3, y3))"
  by pat_completeness auto
termination
  by (relation "measure (\<lambda>(i, n, subkeys, s). n - i)") auto

declare SPECK128_Enc_6_Blocks_loop_NEON.simps [simp del]

definition SPECK128_Enc_6_Blocks_NEON ::
  "uint64x2_t \<Rightarrow> uint64x2_t \<Rightarrow> uint64x2_t \<Rightarrow> uint64x2_t \<Rightarrow> uint64x2_t \<Rightarrow> uint64x2_t \<Rightarrow> word64_ptr \<Rightarrow> 32 word
     \<Rightarrow> uint64x2_t \<times> uint64x2_t \<times> uint64x2_t \<times> uint64x2_t \<times> uint64x2_t \<times> uint64x2_t" where
  "SPECK128_Enc_6_Blocks_NEON block0 block1 block2 block3 block4 block5 subkeys rounds =
     (let x1 = UnpackHigh64 block0 block1;
          y1 = UnpackLow64 block0 block1;
          x2 = UnpackHigh64 block2 block3;
          y2 = UnpackLow64 block2 block3;
          x3 = UnpackHigh64 block4 block5;
          y3 = UnpackLow64 block4 block5;
          (x1, y1, x2, y2, x3, y3) =
             SPECK128_Enc_6_Blocks_loop_NEON 0 (unat rounds) subkeys (x1, y1, x2, y2, x3, y3)
      in (UnpackLow64 y1 x1, UnpackHigh64 y1 x1, UnpackLow64 y2 x2, UnpackHigh64 y2 x2, UnpackLow64 y3 x3, UnpackHigh64 y3 x3))"

text \<open>
  The decryption loops count an \<open>int\<close> down from \<open>static_cast<int>(rounds-1)\<close>, where
  \<open>rounds-1\<close> is computed in \<open>unsigned int\<close>.
\<close>

function SPECK128_Dec_Block_loop_NEON ::
  "int \<Rightarrow> word64_ptr \<Rightarrow> uint64x2_t \<times> uint64x2_t \<Rightarrow> uint64x2_t \<times> uint64x2_t" where
  "SPECK128_Dec_Block_loop_NEON i subkeys (x1, y1) =
     (if i \<ge> 0 then
        (let rk = vld1q_dup_u64 (ptr_add subkeys (nat i));
             y1 = veorq_u64 y1 x1;
             y1 = RotateRight64_NEON 3 y1;
             x1 = veorq_u64 x1 rk;
             x1 = vsubq_u64 x1 y1;
             x1 = RotateLeft64_8_NEON x1
         in SPECK128_Dec_Block_loop_NEON (i - 1) subkeys (x1, y1))
      else (x1, y1))"
  by pat_completeness auto
termination
  by (relation "measure (\<lambda>(i, subkeys, s). nat (i + 1))") auto

declare SPECK128_Dec_Block_loop_NEON.simps [simp del]

definition SPECK128_Dec_Block_NEON ::
  "uint64x2_t \<Rightarrow> uint64x2_t \<Rightarrow> word64_ptr \<Rightarrow> 32 word \<Rightarrow> uint64x2_t \<times> uint64x2_t" where
  "SPECK128_Dec_Block_NEON block0 block1 subkeys rounds =
     (let x1 = UnpackHigh64 block0 block1;
          y1 = UnpackLow64 block0 block1;
          (x1, y1) = SPECK128_Dec_Block_loop_NEON (sint (rounds - 1)) subkeys (x1, y1)
      in (UnpackLow64 y1 x1, UnpackHigh64 y1 x1))"

function SPECK128_Dec_6_Blocks_loop_NEON ::
  "int \<Rightarrow> word64_ptr \<Rightarrow> uint64x2_t \<times> uint64x2_t \<times> uint64x2_t \<times> uint64x2_t \<times> uint64x2_t \<times> uint64x2_t
     \<Rightarrow> uint64x2_t \<times> uint64x2_t \<times> uint64x2_t \<times> uint64x2_t \<times> uint64x2_t \<times> uint64x2_t" where
  "SPECK128_Dec_6_Blocks_loop_NEON i subkeys (x1, y1, x2, y2, x3, y3) =
     (if i \<ge> 0 then
        (let rk = vld1q_dup_u64 (ptr_add subkeys (nat i));
             y1 = veorq_u64 y1 x1;
             y2 = veorq_u64 y2 x2;
             y3 = veorq_u64 y3 x3;
             y1 = RotateRight64_NEON 3 y1;
             y2 = RotateRight64_NEON 3 y2;
             y3 = RotateRight64_NEON 3 y3;
             x1 = veorq_u64 x1 rk;
             x2 = veorq_u64 x2 rk;
             x3 = veorq_u64 x3 rk;
             x1 = vsubq_u64 x1 y1;
             x2 = vsubq_u64 x2 y2;
             x3 = vsubq_u64 x3 y3;
             x1 = RotateLeft64_8_NEON x1;
             x2 = RotateLeft64_8_NEON x2;
             x3 = RotateLeft64_8_NEON x3
         in SPECK128_Dec_6_Blocks_loop_NEON (i - 1) subkeys (x1, y1, x2, y2, x3, y3))
      else (x1, y1, x2, y2, x3, y3))"
  by pat_completeness auto
termination
  by (relation "measure (\<lambda>(i, subkeys, s). nat (i + 1))") auto

declare SPECK128_Dec_6_Blocks_loop_NEON.simps [simp del]

definition SPECK128_Dec_6_Blocks_NEON ::
  "uint64x2_t \<Rightarrow> uint64x2_t \<Rightarrow> uint64x2_t \<Rightarrow> uint64x2_t \<Rightarrow> uint64x2_t \<Rightarrow> uint64x2_t \<Rightarrow> word64_ptr \<Rightarrow> 32 word
     \<Rightarrow> uint64x2_t \<times> uint64x2_t \<times> uint64x2_t \<times> uint64x2_t \<times> uint64x2_t \<times> uint64x2_t" where
  "SPECK128_Dec_6_Blocks_NEON block0 block1 block2 block3 block4 block5 subkeys rounds =
     (let x1 = UnpackHigh64 block0 block1;
          y1 = UnpackLow64 block0 block1;
          x2 = UnpackHigh64 block2 block3;
          y2 = UnpackLow64 block2 block3;
          x3 = UnpackHigh64 block4 block5;
          y3 = UnpackLow64 block4 block5;
          (x1, y1, x2, y2, x3, y3) =
             SPECK128_Dec_6_Blocks_loop_NEON (sint (rounds - 1)) subkeys (x1, y1, x2, y2, x3, y3)
      in (UnpackLow64 y1 x1, UnpackHigh64 y1 x1, UnpackLow64 y2 x2, UnpackHigh64 y2 x2, UnpackLow64 y3 x3, UnpackHigh64 y3 x3))"

subsection \<open>SPECK-128, SSSE3\<close>

function SPECK128_Enc_Block_loop_SSE ::
  "nat \<Rightarrow> nat \<Rightarrow> word64_ptr \<Rightarrow> m128i \<times> m128i \<Rightarrow> m128i \<times> m128i" where
  "SPECK128_Enc_Block_loop_SSE i n subkeys (x1, y1) =
     (if i < n then
        (let rk = mm_load_si128 (ptr_add subkeys (i * 2));
             x1 = RotateRight64_8_SSE x1;
             x1 = mm_add_epi64 x1 y1;
             x1 = mm_xor_si128 x1 rk;
             y1 = RotateLeft64_SSE 3 y1;
             y1 = mm_xor_si128 y1 x1
         in SPECK128_Enc_Block_loop_SSE (i + 1) n subkeys (x1, y1))
      else (x1, y1))"
  by pat_completeness auto
termination
  by (relation "measure (\<lambda>(i, n, subkeys, s). n - i)") auto

declare SPECK128_Enc_Block_loop_SSE.simps [simp del]

definition SPECK128_Enc_Block_SSE ::
  "m128i \<Rightarrow> m128i \<Rightarrow> word64_ptr \<Rightarrow> 32 word \<Rightarrow> m128i \<times> m128i" where
  "SPECK128_Enc_Block_SSE block0 block1 subkeys rounds =
     (let x1 = mm_unpackhi_epi64 block0 block1;
          y1 = mm_unpacklo_epi64 block0 block1;
          (x1, y1) = SPECK128_Enc_Block_loop_SSE 0 (unat rounds) subkeys (x1, y1)
      in (mm_unpacklo_epi64 y1 x1, mm_unpackhi_epi64 y1 x1))"

function SPECK128_Enc_6_Blocks_loop_SSE ::
  "nat \<Rightarrow> nat \<Rightarrow> word64_ptr \<Rightarrow> m128i \<times> m128i \<times> m128i \<times> m128i \<times> m128i \<times> m128i
     \<Rightarrow> m128i \<times> m128i \<times> m128i \<times> m128i \<times> m128i \<times> m128i" where
  "SPECK128_Enc_6_Blocks_loop_SSE i n subkeys (x1, y1, x2, y2, x3, y3) =
     (if i < n then
        (let rk = mm_load_si128 (ptr_add subkeys (i * 2));
             x1 = RotateRight64_8_SSE x1;
             x2 = RotateRight64_8_SSE x2;
             x3 = RotateRight64_8_SSE x3;
             x1 = mm_add_epi64 x1 y1;
             x2 = mm_add_epi64 x2 y2;
             x3 = mm_add_epi64 x3 y3;
             x1 = mm_xor_si128 x1 rk;
             x2 = mm_xor_si128 x2 rk;
             x3 = mm_xor_si128 x3 rk;
             y1 = RotateLeft64_SSE 3 y1;
             y2 = RotateLeft64_SSE 3 y2;
             y3 = RotateLeft64_SSE 3 y3;
             y1 = mm_xor_si128 y1 x1;
             y2 = mm_xor_si128 y2 x2;
             y3 = mm_xor_si128 y3 x3
         in SPECK128_Enc_6_Blocks_loop_SSE (i + 1) n subkeys (x1, y1, x2, y2, x3, y3))
      else (x1, y1, x2, y2, x3, y3))"
  by pat_completeness auto
termination
  by (relation "measure (\<lambda>(i, n, subkeys, s). n - i)") auto

declare SPECK128_Enc_6_Blocks_loop_SSE.simps [simp del]

definition SPECK128_Enc_6_Blocks_SSE ::
  "m128i \<Rightarrow> m128i \<Rightarrow> m128i \<Rightarrow> m128i \<Rightarrow> m128i \<Rightarrow> m128i \<Rightarrow> word64_ptr \<Rightarrow> 32 word
     \<Rightarrow> m128i \<times> m128i \<times> m128i \<times> m128i \<times> m128i \<times> m128i" where
  "SPECK128_Enc_6_Blocks_SSE block0 block1 block2 block3 block4 block5 subkeys rounds =
     (let x1 = mm_unpackhi_epi64 block0 block1;
          y1 = mm_unpacklo_epi64 block0 block1;
          x2 = mm_unpackhi_epi64 block2 block3;
          y2 = mm_unpacklo_epi64 block2 block3;
          x3 = mm_unpackhi_epi64 block4 block5;
          y3 = mm_unpacklo_epi64 block4 block5;
          (x1, y1, x2, y2, x3, y3) =
             SPECK128_Enc_6_Blocks_loop_SSE 0 (unat rounds) subkeys (x1, y1, x2, y2, x3, y3)
      in (mm_unpacklo_epi64 y1 x1, mm_unpackhi_epi64 y1 x1, mm_unpacklo_epi64 y2 x2, mm_unpackhi_epi64 y2 x2, mm_unpacklo_epi64 y3 x3, mm_unpackhi_epi64 y3 x3))"

text \<open>
  The decryption loops count an \<open>int\<close> down from \<open>static_cast<int>(rounds-1)\<close>, where
  \<open>rounds-1\<close> is computed in \<open>unsigned int\<close>.
\<close>

function SPECK128_Dec_Block_loop_SSE ::
  "int \<Rightarrow> word64_ptr \<Rightarrow> m128i \<times> m128i \<Rightarrow> m128i \<times> m128i" where
  "SPECK128_Dec_Block_loop_SSE i subkeys (x1, y1) =
     (if i \<ge> 0 then
        (let rk = mm_castpd_si128 (mm_loaddup_pd (ptr_add subkeys (nat i)));
             y1 = mm_xor_si128 y1 x1;
             y1 = RotateRight64_SSE 3 y1;
             x1 = mm_xor_si128 x1 rk;
             x1 = mm_sub_epi64 x1 y1;
             x1 = RotateLeft64_8_SSE x1
         in SPECK128_Dec_Block_loop_SSE (i - 1) subkeys (x1, y1))
      else (x1, y1))"
  by pat_completeness auto
termination
  by (relation "measure (\<lambda>(i, subkeys, s). nat (i + 1))") auto

declare SPECK128_Dec_Block_loop_SSE.simps [simp del]

definition SPECK128_Dec_Block_SSE ::
  "m128i \<Rightarrow> m128i \<Rightarrow> word64_ptr \<Rightarrow> 32 word \<Rightarrow> m128i \<times> m128i" where
  "SPECK128_Dec_Block_SSE block0 block1 subkeys rounds =
     (let x1 = mm_unpackhi_epi64 block0 block1;
          y1 = mm_unpacklo_epi64 block0 block1;
          (x1, y1) = SPECK128_Dec_Block_loop_SSE (sint (rounds - 1)) subkeys (x1, y1)
      in (mm_unpacklo_epi64 y1 x1, mm_unpackhi_epi64 y1 x1))"

function SPECK128_Dec_6_Blocks_loop_SSE ::
  "int \<Rightarrow> word64_ptr \<Rightarrow> m128i \<times> m128i \<times> m128i \<times> m128i \<times> m128i \<times> m128i
     \<Rightarrow> m128i \<times> m128i \<times> m128i \<times> m128i \<times> m128i \<times> m128i" where
  "SPECK128_Dec_6_Blocks_loop_SSE i subkeys (x1, y1, x2, y2, x3, y3) =
     (if i \<ge> 0 then
        (let rk = mm_castpd_si128 (mm_loaddup_pd (ptr_add subkeys (nat i)));
             y1 = mm_xor_si128 y1 x1;
             y2 = mm_xor_si128 y2 x2;
             y3 = mm_xor_si128 y3 x3;
             y1 = RotateRight64_SSE 3 y1;
             y2 = RotateRight64_SSE 3 y2;
             y3 = RotateRight64_SSE 3 y3;
             x1 = mm_xor_si128 x1 rk;
             x2 = mm_xor_si128 x2 rk;
             x3 = mm_xor_si128 x3 rk;
             x1 = mm_sub_epi64 x1 y1;
             x2 = mm_sub_epi64 x2 y2;
             x3 = mm_sub_epi64 x3 y3;
             x1 = RotateLeft64_8_SSE x1;
             x2 = RotateLeft64_8_SSE x2;
             x3 = RotateLeft64_8_SSE x3
         in SPECK128_Dec_6_Blocks_loop_SSE (i - 1) subkeys (x1, y1, x2, y2, x3, y3))
      else (x1, y1, x2, y2, x3, y3))"
  by pat_completeness auto
termination
  by (relation "measure (\<lambda>(i, subkeys, s). nat (i + 1))") auto

declare SPECK128_Dec_6_Blocks_loop_SSE.simps [simp del]

definition SPECK128_Dec_6_Blocks_SSE ::
  "m128i \<Rightarrow> m128i \<Rightarrow> m128i \<Rightarrow> m128i \<Rightarrow> m128i \<Rightarrow> m128i \<Rightarrow> word64_ptr \<Rightarrow> 32 word
     \<Rightarrow> m128i \<times> m128i \<times> m128i \<times> m128i \<times> m128i \<times> m128i" where
  "SPECK128_Dec_6_Blocks_SSE block0 block1 block2 block3 block4 block5 subkeys rounds =
     (let x1 = mm_unpackhi_epi64 block0 block1;
          y1 = mm_unpacklo_epi64 block0 block1;
          x2 = mm_unpackhi_epi64 block2 block3;
          y2 = mm_unpacklo_epi64 block2 block3;
          x3 = mm_unpackhi_epi64 block4 block5;
          y3 = mm_unpacklo_epi64 block4 block5;
          (x1, y1, x2, y2, x3, y3) =
             SPECK128_Dec_6_Blocks_loop_SSE (sint (rounds - 1)) subkeys (x1, y1, x2, y2, x3, y3)
      in (mm_unpacklo_epi64 y1 x1, mm_unpackhi_epi64 y1 x1, mm_unpacklo_epi64 y2 x2, mm_unpackhi_epi64 y2 x2, mm_unpacklo_epi64 y3 x3, mm_unpackhi_epi64 y3 x3))"

subsection \<open>SIMON-128, NEON\<close>

definition SIMON128_f_NEON :: "uint64x2_t \<Rightarrow> uint64x2_t" where
  "SIMON128_f_NEON v = veorq_u64 (RotateLeft64_NEON 2 v)
     (vandq_u64 (RotateLeft64_NEON 1 v) (RotateLeft64_8_NEON v))"

text \<open>
  The paired encryption loop. The index \<open>i\<close> and the bound
  \<open>static_cast<size_t>(rounds & ~1)-1\<close> are \<open>size_t\<close> values (64 bits here), so the
  bound is computed with wrap-around and the loop need not terminate: \<open>None\<close> is the
  loop that runs forever.
\<close>

partial_function (option) SIMON128_Enc_Block_loop_NEON ::
  "64 word \<Rightarrow> 64 word \<Rightarrow> word64_ptr \<Rightarrow> uint64x2_t \<times> uint64x2_t \<Rightarrow> (uint64x2_t \<times> uint64x2_t) option" where
  "SIMON128_Enc_Block_loop_NEON i bound subkeys s =
     (if i < bound then
        (case s of (x1, y1) \<Rightarrow>
          (let rk1 = vld1q_dup_u64 (ptr_add subkeys (unat i));
               y1 = veorq_u64 (veorq_u64 y1 (SIMON128_f_NEON x1)) rk1;
               rk2 = vld1q_dup_u64 (ptr_add (ptr_add subkeys (unat i)) 1);
               x1 = veorq_u64 (veorq_u64 x1 (SIMON128_f_NEON y1)) rk2
           in SIMON128_Enc_Block_loop_NEON (i + 2) bound subkeys (x1, y1)))
      else Some s)"

definition SIMON128_Enc_Block_NEON ::
  "uint64x2_t \<Rightarrow> uint64x2_t \<Rightarrow> word64_ptr \<Rightarrow> 32 word \<Rightarrow> (uint64x2_t \<times> uint64x2_t) option" where
  "SIMON128_Enc_Block_NEON block0 block1 subkeys rounds =
     (let x1 = UnpackHigh64 block0 block1;
          y1 = UnpackLow64 block0 block1
      in case SIMON128_Enc_Block_loop_NEON 0 (ucast (rounds AND NOT 1) - 1) subkeys (x1, y1) of
           None \<Rightarrow> None
         | Some (x1, y1) \<Rightarrow>
             (let (x1, y1) =
                (if rounds AND 1 \<noteq> 0 then
                   (let rk = vld1q_dup_u64 (ptr_add subkeys (unat rounds - 1));
                        y1 = veorq_u64 (veorq_u64 y1 (SIMON128_f_NEON x1)) rk
                    in swap (x1, y1))
                 else (x1, y1))
              in Some (UnpackLow64 y1 x1, UnpackHigh64 y1 x1)))"

partial_function (option) SIMON128_Enc_6_Blocks_loop_NEON ::
  "64 word \<Rightarrow> 64 word \<Rightarrow> word64_ptr \<Rightarrow> uint64x2_t \<times> uint64x2_t \<times> uint64x2_t \<times> uint64x2_t \<times> uint64x2_t \<times> uint64x2_t
     \<Rightarrow> (uint64x2_t \<times> uint64x2_t \<times> uint64x2_t \<times> uint64x2_t \<times> uint64x2_t \<times> uint64x2_t) option" where
  "SIMON128_Enc_6_Blocks_loop_NEON i bound subkeys s =
     (if i < bound then
        (case s of (x1, y1, x2, y2, x3, y3) \<Rightarrow>
          (let rk1 = vld1q_dup_u64 (ptr_add subkeys (unat i));
               y1 = veorq_u64 (veorq_u64 y1 (SIMON128_f_NEON x1)) rk1;
               y2 = veorq_u64 (veorq_u64 y2 (SIMON128_f_NEON x2)) rk1;
               y3 = veorq_u64 (veorq_u64 y3 (SIMON128_f_NEON x3)) rk1;
               rk2 = vld1q_dup_u64 (ptr_add (ptr_add subkeys (unat i)) 1);
               x1 = veorq_u64 (veorq_u64 x1 (SIMON128_f_NEON y1)) rk2;
               x2 = veorq_u64 (veorq_u64 x2 (SIMON128_f_NEON y2)) rk2;
               x3 = veorq_u64 (veorq_u64 x3 (SIMON128_f_NEON y3)) rk2
           in SIMON128_Enc_6_Blocks_loop_NEON (i + 2) bound subkeys (x1, y1, x2, y2, x3, y3)))
      else Some s)"

definition SIMON128_Enc_6_Blocks_NEON ::
  "uint64x2_t \<Rightarrow> uint64x2_t \<Rightarrow> uint64x2_t \<Rightarrow> uint64x2_t \<Rightarrow> uint64x2_t \<Rightarrow> uint64x2_t \<Rightarrow> word64_ptr \<Rightarrow> 32 word
     \<Rightarrow> (uint64x2_t \<times> uint64x2_t \<times> uint64x2_t \<times> uint64x2_t \<times> uint64x2_t \<times> uint64x2_t) option" where
  "SIMON128_Enc_6_Blocks_NEON block0 block1 block2 block3 block4 block5 subkeys rounds =
     (let x1 = UnpackHigh64 block0 block1;
          y1 = UnpackLow64 block0 block1;
          x2 = UnpackHigh64 block2 block3;
          y2 = UnpackLow64 block2 block3;
          x3 = UnpackHigh64 block4 block5;
          y3 = UnpackLow64 block4 block5
      in case SIMON128_Enc_6_Blocks_loop_NEON 0 (ucast (rounds AND NOT 1) - 1) subkeys
                (x1, y1, x2, y2, x3, y3) of
           None \<Rightarrow> None
         | Some (x1, y1, x2, y2, x3, y3) \<Rightarrow>
             (let (x1, y1, x2, y2, x3, y3) =
                (if rounds AND 1 \<noteq> 0 then
                   (let rk = vld1q_dup_u64 (ptr_add subkeys (unat rounds - 1));
                        y1 = veorq_u64 (veorq_u64 y1 (SIMON128_f_NEON x1)) rk;
                        y2 = veorq_u64 (veorq_u64 y2 (SIMON128_f_NEON x2)) rk;
                        y3 = veorq_u64 (veorq_u64 y3 (SIMON128_f_NEON x3)) rk;
                        (x1, y1) = swap (x1, y1);
                        (x2, y2) = swap (x2, y2);
                        (x3, y3) = swap (x3, y3)
                    in (x1, y1, x2, y2, x3, y3))
                 else (x1, y1, x2, y2, x3, y3))
              in Some (UnpackLow64 y1 x1, UnpackHigh64 y1 x1, UnpackLow64 y2 x2, UnpackHigh64 y2 x2,
                       UnpackLow64 y3 x3, UnpackHigh64 y3 x3)))"

function SIMON128_Dec_Block_loop_NEON ::
  "int \<Rightarrow> word64_ptr \<Rightarrow> uint64x2_t \<times> uint64x2_t \<Rightarrow> uint64x2_t \<times> uint64x2_t" where
  "SIMON128_Dec_Block_loop_NEON i subkeys (x1, y1) =
     (if i \<ge> 0 then
        (let rk1 = vld1q_dup_u64 (ptr_add (ptr_add subkeys (nat i)) 1);
             x1 = veorq_u64 (veorq_u64 x1 (SIMON128_f_NEON y1)) rk1;
             rk2 = vld1q_dup_u64 (ptr_add subkeys (nat i));
             y1 = veorq_u64 (veorq_u64 y1 (SIMON128_f_NEON x1)) rk2
         in SIMON128_Dec_Block_loop_NEON (i - 2) subkeys (x1, y1))
      else (x1, y1))"
  by pat_completeness auto
termination
  by (relation "measure (\<lambda>(i, subkeys, s). nat (i + 2))") auto

declare SIMON128_Dec_Block_loop_NEON.simps [simp del]

definition SIMON128_Dec_Block_NEON ::
  "uint64x2_t \<Rightarrow> uint64x2_t \<Rightarrow> word64_ptr \<Rightarrow> 32 word \<Rightarrow> uint64x2_t \<times> uint64x2_t" where
  "SIMON128_Dec_Block_NEON block0 block1 subkeys rounds =
     (let x1 = UnpackHigh64 block0 block1;
          y1 = UnpackLow64 block0 block1;
          (x1, y1, rounds) =
            (if rounds AND 1 \<noteq> 0 then
               (let (x1, y1) = swap (x1, y1);
                    rk = vld1q_dup_u64 (ptr_add subkeys (unat rounds - 1));
                    y1 = veorq_u64 (veorq_u64 y1 rk) (SIMON128_f_NEON x1)
                in (x1, y1, rounds - 1))
             else (x1, y1, rounds));
          (x1, y1) = SIMON128_Dec_Block_loop_NEON (sint (rounds - 2)) subkeys (x1, y1)
      in (UnpackLow64 y1 x1, UnpackHigh64 y1 x1))"

function SIMON128_Dec_6_Blocks_loop_NEON ::
  "int \<Rightarrow> word64_ptr \<Rightarrow> uint64x2_t \<times> uint64x2_t \<times> uint64x2_t \<times> uint64x2_t \<times> uint64x2_t \<times> uint64x2_t
     \<Rightarrow> uint64x2_t \<times> uint64x2_t \<times> uint64x2_t \<times> uint64x2_t \<times> uint64x2_t \<times> uint64x2_t" where
  "SIMON128_Dec_6_Blocks_loop_NEON i subkeys (x1, y1, x2, y2, x3, y3) =
     (if i \<ge> 0 then
        (let rk1 = vld1q_dup_u64 (ptr_add (ptr_add subkeys (nat i)) 1);
             x1 = veorq_u64 (veorq_u64 x1 (SIMON128_f_NEON y1)) rk1;
             x2 = veorq_u64 (veorq_u64 x2 (SIMON128_f_NEON y2)) rk1;
             x3 = veorq_u64 (veorq_u64 x3 (SIMON128_f_NEON y3)) rk1;
             rk2 = vld1q_dup_u64 (ptr_add subkeys (nat i));
             y1 = veorq_u64 (veorq_u64 y1 (SIMON128_f_NEON x1)) rk2;
             y2 = veorq_u64 (veorq_u64 y2 (SIMON128_f_NEON x2)) rk2;
             y3 = veorq_u64 (veorq_u64 y3 (SIMON128_f_NEON x3)) rk2
         in SIMON128_Dec_6_Blocks_loop_NEON (i - 2) subkeys (x1, y1, x2, y2, x3, y3))
      else (x1, y1, x2, y2, x3, y3))"
  by pat_completeness auto
termination
  by (relation "measure (\<lambda>(i, subkeys, s). nat (i + 2))") auto

declare SIMON128_Dec_6_Blocks_loop_NEON.simps [simp del]

definition SIMON128_Dec_6_Blocks_NEON ::
  "uint64x2_t \<Rightarrow> uint64x2_t \<Rightarrow> uint64x2_t \<Rightarrow> uint64x2_t \<Rightarrow> uint64x2_t \<Rightarrow> uint64x2_t \<Rightarrow> word64_ptr \<Rightarrow> 32 word
     \<Rightarrow> uint64x2_t \<times> uint64x2_t \<times> uint64x2_t \<times> uint64x2_t \<times> uint64x2_t \<times> uint64x2_t" where
  "SIMON128_Dec_6_Blocks_NEON block0 block1 block2 block3 block4 block5 subkeys rounds =
     (let x1 = UnpackHigh64 block0 block1;
          y1 = UnpackLow64 block0 block1;
          x2 = UnpackHigh64 block2 block3;
          y2 = UnpackLow64 block2 block3;
          x3 = UnpackHigh64 block4 block5;
          y3 = UnpackLow64 block4 block5;
          (x1, y1, x2, y2, x3, y3, rounds) =
            (if rounds AND 1 \<noteq> 0 then
               (let (x1, y1) = swap (x1, y1);
                    (x2, y2) = swap (x2, y2);
                    (x3, y3) = swap (x3, y3);
                    rk = vld1q_dup_u64 (ptr_add subkeys (unat rounds - 1));
                    y1 = veorq_u64 (veorq_u64 y1 rk) (SIMON128_f_NEON x1);
                    y2 = veorq_u64 (veorq_u64 y2 rk) (SIMON128_f_NEON x2);
                    y3 = veorq_u64 (veorq_u64 y3 rk) (SIMON128_f_NEON x3)
                in (x1, y1, x2, y2, x3, y3, rounds - 1))
             else (x1, y1, x2, y2, x3, y3, rounds));
          (x1, y1, x2, y2, x3, y3) =
             SIMON128_Dec_6_Blocks_loop_NEON (sint (rounds - 2)) subkeys (x1, y1, x2, y2, x3, y3)
      in (UnpackLow64 y1 x1, UnpackHigh64 y1 x1, UnpackLow64 y2 x2, UnpackHigh64 y2 x2,
          UnpackLow64 y3 x3, UnpackHigh64 y3 x3))"

subsection \<open>SIMON-128, SSSE3\<close>

definition SIMON128_f_SSE :: "m128i \<Rightarrow> m128i" where
  "SIMON128_f_SSE v = mm_xor_si128 (RotateLeft64_SSE 2 v)
     (mm_and_si128 (RotateLeft64_SSE 1 v) (RotateLeft64_8_SSE v))"

text \<open>
  The paired encryption loop. The index \<open>i\<close> and the bound
  \<open>static_cast<size_t>(rounds & ~1)-1\<close> are \<open>size_t\<close> values (64 bits here), so the
  bound is computed with wrap-around and the loop need not terminate: \<open>None\<close> is the
  loop that runs forever.
\<close>

partial_function (option) SIMON128_Enc_Block_loop_SSE ::
  "64 word \<Rightarrow> 64 word \<Rightarrow> word64_ptr \<Rightarrow> m128i \<times> m128i \<Rightarrow> (m128i \<times> m128i) option" where
  "SIMON128_Enc_Block_loop_SSE i bound subkeys s =
     (if i < bound then
        (case s of (x1, y1) \<Rightarrow>
          (let rk1 = mm_load_si128 (ptr_add subkeys (unat (i * 2)));
               y1 = mm_xor_si128 (mm_xor_si128 y1 (SIMON128_f_SSE x1)) rk1;
               rk2 = mm_load_si128 (ptr_add subkeys (unat ((i + 1) * 2)));
               x1 = mm_xor_si128 (mm_xor_si128 x1 (SIMON128_f_SSE y1)) rk2
           in SIMON128_Enc_Block_loop_SSE (i + 2) bound subkeys (x1, y1)))
      else Some s)"

definition SIMON128_Enc_Block_SSE ::
  "m128i \<Rightarrow> m128i \<Rightarrow> word64_ptr \<Rightarrow> 32 word \<Rightarrow> (m128i \<times> m128i) option" where
  "SIMON128_Enc_Block_SSE block0 block1 subkeys rounds =
     (let x1 = mm_unpackhi_epi64 block0 block1;
          y1 = mm_unpacklo_epi64 block0 block1
      in case SIMON128_Enc_Block_loop_SSE 0 (ucast (rounds AND NOT 1) - 1) subkeys (x1, y1) of
           None \<Rightarrow> None
         | Some (x1, y1) \<Rightarrow>
             (let (x1, y1) =
                (if rounds AND 1 \<noteq> 0 then
                   (let rk = mm_load_si128 (ptr_add subkeys (unat ((rounds - 1) * 2)));
                        y1 = mm_xor_si128 (mm_xor_si128 y1 (SIMON128_f_SSE x1)) rk
                    in Swap128 (x1, y1))
                 else (x1, y1))
              in Some (mm_unpacklo_epi64 y1 x1, mm_unpackhi_epi64 y1 x1)))"

partial_function (option) SIMON128_Enc_6_Blocks_loop_SSE ::
  "64 word \<Rightarrow> 64 word \<Rightarrow> word64_ptr \<Rightarrow> m128i \<times> m128i \<times> m128i \<times> m128i \<times> m128i \<times> m128i
     \<Rightarrow> (m128i \<times> m128i \<times> m128i \<times> m128i \<times> m128i \<times> m128i) option" where
  "SIMON128_Enc_6_Blocks_loop_SSE i bound subkeys s =
     (if i < bound then
        (case s of (x1, y1, x2, y2, x3, y3) \<Rightarrow>
          (let rk1 = mm_load_si128 (ptr_add subkeys (unat (i * 2)));
               y1 = mm_xor_si128 (mm_xor_si128 y1 (SIMON128_f_SSE x1)) rk1;
               y2 = mm_xor_si128 (mm_xor_si128 y2 (SIMON128_f_SSE x2)) rk1;
               y3 = mm_xor_si128 (mm_xor_si128 y3 (SIMON128_f_SSE x3)) rk1;
               rk2 = mm_load_si128 (ptr_add subkeys (unat ((i + 1) * 2)));
               x1 = mm_xor_si128 (mm_xor_si128 x1 (SIMON128_f_SSE y1)) rk2;
               x2 = mm_xor_si128 (mm_xor_si128 x2 (SIMON128_f_SSE y2)) rk2;
               x3 = mm_xor_si128 (mm_xor_si128 x3 (SIMON128_f_SSE y3)) rk2
           in SIMON128_Enc_6_Blocks_loop_SSE (i + 2) bound subkeys (x1, y1, x2, y2, x3, y3)))
      else Some s)"

definition SIMON128_Enc_6_Blocks_SSE ::
  "m128i \<Rightarrow> m128i \<Rightarrow> m128i \<Rightarrow> m128i \<Rightarrow> m128i \<Rightarrow> m128i \<Rightarrow> word64_ptr \<Rightarrow> 32 word
     \<Rightarrow> (m128i \<times> m128i \<times> m128i \<times> m128i \<times> m128i \<times> m128i) option" where
  "SIMON128_Enc_6_Blocks_SSE block0 block1 block2 block3 block4 block5 subkeys rounds =
     (let x1 = mm_unpackhi_epi64 block0 block1;
          y1 = mm_unpacklo_epi64 block0 block1;
          x2 = mm_unpackhi_epi64 block2 block3;
          y2 = mm_unpacklo_epi64 block2 block3;
          x3 = mm_unpackhi_epi64 block4 block5;
          y3 = mm_unpacklo_epi64 block4 block5
      in case SIMON128_Enc_6_Blocks_loop_SSE 0 (ucast (rounds AND NOT 1) - 1) subkeys
                (x1, y1, x2, y2, x3, y3) of
           None \<Rightarrow> None
         | Some (x1, y1, x2, y2, x3, y3) \<Rightarrow>
             (let (x1, y1, x2, y2, x3, y3) =
                (if rounds AND 1 \<noteq> 0 then
                   (let rk = mm_load_si128 (ptr_add subkeys (unat ((rounds - 1) * 2)));
                        y1 = mm_xor_si128 (mm_xor_si128 y1 (SIMON128_f_SSE x1)) rk;
                        y2 = mm_xor_si128 (mm_xor_si128 y2 (SIMON128_f_SSE x2)) rk;
                        y3 = mm_xor_si128 (mm_xor_si128 y3 (SIMON128_f_SSE x3)) rk;
                        (x1, y1) = Swap128 (x1, y1);
                        (x2, y2) = Swap128 (x2, y2);
                        (x3, y3) = Swap128 (x3, y3)
                    in (x1, y1, x2, y2, x3, y3))
                 else (x1, y1, x2, y2, x3, y3))
              in Some (mm_unpacklo_epi64 y1 x1, mm_unpackhi_epi64 y1 x1, mm_unpacklo_epi64 y2 x2, mm_unpackhi_epi64 y2 x2,
                       mm_unpacklo_epi64 y3 x3, mm_unpackhi_epi64 y3 x3)))"

function SIMON128_Dec_Block_loop_SSE ::
  "int \<Rightarrow> word64_ptr \<Rightarrow> m128i \<times> m128i \<Rightarrow> m128i \<times> m128i" where
  "SIMON128_Dec_Block_loop_SSE i subkeys (x1, y1) =
     (if i \<ge> 0 then
        (let rk1 = mm_castpd_si128 (mm_loaddup_pd (ptr_add (ptr_add subkeys (nat i)) 1));
             x1 = mm_xor_si128 (mm_xor_si128 x1 (SIMON128_f_SSE y1)) rk1;
             rk2 = mm_castpd_si128 (mm_loaddup_pd (ptr_add subkeys (nat i)));
             y1 = mm_xor_si128 (mm_xor_si128 y1 (SIMON128_f_SSE x1)) rk2
         in SIMON128_Dec_Block_loop_SSE (i - 2) subkeys (x1, y1))
      else (x1, y1))"
  by pat_completeness auto
termination
  by (relation "measure (\<lambda>(i, subkeys, s). nat (i + 2))") auto

declare SIMON128_Dec_Block_loop_SSE.simps [simp del]

definition SIMON128_Dec_Block_SSE ::
  "m128i \<Rightarrow> m128i \<Rightarrow> word64_ptr \<Rightarrow> 32 word \<Rightarrow> m128i \<times> m128i" where
  "SIMON128_Dec_Block_SSE block0 block1 subkeys rounds =
     (let x1 = mm_unpackhi_epi64 block0 block1;
          y1 = mm_unpacklo_epi64 block0 block1;
          (x1, y1, rounds) =
            (if rounds AND 1 \<noteq> 0 then
               (let rk = mm_castpd_si128 (mm_loaddup_pd (ptr_add subkeys (unat rounds - 1)));
                    (x1, y1) = Swap128 (x1, y1);
                    y1 = mm_xor_si128 (mm_xor_si128 y1 rk) (SIMON128_f_SSE x1)
                in (x1, y1, rounds - 1))
             else (x1, y1, rounds));
          (x1, y1) = SIMON128_Dec_Block_loop_SSE (sint (rounds - 2)) subkeys (x1, y1)
      in (mm_unpacklo_epi64 y1 x1, mm_unpackhi_epi64 y1 x1))"

function SIMON128_Dec_6_Blocks_loop_SSE ::
  "int \<Rightarrow> word64_ptr \<Rightarrow> m128i \<times> m128i \<times> m128i \<times> m128i \<times> m128i \<times> m128i
     \<Rightarrow> m128i \<times> m128i \<times> m128i \<times> m128i \<times> m128i \<times> m128i" where
  "SIMON128_Dec_6_Blocks_loop_SSE i subkeys (x1, y1, x2, y2, x3, y3) =
     (if i \<ge> 0 then
        (let rk1 = mm_castpd_si128 (mm_loaddup_pd (ptr_add (ptr_add subkeys (nat i)) 1));
             x1 = mm_xor_si128 (mm_xor_si128 x1 (SIMON128_f_SSE y1)) rk1;
             x2 = mm_xor_si128 (mm_xor_si128 x2 (SIMON128_f_SSE y2)) rk1;
             x3 = mm_xor_si128 (mm_xor_si128 x3 (SIMON128_f_SSE y3)) rk1;
             rk2 = mm_castpd_si128 (mm_loaddup_pd (ptr_add subkeys (nat i)));
             y1 = mm_xor_si128 (mm_xor_si128 y1 (SIMON128_f_SSE x1)) rk2;
             y2 = mm_xor_si128 (mm_xor_si128 y2 (SIMON128_f_SSE x2)) rk2;
             y3 = mm_xor_si128 (mm_xor_si128 y3 (SIMON128_f_SSE x3)) rk2
         in SIMON128_Dec_6_Blocks_loop_SSE (i - 2) subkeys (x1, y1, x2, y2, x3, y3))
      else (x1, y1, x2, y2, x3, y3))"
  by pat_completeness auto
termination
  by (relation "measure (\<lambda>(i, subkeys, s). nat (i + 2))") auto

declare SIMON128_Dec_6_Blocks_loop_SSE.simps [simp del]

definition SIMON128_Dec_6_Blocks_SSE ::
  "m128i \<Rightarrow> m128i \<Rightarrow> m128i \<Rightarrow> m128i \<Rightarrow> m128i \<Rightarrow> m128i \<Rightarrow> word64_ptr \<Rightarrow> 32 word
     \<Rightarrow> m128i \<times> m128i \<times> m128i \<times> m128i \<times> m128i \<times> m128i" where
  "SIMON128_Dec_6_Blocks_SSE block0 block1 block2 block3 block4 block5 subkeys rounds =
     (let x1 = mm_unpackhi_epi64 block0 block1;
          y1 = mm_unpacklo_epi64 block0 block1;
          x2 = mm_unpackhi_epi64 block2 block3;
          y2 = mm_unpacklo_epi64 block2 block3;
          x3 = mm_unpackhi_epi64 block4 block5;
          y3 = mm_unpacklo_epi64 block4 block5;
          (x1, y1, x2, y2, x3, y3, rounds) =
            (if rounds AND 1 \<noteq> 0 then
               (let rk = mm_castpd_si128 (mm_loaddup_pd (ptr_add subkeys (unat rounds - 1)));
                    (x1, y1) = Swap128 (x1, y1);
                    (x2, y2) = Swap128 (x2, y2);
                    (x3, y3) = Swap128 (x3, y3);
                    y1 = mm_xor_si128 (mm_xor_si128 y1 rk) (SIMON128_f_SSE x1);
                    y2 = mm_xor_si128 (mm_xor_si128 y2 rk) (SIMON128_f_SSE x2);
                    y3 = mm_xor_si128 (mm_xor_si128 y3 rk) (SIMON128_f_SSE x3)
                in (x1, y1, x2, y2, x3, y3, rounds - 1))
             else (x1, y1, x2, y2, x3, y3, rounds));
          (x1, y1, x2, y2, x3, y3) =
             SIMON128_Dec_6_Blocks_loop_SSE (sint (rounds - 2)) subkeys (x1, y1, x2, y2, x3, y3)
      in (mm_unpacklo_epi64 y1 x1, mm_unpackhi_epi64 y1 x1, mm_unpacklo_epi64 y2 x2, mm_unpackhi_epi64 y2 x2,
          mm_unpacklo_epi64 y3 x3, mm_unpackhi_epi64 y3 x3))"

subsection \<open>SPECK-128, AltiVec\<close>







subsection \<open>SIMON-128, AltiVec\<close>

definition SIMON128_f_ALTIVEC :: "simon128_t \<Rightarrow> simon128_t" where
  "SIMON128_f_ALTIVEC val = VecXor64 (VecRotateLeft64 2 val)
     (VecAnd64 (VecRotateLeft64 1 val) (VecRotateLeft64 8 val))"

partial_function (option) SIMON128_Enc_Block_loop_ALTIVEC ::
  "64 word \<Rightarrow> 64 word \<Rightarrow> word64_ptr \<Rightarrow> simon128_t \<times> simon128_t
     \<Rightarrow> (simon128_t \<times> simon128_t) option" where
  "SIMON128_Enc_Block_loop_ALTIVEC i bound subkeys s =
     (if i < bound then
        (case s of (x1, y1) \<Rightarrow>
          (let rk1 = VecLoadAligned (ptr_add subkeys (unat (i * 2)));
               rk2 = VecLoadAligned (ptr_add subkeys (unat ((i + 1) * 2)));
               y1 = VecXor64 (VecXor64 y1 (SIMON128_f_ALTIVEC x1)) rk1;
               x1 = VecXor64 (VecXor64 x1 (SIMON128_f_ALTIVEC y1)) rk2
           in SIMON128_Enc_Block_loop_ALTIVEC (i + 2) bound subkeys (x1, y1)))
      else Some s)"

definition SIMON128_Enc_Block_ALTIVEC ::
  "bool \<Rightarrow> uint32x4_p \<Rightarrow> word64_ptr \<Rightarrow> 32 word \<Rightarrow> uint32x4_p option" where
  "SIMON128_Enc_Block_ALTIVEC big_endian block subkeys rounds =
     (let m1 = (if big_endian then [31,30,29,28,27,26,25,24, 15,14,13,12,11,10,9,8]
                else [7,6,5,4,3,2,1,0, 23,22,21,20,19,18,17,16]);
          m2 = (if big_endian then [23,22,21,20,19,18,17,16, 7,6,5,4,3,2,1,0]
                else [15,14,13,12,11,10,9,8, 31,30,29,28,27,26,25,24]);
          x1 = VecPermute big_endian block block m1;
          y1 = VecPermute big_endian block block m2
      in case SIMON128_Enc_Block_loop_ALTIVEC 0 (ucast (rounds AND NOT 1) - 1) subkeys
                (x1, y1) of
           None \<Rightarrow> None
         | Some (x1, y1) \<Rightarrow>
             (let (x1, y1) =
                (if rounds AND 1 \<noteq> 0 then
                   (let rk = VecLoadAligned (ptr_add subkeys (unat ((rounds - 1) * 2)));
                        y1 = VecXor64 (VecXor64 y1 (SIMON128_f_ALTIVEC x1)) rk
                    in swap (x1, y1))
                 else (x1, y1));
                  m3 = (if big_endian then [31,30,29,28,27,26,25,24, 15,14,13,12,11,10,9,8]
                        else [7,6,5,4,3,2,1,0, 23,22,21,20,19,18,17,16])
              in Some (VecPermute big_endian x1 y1 m3)))"




section \<open>The round functions as the specification writes them\<close>

text \<open>
  These definitions follow the words of the specification (sections 4.2 and 4.3), on one
  64-bit lane state \<open>(x, y)\<close>; the kernels above are compared with them.
\<close>

type_synonym lane_state = "64 word \<times> 64 word"

definition speck_enc_round :: "64 word \<Rightarrow> lane_state \<Rightarrow> lane_state" where
  "speck_enc_round k s =
     (let x = (word_rotr 8 (fst s) + snd s) XOR k;
          y = word_rotl 3 (snd s) XOR x
      in (x, y))"

definition speck_dec_round :: "64 word \<Rightarrow> lane_state \<Rightarrow> lane_state" where
  "speck_dec_round k s =
     (let y = word_rotr 3 (snd s XOR fst s);
          x = word_rotl 8 ((fst s XOR k) - y)
      in (x, y))"

text \<open>Rounds \<open>0, 1, ..., n-1\<close> of encryption, and rounds \<open>n-1, ..., 0\<close> of decryption.\<close>

primrec speck_enc :: "(nat \<Rightarrow> 64 word) \<Rightarrow> nat \<Rightarrow> lane_state \<Rightarrow> lane_state" where
  "speck_enc k 0 s = s"
| "speck_enc k (Suc n) s = speck_enc_round (k n) (speck_enc k n s)"

primrec speck_dec :: "(nat \<Rightarrow> 64 word) \<Rightarrow> nat \<Rightarrow> lane_state \<Rightarrow> lane_state" where
  "speck_dec k 0 s = s"
| "speck_dec k (Suc n) s = speck_dec k n (speck_dec_round (k n) s)"

definition simon_f :: "64 word \<Rightarrow> 64 word" where
  "simon_f v = word_rotl 2 v XOR (word_rotl 1 v AND word_rotl 8 v)"

text \<open>
  The two single-round updates of SIMON-128: \<open>y \<leftarrow> y \<oplus> f(x) \<oplus> k\<close> and
  \<open>x \<leftarrow> x \<oplus> f(y) \<oplus> k\<close>.
\<close>

definition simon_update_y :: "64 word \<Rightarrow> lane_state \<Rightarrow> lane_state" where
  "simon_update_y k s = (fst s, snd s XOR simon_f (fst s) XOR k)"

definition simon_update_x :: "64 word \<Rightarrow> lane_state \<Rightarrow> lane_state" where
  "simon_update_x k s = (fst s XOR simon_f (snd s) XOR k, snd s)"

text \<open>
  \<open>m\<close> round-pairs of encryption, with keys \<open>k[0], ..., k[2m-1]\<close>, and \<open>m\<close> round-pairs
  of decryption, from the pair \<open>k[2m-2], k[2m-1]\<close> down to \<open>k[0], k[1]\<close>.
\<close>

primrec simon_pairs :: "(nat \<Rightarrow> 64 word) \<Rightarrow> nat \<Rightarrow> lane_state \<Rightarrow> lane_state" where
  "simon_pairs k 0 s = s"
| "simon_pairs k (Suc m) s =
     simon_update_x (k (2 * m + 1)) (simon_update_y (k (2 * m)) (simon_pairs k m s))"

primrec simon_pairs_back :: "(nat \<Rightarrow> 64 word) \<Rightarrow> nat \<Rightarrow> lane_state \<Rightarrow> lane_state" where
  "simon_pairs_back k 0 s = s"
| "simon_pairs_back k (Suc m) s =
     simon_pairs_back k m (simon_update_y (k (2 * m)) (simon_update_x (k (2 * m + 1)) s))"

definition swap_halves :: "lane_state \<Rightarrow> lane_state" where
  "swap_halves s = (snd s, fst s)"

text \<open>
  Odd-round handling: after the pairs, one final single-round update with the last key
  and a swap of the halves; decryption first swaps, undoes the final round, and then runs
  pairwise.
\<close>

definition simon_enc :: "(nat \<Rightarrow> 64 word) \<Rightarrow> nat \<Rightarrow> lane_state \<Rightarrow> lane_state" where
  "simon_enc k n s =
     (let s = simon_pairs k (n div 2) s
      in if odd n then swap_halves (simon_update_y (k (n - 1)) s) else s)"

definition simon_dec :: "(nat \<Rightarrow> 64 word) \<Rightarrow> nat \<Rightarrow> lane_state \<Rightarrow> lane_state" where
  "simon_dec k n s =
     (let s = (if odd n then simon_update_y (k (n - 1)) (swap_halves s) else s)
      in simon_pairs_back k (n div 2) s)"

text \<open>
  The same encryption counted in single-round updates: round \<open>j\<close> updates \<open>y\<close> when
  \<open>j\<close> is even and \<open>x\<close> when \<open>j\<close> is odd, with key \<open>k[j]\<close>.
\<close>

definition simon_single_round :: "(nat \<Rightarrow> 64 word) \<Rightarrow> nat \<Rightarrow> lane_state \<Rightarrow> lane_state" where
  "simon_single_round k j s =
     (if even j then simon_update_y (k j) s else simon_update_x (k j) s)"

primrec simon_rounds :: "(nat \<Rightarrow> 64 word) \<Rightarrow> nat \<Rightarrow> lane_state \<Rightarrow> lane_state" where
  "simon_rounds k 0 s = s"
| "simon_rounds k (Suc n) s = simon_single_round k n (simon_rounds k n s)"

text \<open>
  Functions on one lane state applied to the two lanes of a transposed pair \<open>(Xv, Yv)\<close>,
  and a function applied to one block (X in the high lane, Y in the low lane).
\<close>

definition lanes2 ::
  "(lane_state \<Rightarrow> lane_state) \<Rightarrow> (lane_state \<Rightarrow> lane_state) \<Rightarrow> vec128 \<times> vec128
     \<Rightarrow> vec128 \<times> vec128" where
  "lanes2 g0 g1 s =
     (let a = g0 (lane0 (fst s), lane0 (snd s));
          b = g1 (lane1 (fst s), lane1 (snd s))
      in (Vec (fst a) (fst b), Vec (snd a) (snd b)))"

definition lanes :: "(lane_state \<Rightarrow> lane_state) \<Rightarrow> vec128 \<times> vec128 \<Rightarrow> vec128 \<times> vec128" where
  "lanes g s = lanes2 g g s"

definition on_block :: "(lane_state \<Rightarrow> lane_state) \<Rightarrow> vec128 \<Rightarrow> vec128" where
  "on_block g b = (let s = g (lane1 b, lane0 b) in Vec (snd s) (fst s))"


text \<open>
  The two layouts of a round-key schedule \<open>k[0..rounds)\<close> in memory (section 3 of the
  specification): the scalar layout stores \<open>k[i]\<close> in word \<open>i\<close>; the pre-splatted layout
  stores \<open>k[i]\<close> in the two adjacent words \<open>2i\<close> and \<open>2i+1\<close>. \<open>lane_keys l K\<close> is what
  lane \<open>l\<close> of the 128-bit loads from \<open>K + i*2\<close> sees.
\<close>

definition scalar_layout :: "(nat \<Rightarrow> 64 word) \<Rightarrow> word64_ptr" where
  "scalar_layout k = (\<lambda>j. k j)"

definition presplatted_layout :: "(nat \<Rightarrow> 64 word) \<Rightarrow> word64_ptr" where
  "presplatted_layout k = (\<lambda>j. k (j div 2))"

definition lane_keys :: "nat \<Rightarrow> word64_ptr \<Rightarrow> nat \<Rightarrow> 64 word" where
  "lane_keys l K i = K (i * 2 + l)"

text \<open>The six-block result that three calls of a two-block kernel give.\<close>

definition six_of_pairs ::
  "(vec128 \<times> vec128) option \<Rightarrow> (vec128 \<times> vec128) option \<Rightarrow> (vec128 \<times> vec128) option
     \<Rightarrow> (vec128 \<times> vec128 \<times> vec128 \<times> vec128 \<times> vec128 \<times> vec128) option" where
  "six_of_pairs p q r =
     (case p of None \<Rightarrow> None | Some (c0, c1) \<Rightarrow>
       (case q of None \<Rightarrow> None | Some (c2, c3) \<Rightarrow>
         (case r of None \<Rightarrow> None | Some (c4, c5) \<Rightarrow> Some (c0, c1, c2, c3, c4, c5))))"

text \<open>A schedule and two blocks to run the kernels on.\<close>

definition example_schedule :: "nat \<Rightarrow> 64 word" where
  "example_schedule i = 0x0706050403020100 + of_nat i"

definition example_block0 :: vec128 where
  "example_block0 = Vec 0x7469206564616d20 0x6c61766975716520"

definition example_block1 :: vec128 where
  "example_block1 = Vec 0x0123456789abcdef 0xfedcba9876543210"

subsection \<open>The SPECK-128/128 key schedule\<close>

text \<open>
  Modelled from the spec: the key schedule is not under src/ (it is in speck.cpp), and the
  specification names the schedule of its test vector only as derived from the key
  \<open>0f0e0d0c0b0a0908 0706050403020100\<close>. This is the SPECK reference key expansion for
  two key words \<open>(l, k)\<close>, which reuses the encryption round with the round index as
  key: \<open>(l[i+1], k[i+1])\<close> is the round with key \<open>i\<close> applied to \<open>(l[i], k[i])\<close>, and
  \<open>k[i]\<close> is round key \<open>i\<close>.
\<close>

fun SPECK128_key_state :: "64 word \<Rightarrow> 64 word \<Rightarrow> nat \<Rightarrow> 64 word \<times> 64 word" where
  "SPECK128_key_state l k 0 = (l, k)"
| "SPECK128_key_state l k (Suc i) = speck_enc_round (of_nat i) (SPECK128_key_state l k i)"

definition SPECK128_round_keys :: "64 word \<Rightarrow> 64 word \<Rightarrow> nat \<Rightarrow> 64 word" where
  "SPECK128_round_keys l k i = snd (SPECK128_key_state l k i)"


section \<open>The advanced block driver\<close>

text \<open>
  Modelled from the spec: the driver templates \<open>AdvancedProcessBlocks128_6x2_SSE\<close>,
  \<open>AdvancedProcessBlocks128_6x2_NEON\<close> and \<open>AdvancedProcessBlocks128_6x1_ALTIVEC\<close>,
  which the exported functions at the end of the source call, are in adv_simd.h and not
  under src/. The model follows section 4.5 of the specification: a stride of \<open>+16\<close>,
  \<open>-16\<close> or 0; a loop over six blocks while \<open>length \<ge> 6 \<times> 16\<close> and \<open>BT_AllowParallel\<close>
  is set; a loop over two blocks while \<open>length \<ge> 2 \<times> 16\<close>; a loop over one block while
  \<open>length \<ge> 16\<close>; the bytes not consumed are returned. Memory is byte-addressable,
  pointers are addresses, and \<open>None\<close> is the null \<open>xor_blocks\<close> pointer. The two kernels
  are parameters, already applied to the round keys and the rounds count.
\<close>

record flags =
  BT_XorInput :: bool
  BT_AllowParallel :: bool
  BT_InBlockIsCounter :: bool
  BT_DontIncrementInOutPointers :: bool
  BT_ReverseDirection :: bool

type_synonym memory = "int \<Rightarrow> 8 word"

record driver_state =
  mem :: memory
  in_blocks :: int
  xor_blocks :: "int option"
  out_blocks :: int

definition load_block :: "memory \<Rightarrow> int \<Rightarrow> vec128" where
  "load_block m p = vec_of_bytes (map (\<lambda>i. m (p + int i)) [0..<16])"

definition store_block :: "memory \<Rightarrow> int \<Rightarrow> vec128 \<Rightarrow> memory" where
  "store_block m p v =
     (\<lambda>a. if p \<le> a \<and> a < p + 16 then bytes_of_vec v ! nat (a - p) else m a)"

definition xor_block :: "vec128 \<Rightarrow> vec128 \<Rightarrow> vec128" where
  "xor_block a b = Vec (lane0 a XOR lane0 b) (lane1 a XOR lane1 b)"

text \<open>
  The counter is big-endian: its low 8 bytes are bytes 8..15 of the block, most
  significant byte first.
\<close>

definition increment_counter :: "vec128 \<Rightarrow> vec128" where
  "increment_counter v = Vec (lane0 v) (byte_swap64 (byte_swap64 (lane1 v) + 1))"

definition stride :: "flags \<Rightarrow> int" where
  "stride fl =
     (if BT_DontIncrementInOutPointers fl then 0
      else if BT_ReverseDirection fl then - 16 else 16)"

definition in_stride :: "flags \<Rightarrow> int" where
  "in_stride fl = (if BT_InBlockIsCounter fl then 0 else stride fl)"

text \<open>
  Reading one input block: load it, XOR the secondary stream into it when
  \<open>BT_XorInput\<close> is set, write the incremented counter back when the input is a counter,
  and advance the pointers.
\<close>

definition fetch_block :: "flags \<Rightarrow> driver_state \<Rightarrow> vec128 \<times> driver_state" where
  "fetch_block fl s =
     (let block = load_block (mem s) (in_blocks s);
          pre = (case xor_blocks s of
                   None \<Rightarrow> block
                 | Some x \<Rightarrow> if BT_XorInput fl then xor_block block (load_block (mem s) x)
                             else block);
          m = (if BT_InBlockIsCounter fl
               then store_block (mem s) (in_blocks s) (increment_counter block)
               else mem s);
          x = (case xor_blocks s of
                 None \<Rightarrow> None
               | Some x \<Rightarrow> if BT_XorInput fl then Some (x + stride fl) else Some x)
      in (pre, s\<lparr>mem := m, in_blocks := in_blocks s + in_stride fl, xor_blocks := x\<rparr>))"

text \<open>
  Writing one output block: XOR the secondary stream into the kernel output when the
  pointer is not null and \<open>BT_XorInput\<close> is clear, store 16 bytes, and advance the
  pointers.
\<close>

definition emit_block :: "flags \<Rightarrow> vec128 \<Rightarrow> driver_state \<Rightarrow> driver_state" where
  "emit_block fl block s =
     (let post = (case xor_blocks s of
                    None \<Rightarrow> block
                  | Some x \<Rightarrow> if BT_XorInput fl then block
                              else xor_block block (load_block (mem s) x));
          x = (case xor_blocks s of
                 None \<Rightarrow> None
               | Some x \<Rightarrow> if BT_XorInput fl then Some x else Some (x + stride fl))
      in s\<lparr>mem := store_block (mem s) (out_blocks s) post,
            out_blocks := out_blocks s + stride fl, xor_blocks := x\<rparr>)"

type_synonym func2 = "vec128 \<Rightarrow> vec128 \<Rightarrow> vec128 \<times> vec128"
type_synonym func6 =
  "vec128 \<Rightarrow> vec128 \<Rightarrow> vec128 \<Rightarrow> vec128 \<Rightarrow> vec128 \<Rightarrow> vec128
     \<Rightarrow> vec128 \<times> vec128 \<times> vec128 \<times> vec128 \<times> vec128 \<times> vec128"

definition six_blocks_step :: "flags \<Rightarrow> func6 \<Rightarrow> driver_state \<Rightarrow> driver_state" where
  "six_blocks_step fl f6 s =
     (let (b0, s) = fetch_block fl s;
          (b1, s) = fetch_block fl s;
          (b2, s) = fetch_block fl s;
          (b3, s) = fetch_block fl s;
          (b4, s) = fetch_block fl s;
          (b5, s) = fetch_block fl s;
          (c0, c1, c2, c3, c4, c5) = f6 b0 b1 b2 b3 b4 b5;
          s = emit_block fl c0 s;
          s = emit_block fl c1 s;
          s = emit_block fl c2 s;
          s = emit_block fl c3 s;
          s = emit_block fl c4 s
      in emit_block fl c5 s)"

definition two_blocks_step :: "flags \<Rightarrow> func2 \<Rightarrow> driver_state \<Rightarrow> driver_state" where
  "two_blocks_step fl f2 s =
     (let (b0, s) = fetch_block fl s;
          (b1, s) = fetch_block fl s;
          (c0, c1) = f2 b0 b1;
          s = emit_block fl c0 s
      in emit_block fl c1 s)"

text \<open>The second slot of the kernel holds an unused (zero) block; only the first is stored.\<close>

definition one_block_step :: "flags \<Rightarrow> func2 \<Rightarrow> driver_state \<Rightarrow> driver_state" where
  "one_block_step fl f2 s =
     (let (b0, s) = fetch_block fl s;
          (c0, c1) = f2 b0 (Vec 0 0)
      in emit_block fl c0 s)"

function six_blocks_loop :: "flags \<Rightarrow> func6 \<Rightarrow> nat \<Rightarrow> driver_state \<Rightarrow> nat \<times> driver_state" where
  "six_blocks_loop fl f6 len s =
     (if len \<ge> 6 * 16 \<and> BT_AllowParallel fl
      then six_blocks_loop fl f6 (len - 96) (six_blocks_step fl f6 s)
      else (len, s))"
  by pat_completeness auto
termination
  by (relation "measure (\<lambda>(fl, f6, len, s). len)") auto

declare six_blocks_loop.simps [simp del]

function two_blocks_loop :: "flags \<Rightarrow> func2 \<Rightarrow> nat \<Rightarrow> driver_state \<Rightarrow> nat \<times> driver_state" where
  "two_blocks_loop fl f2 len s =
     (if len \<ge> 2 * 16
      then two_blocks_loop fl f2 (len - 32) (two_blocks_step fl f2 s)
      else (len, s))"
  by pat_completeness auto
termination
  by (relation "measure (\<lambda>(fl, f2, len, s). len)") auto

declare two_blocks_loop.simps [simp del]

function one_block_loop :: "flags \<Rightarrow> func2 \<Rightarrow> nat \<Rightarrow> driver_state \<Rightarrow> nat \<times> driver_state" where
  "one_block_loop fl f2 len s =
     (if len \<ge> 16
      then one_block_loop fl f2 (len - 16) (one_block_step fl f2 s)
      else (len, s))"
  by pat_completeness auto
termination
  by (relation "measure (\<lambda>(fl, f2, len, s). len)") auto

declare one_block_loop.simps [simp del]

text \<open>
  \<open>advanced_process_blocks\<close>: the result is the number of bytes not consumed, with the
  memory and the pointers as the call leaves them.
\<close>

definition advanced_process_blocks ::
  "func2 \<Rightarrow> func6 \<Rightarrow> flags \<Rightarrow> driver_state \<Rightarrow> nat \<Rightarrow> nat \<times> driver_state" where
  "advanced_process_blocks f2 f6 fl s len =
     (let (len, s) = six_blocks_loop fl f6 len s;
          (len, s) = two_blocks_loop fl f2 len s
      in one_block_loop fl f2 len s)"

text \<open>
  The driver in closed form: with \<open>q\<close> whole blocks in \<open>len\<close> bytes, it runs the six-block
  step \<open>q div 6\<close> times, the two-block step on what is left, and the one-block step at
  most once; without \<open>BT_AllowParallel\<close> the six-block step never runs.
\<close>

definition process_whole_blocks :: "func2 \<Rightarrow> func6 \<Rightarrow> flags \<Rightarrow> nat \<Rightarrow> driver_state \<Rightarrow> driver_state"
  where
  "process_whole_blocks f2 f6 fl q s =
     (if BT_AllowParallel fl
      then (one_block_step fl f2 ^^ (q mod 6 mod 2))
             ((two_blocks_step fl f2 ^^ (q mod 6 div 2))
                ((six_blocks_step fl f6 ^^ (q div 6)) s))
      else (one_block_step fl f2 ^^ (q mod 2)) ((two_blocks_step fl f2 ^^ (q div 2)) s))"

section \<open>Bit-level facts about the byte view\<close>

lemma bit_byte_cons:
  "bit (ucast (b :: 8 word) OR push_bit 8 (w :: 64 word)) n
     = (if n < 8 then bit b n else n < 64 \<and> bit w (n - 8))"
  using bit_imp_le_length [of b n] by (auto simp: bit_simps)

lemma bit_word64_of_bytes:
  "bit (word64_of_bytes bs) n \<longleftrightarrow>
     n < 64 \<and> n div 8 < length bs \<and> bit (bs ! (n div 8)) (n mod 8)"
proof (induction bs arbitrary: n)
  case Nil
  show ?case by (simp add: word64_of_bytes_def)
next
  case (Cons b bs)
  have unf: "word64_of_bytes (b # bs) = ucast b OR push_bit 8 (word64_of_bytes bs)"
    by (simp add: word64_of_bytes_def)
  show ?case
  proof (cases "n < 8")
    case True
    then show ?thesis unfolding unf bit_byte_cons by simp
  next
    case False
    then obtain k where k: "n = k + 8"
      by (metis add.commute le_Suc_ex linorder_not_less)
    have d: "(k + 8) div 8 = Suc (k div 8)" "(k + 8) mod 8 = k mod 8" by simp_all
    show ?thesis unfolding unf bit_byte_cons k d using Cons.IH [of k] by auto
  qed
qed

lemma bit_byte_of:
  "bit (ucast (drop_bit k (w :: 64 word)) :: 8 word) m = (m < 8 \<and> bit w (k + m))"
  by (auto simp: bit_simps)

lemma bit_byte_of0: "bit (ucast (w :: 64 word) :: 8 word) m = (m < 8 \<and> bit w m)"
  by (auto simp: bit_simps)

lemma byte_index_cases:
  assumes "n < (64::nat)"
  obtains m where "m < 8" "n = m" | m where "m < 8" "n = m + 8"
    | m where "m < 8" "n = m + 16" | m where "m < 8" "n = m + 24"
    | m where "m < 8" "n = m + 32" | m where "m < 8" "n = m + 40"
    | m where "m < 8" "n = m + 48" | m where "m < 8" "n = m + 56"
proof -
  consider "n < 8" | "8 \<le> n \<and> n < 16" | "16 \<le> n \<and> n < 24" | "24 \<le> n \<and> n < 32"
    | "32 \<le> n \<and> n < 40" | "40 \<le> n \<and> n < 48" | "48 \<le> n \<and> n < 56" | "56 \<le> n \<and> n < 64"
    using assms by linarith
  then show thesis
  proof cases
    case 1 then show ?thesis using that(1) [of "n"] by simp
  next
    case 2 then show ?thesis using that(2) [of "n - 8"] by simp
  next
    case 3 then show ?thesis using that(3) [of "n - 16"] by simp
  next
    case 4 then show ?thesis using that(4) [of "n - 24"] by simp
  next
    case 5 then show ?thesis using that(5) [of "n - 32"] by simp
  next
    case 6 then show ?thesis using that(6) [of "n - 40"] by simp
  next
    case 7 then show ?thesis using that(7) [of "n - 48"] by simp
  next
    case 8 then show ?thesis using that(8) [of "n - 56"] by simp
  qed
qed

lemma bit_w64_at:
  "m < 8 \<Longrightarrow> bit (word64_of_bytes bs) (8 * i + m) \<longleftrightarrow>
     i < 8 \<and> i < length bs \<and> bit (bs ! i) m"
  by (auto simp: bit_word64_of_bytes)

lemma bit_w64_lane:
  assumes "m < 8"
  shows "bit (word64_of_bytes bs) m \<longleftrightarrow> 0 < length bs \<and> bit (bs ! 0) m"
    and "bit (word64_of_bytes bs) (m + 8) \<longleftrightarrow> 1 < length bs \<and> bit (bs ! 1) m"
    and "bit (word64_of_bytes bs) (m + 16) \<longleftrightarrow> 2 < length bs \<and> bit (bs ! 2) m"
    and "bit (word64_of_bytes bs) (m + 24) \<longleftrightarrow> 3 < length bs \<and> bit (bs ! 3) m"
    and "bit (word64_of_bytes bs) (m + 32) \<longleftrightarrow> 4 < length bs \<and> bit (bs ! 4) m"
    and "bit (word64_of_bytes bs) (m + 40) \<longleftrightarrow> 5 < length bs \<and> bit (bs ! 5) m"
    and "bit (word64_of_bytes bs) (m + 48) \<longleftrightarrow> 6 < length bs \<and> bit (bs ! 6) m"
    and "bit (word64_of_bytes bs) (m + 56) \<longleftrightarrow> 7 < length bs \<and> bit (bs ! 7) m"
  using assms bit_w64_at [of m bs 0] bit_w64_at [of m bs 1] bit_w64_at [of m bs 2]
    bit_w64_at [of m bs 3] bit_w64_at [of m bs 4] bit_w64_at [of m bs 5]
    bit_w64_at [of m bs 6] bit_w64_at [of m bs 7]
  by (simp_all add: add.commute)

lemma bit_rotl8:
  "n < 64 \<Longrightarrow> bit (word_rotl 8 (w :: 64 word)) n = bit w (if n < 8 then n + 56 else n - 8)"
  by (simp add: bit_word_rotl_iff mod_if)

lemma bit_rotr8:
  "n < 64 \<Longrightarrow> bit (word_rotr 8 (w :: 64 word)) n = bit w (if n < 56 then n + 8 else n - 56)"
  by (simp add: bit_word_rotr_iff mod_if)

lemma word64_of_bytes_rotl8:
  "word64_of_bytes [ucast (drop_bit 56 w), ucast w, ucast (drop_bit 8 w),
     ucast (drop_bit 16 w), ucast (drop_bit 24 w), ucast (drop_bit 32 w),
     ucast (drop_bit 40 w), ucast (drop_bit 48 w)]
   = word_rotl 8 (w :: 64 word)"
proof (rule bit_eqI)
  fix n assume "possible_bit TYPE(64 word) n"
  then have n: "n < 64" by (simp add: possible_bit_def)
  from n show "bit (word64_of_bytes [ucast (drop_bit 56 w), ucast w, ucast (drop_bit 8 w),
     ucast (drop_bit 16 w), ucast (drop_bit 24 w), ucast (drop_bit 32 w),
     ucast (drop_bit 40 w), ucast (drop_bit 48 w)]) n
     = bit (word_rotl 8 w) n"
    by (cases n rule: byte_index_cases)
       (simp_all add: bit_w64_lane bit_byte_of bit_byte_of0 bit_rotl8 bit_drop_bit_eq
          add.commute)
qed

lemma word64_of_bytes_rotr8:
  "word64_of_bytes [ucast (drop_bit 8 w), ucast (drop_bit 16 w), ucast (drop_bit 24 w),
     ucast (drop_bit 32 w), ucast (drop_bit 40 w), ucast (drop_bit 48 w),
     ucast (drop_bit 56 w), ucast w]
   = word_rotr 8 (w :: 64 word)"
proof (rule bit_eqI)
  fix n assume "possible_bit TYPE(64 word) n"
  then have n: "n < 64" by (simp add: possible_bit_def)
  from n show "bit (word64_of_bytes [ucast (drop_bit 8 w), ucast (drop_bit 16 w),
     ucast (drop_bit 24 w), ucast (drop_bit 32 w), ucast (drop_bit 40 w),
     ucast (drop_bit 48 w), ucast (drop_bit 56 w), ucast w]) n
     = bit (word_rotr 8 w) n"
    by (cases n rule: byte_index_cases)
       (simp_all add: bit_w64_lane bit_byte_of bit_byte_of0 bit_rotr8 bit_drop_bit_eq
          add.commute)
qed

lemma bit64_out: "64 \<le> m \<Longrightarrow> \<not> bit (w :: 64 word) m"
  using bit_imp_le_length [of w m] by auto

lemma rotl_generic:
  assumes r: "0 < r" "r < 64"
  shows "push_bit r w OR drop_bit (64 - r) w = word_rotl r (w :: 64 word)"
proof (rule bit_eqI)
  fix n assume "possible_bit TYPE(64 word) n"
  then have n64: "n < 64" by (simp add: possible_bit_def)
  show "bit (push_bit r w OR drop_bit (64 - r) w) n = bit (word_rotl r w) n"
  proof (cases "r \<le> n")
    case True
    then have "(n + (64 - r)) mod 64 = n - r" using r n64
      by (simp add: mod_if)
    moreover have "\<not> bit w (64 - r + n)" using True r by (intro bit64_out) simp
    ultimately show ?thesis using r n64 True by (simp add: bit_simps bit_word_rotl_iff)
  next
    case False
    then have "(n + (64 - r)) mod 64 = 64 - r + n" using r n64 by simp
    then show ?thesis using r n64 False by (simp add: bit_simps bit_word_rotl_iff)
  qed
qed

lemma rotr_generic:
  assumes r: "0 < r" "r < 64"
  shows "push_bit (64 - r) w OR drop_bit r w = word_rotr r (w :: 64 word)"
proof (rule bit_eqI)
  fix n assume "possible_bit TYPE(64 word) n"
  then have n64: "n < 64" by (simp add: possible_bit_def)
  show "bit (push_bit (64 - r) w OR drop_bit r w) n = bit (word_rotr r w) n"
  proof (cases "64 - r \<le> n")
    case True
    then have "(n + r) mod 64 = n - (64 - r)" using r n64
      by (simp add: mod_if)
    moreover have "\<not> bit w (r + n)" using True r by (intro bit64_out) simp
    ultimately show ?thesis using r n64 True by (simp add: bit_simps bit_word_rotr_iff)
  next
    case False
    then have "(n + r) mod 64 = r + n" using r n64 by simp
    then show ?thesis using r n64 False
      by (simp add: bit_simps bit_word_rotr_iff add.commute)
  qed
qed

section \<open>The rotate primitives, lane by lane\<close>

lemma RotateLeft64_SSE_lanes:
  "0 < R \<Longrightarrow> R < 64 \<Longrightarrow>
   RotateLeft64_SSE R v = Vec (word_rotl R (lane0 v)) (word_rotl R (lane1 v))"
  by (simp add: RotateLeft64_SSE_def mm_or_si128_def mm_slli_epi64_def mm_srli_epi64_def
      rotl_generic)

lemma RotateRight64_SSE_lanes:
  "0 < R \<Longrightarrow> R < 64 \<Longrightarrow>
   RotateRight64_SSE R v = Vec (word_rotr R (lane0 v)) (word_rotr R (lane1 v))"
  by (simp add: RotateRight64_SSE_def mm_or_si128_def mm_slli_epi64_def mm_srli_epi64_def
      rotr_generic)

lemma RotateLeft64_NEON_lanes:
  "0 < R \<Longrightarrow> R < 64 \<Longrightarrow>
   RotateLeft64_NEON R v = Vec (word_rotl R (lane0 v)) (word_rotl R (lane1 v))"
  by (simp add: RotateLeft64_NEON_def vorrq_u64_def vshlq_n_u64_def vshrq_n_u64_def
      rotl_generic)

lemma RotateRight64_NEON_lanes:
  "0 < R \<Longrightarrow> R < 64 \<Longrightarrow>
   RotateRight64_NEON R v = Vec (word_rotr R (lane0 v)) (word_rotr R (lane1 v))"
  by (simp add: RotateRight64_NEON_def vorrq_u64_def vshlq_n_u64_def vshrq_n_u64_def
      rotr_generic)

lemma mask_left_SSE:
  "bytes_of_vec (mm_set_epi8 14 13 12 11 10 9 8 15 6 5 4 3 2 1 0 7)
     = [7, 0, 1, 2, 3, 4, 5, 6, 15, 8, 9, 10, 11, 12, 13, 14]"
  by (simp add: mm_set_epi8_def vec_of_bytes_def bytes_of_vec_def word64_of_bytes_def
      bytes_of_word64_def upt_rec)

lemma mask_right_SSE:
  "bytes_of_vec (mm_set_epi8 8 15 14 13 12 11 10 9 0 7 6 5 4 3 2 1)
     = [1, 2, 3, 4, 5, 6, 7, 0, 9, 10, 11, 12, 13, 14, 15, 8]"
  by (simp add: mm_set_epi8_def vec_of_bytes_def bytes_of_vec_def word64_of_bytes_def
      bytes_of_word64_def upt_rec)

lemma RotateLeft64_8_SSE_lanes:
  "RotateLeft64_8_SSE v = Vec (word_rotl 8 (lane0 v)) (word_rotl 8 (lane1 v))"
  unfolding RotateLeft64_8_SSE_def Let_def mm_shuffle_epi8_def mask_left_SSE
  by (simp add: bytes_of_vec_def bytes_of_word64_def upt_rec vec_of_bytes_def
      word64_of_bytes_rotl8)

lemma RotateRight64_8_SSE_lanes:
  "RotateRight64_8_SSE v = Vec (word_rotr 8 (lane0 v)) (word_rotr 8 (lane1 v))"
  unfolding RotateRight64_8_SSE_def Let_def mm_shuffle_epi8_def mask_right_SSE
  by (simp add: bytes_of_vec_def bytes_of_word64_def upt_rec vec_of_bytes_def
      word64_of_bytes_rotr8)

lemma RotateLeft64_8_NEON_lanes:
  "RotateLeft64_8_NEON v = Vec (word_rotl 8 (lane0 v)) (word_rotl 8 (lane1 v))"
  unfolding RotateLeft64_8_NEON_def Let_def vld1q_u8_def vqtbl1q_u8_def
    vreinterpretq_u8_u64_def vreinterpretq_u64_u8_def
  by (simp add: bytes_of_vec_def bytes_of_word64_def upt_rec vec_of_bytes_def
      word64_of_bytes_rotl8)

lemma RotateRight64_8_NEON_lanes:
  "RotateRight64_8_NEON v = Vec (word_rotr 8 (lane0 v)) (word_rotr 8 (lane1 v))"
  unfolding RotateRight64_8_NEON_def Let_def vld1q_u8_def vqtbl1q_u8_def
    vreinterpretq_u8_u64_def vreinterpretq_u64_u8_def
  by (simp add: bytes_of_vec_def bytes_of_word64_def upt_rec vec_of_bytes_def
      word64_of_bytes_rotr8)

section \<open>Word arithmetic of the loop bounds and indices\<close>

lemma unat_lt_32: "unat (r :: 32 word) < 2 ^ 32"
  using unsigned_less [of r, where 'a = nat] by simp

lemma sint_sub_32:
  fixes r c :: "32 word"
  assumes "unat c \<le> unat r" "unat r - unat c < 2 ^ 31"
  shows "sint (r - c) = int (unat r) - int (unat c)"
proof -
  have le: "c \<le> r" using assms(1) by (simp add: word_le_nat_alt)
  have u: "unat (r - c) = unat r - unat c" using le by (rule unat_sub)
  have "sint (r - c) = signed_take_bit 31 (int (unat (r - c)))"
    by (simp add: sint_uint)
  also have "\<dots> = int (unat (r - c))"
    using assms(2) u by (intro signed_take_bit_int_eq_self) simp_all
  finally show ?thesis using u assms(1) by simp
qed

lemma sint_pred_32:
  fixes r :: "32 word"
  assumes "unat r \<le> 2 ^ 31"
  shows "sint (r - 1) = int (unat r) - 1"
proof (cases "r = 0")
  case True
  then show ?thesis by simp
next
  case False
  then have "1 \<le> unat r" by (simp add: unat_gt_0 Suc_leI)
  then show ?thesis using assms sint_sub_32 [of 1 r] by simp
qed

lemma sint_sub2:
  assumes "even (unat (r :: 32 word))" "unat r \<le> 2 ^ 31"
  shows "sint (r - 2) = int (unat r) - 2"
proof (cases "r = 0")
  case True
  then show ?thesis by simp
next
  case False
  then have "unat r \<noteq> 0" by (simp add: unat_0_iff)
  then have "2 \<le> unat r" using assms(1) by (cases "unat r = 1") auto
  then show ?thesis using assms(2) sint_sub_32 [of 2 r] by simp
qed

lemma and_not1_eq: "(r :: 32 word) AND NOT 1 = 2 * (r div 2)"
proof -
  have "r AND NOT 1 = unset_bit 0 r" by (simp add: unset_bit_eq_and_not)
  then show ?thesis by (simp only: unset_bit_0)
qed

lemma and_not1_unat: "unat ((r :: 32 word) AND NOT 1) = 2 * (unat r div 2)"
proof -
  have lt: "unat (2 :: 32 word) * unat (r div 2) < 2 ^ LENGTH(32)"
    using unat_lt_32 [of r] by (simp add: unat_div)
  have "unat (2 * (r div 2)) = unat (2 :: 32 word) * unat (r div 2)"
    using lt by (rule unat_mult_lem [THEN iffD1])
  then show ?thesis by (simp only: and_not1_eq) (simp add: unat_div)
qed

lemma and1_odd: "((r :: 32 word) AND 1 \<noteq> 0) = odd (unat r)"
  by (metis (no_types, lifting) and_one_eq even_iff_mod_2_eq_zero
    odd_iff_mod_2_eq_one unsigned_0 unsigned_1 unsigned_and_eq)

lemma bound_unat:
  assumes "2 \<le> unat (r :: 32 word)"
  shows "unat (ucast (r AND NOT 1) - 1 :: 64 word) + 1 = 2 * (unat r div 2)"
proof -
  have "unat (ucast (r AND NOT 1) :: 64 word) = take_bit 64 (unat (r AND NOT 1))"
    by (simp add: unsigned_ucast_eq)
  also have "\<dots> = unat (r AND NOT 1)"
    using unat_lt_32 [of "r AND NOT 1"] by (intro take_bit_nat_eq_self) simp
  finally have u: "unat (ucast (r AND NOT 1) :: 64 word) = 2 * (unat r div 2)"
    by (simp only: and_not1_unat)
  have pos: "0 < unat r div 2" using assms by simp
  then have "unat (ucast (r AND NOT 1) :: 64 word) \<noteq> 0" unfolding u by simp
  then have "ucast (r AND NOT 1) \<noteq> (0 :: 64 word)"
    by (simp only: unat_0_iff not_False_eq_True)
  then have "unat (ucast (r AND NOT 1) - 1 :: 64 word)
      = unat (ucast (r AND NOT 1) :: 64 word) - 1"
    by (rule unat_minus_one)
  then show ?thesis using pos unfolding u by simp
qed

lemma bound_wrap:
  assumes "unat (r :: 32 word) < 2"
  shows "(ucast (r AND NOT 1) - 1 :: 64 word) = - 1"
proof -
  have "unat (r AND NOT 1) = 2 * (unat r div 2)" by (rule and_not1_unat)
  then have "unat (r AND NOT 1) = 0" using assms by simp
  then have "r AND NOT 1 = 0" by (simp only: unat_0_iff)
  then show ?thesis by (simp only: ucast_0) simp
qed

lemma tail_idx:
  assumes "1 \<le> unat (r :: 32 word)" "unat r \<le> 2 ^ 31"
  shows "unat ((r - 1) * 2) = 2 * (unat r - 1)"
proof -
  have "r \<noteq> 0" using assms(1) by auto
  then have p: "unat (r - 1) = unat r - 1" by (rule unat_minus_one)
  have "unat (r - 1) * unat (2 :: 32 word) < 2 ^ LENGTH(32)"
    using assms unfolding p by simp
  then have "unat ((r - 1) * 2) = unat (r - 1) * unat (2 :: 32 word)"
    by (rule unat_mult_lem [THEN iffD1])
  then show ?thesis unfolding p by simp
qed

lemma unat_pred_odd:
  assumes "odd (unat (r :: 32 word))"
  shows "unat (r - 1) = unat r - 1" "even (unat (r - 1))"
proof -
  have "r \<noteq> 0" using assms by auto
  then show "unat (r - 1) = unat r - 1" by (rule unat_minus_one)
  then show "even (unat (r - 1))" using assms by simp
qed

lemma even_max: "even (i :: 64 word) \<Longrightarrow> i < - 1"
  using dvd_minus_iff odd_one word_order.not_eq_extremum by blast

lemma unat_index_facts:
  fixes i :: "64 word"
  assumes "unat i = 2 * j" "j < 2 ^ 32"
  shows "unat (i * 2) = 4 * j" "unat ((i + 1) * 2) = 4 * j + 2" "unat (i + 2) = 2 * j + 2"
    "unat (i * 2 + 2) = 4 * j + 2"
  using assms by (simp_all add: unat_word_ariths)

section \<open>Lane-wise reading of the kernels\<close>

lemmas sse_defs = mm_unpackhi_epi64_def mm_unpacklo_epi64_def mm_add_epi64_def
  mm_sub_epi64_def mm_xor_si128_def mm_or_si128_def mm_and_si128_def mm_load_si128_def
  mm_loaddup_pd_def mm_castpd_si128_def ptr_add_def

lemmas neon_defs = UnpackHigh64_def UnpackLow64_def vget_high_u64_def vget_low_u64_def
  vcombine_u64_def vorrq_u64_def veorq_u64_def vandq_u64_def vaddq_u64_def vsubq_u64_def
  vld1q_dup_u64_def ptr_add_def

lemma lane_keys_presplatted:
  "lane_keys 0 (presplatted_layout k) = k" "lane_keys 1 (presplatted_layout k) = k"
  "lane_keys (Suc 0) (presplatted_layout k) = k"
  by (rule ext, simp add: lane_keys_def presplatted_layout_def)+

lemma scalar_layout_eq: "scalar_layout k = k"
  by (simp add: scalar_layout_def)

lemma speck_dec_enc_round: "speck_dec_round k (speck_enc_round k s) = s"
  by (simp add: speck_dec_round_def speck_enc_round_def Let_def xor.assoc)

lemma speck_dec_enc: "speck_dec k n (speck_enc k n s) = s"
  by (induction n arbitrary: s) (simp_all add: speck_dec_enc_round)

lemma simon_update_y_involution: "simon_update_y k (simon_update_y k s) = s"
  by (simp add: simon_update_y_def xor.assoc xor.commute xor.left_commute)

lemma simon_update_x_involution: "simon_update_x k (simon_update_x k s) = s"
  by (simp add: simon_update_x_def xor.assoc xor.commute xor.left_commute)

lemma simon_pairs_back_pairs: "simon_pairs_back k m (simon_pairs k m s) = s"
  by (induction m arbitrary: s)
    (simp_all add: simon_update_x_involution simon_update_y_involution)

lemma swap_halves_involution: "swap_halves (swap_halves s) = s"
  by (simp add: swap_halves_def)

lemma simon_dec_enc: "simon_dec k n (simon_enc k n s) = s"
  by (simp add: simon_dec_def simon_enc_def Let_def swap_halves_involution
      simon_update_y_involution simon_pairs_back_pairs)

lemma simon_pairs_rounds: "simon_pairs k m s = simon_rounds k (2 * m) s"
  by (induction m) (simp_all add: simon_single_round_def)

lemma simon_enc_rounds:
  "simon_enc k n s = (if odd n then swap_halves (simon_rounds k n s) else simon_rounds k n s)"
proof (cases "odd n")
  case True
  then obtain m where n: "n = Suc (2 * m)" by (auto elim: oddE)
  show ?thesis
    by (simp add: n simon_enc_def Let_def simon_pairs_rounds simon_single_round_def)
next
  case False
  then obtain m where n: "n = 2 * m" by (auto elim: evenE)
  show ?thesis by (simp add: n simon_enc_def Let_def simon_pairs_rounds)
qed

lemma on_block_on_block: "on_block g (on_block h b) = on_block (\<lambda>t. g (h t)) b"
  by (simp add: on_block_def Let_def)

lemma on_block_id: "on_block (\<lambda>t. t) b = b"
  by (simp add: on_block_def Let_def)


subsection \<open>SPECK-128 kernels, SSE\<close>

lemma SPECK128_Enc_Block_loop_SSE_step:
  "i < n \<Longrightarrow> SPECK128_Enc_Block_loop_SSE i n K s =
     SPECK128_Enc_Block_loop_SSE (i + 1) n K
       (lanes2 (speck_enc_round ((lane_keys 0 K) i)) (speck_enc_round ((lane_keys 1 K) i)) s)"
  by (cases s) (simp add: SPECK128_Enc_Block_loop_SSE.simps [of i] Let_def lanes2_def
      speck_enc_round_def sse_defs lane_keys_def RotateRight64_8_SSE_lanes RotateLeft64_SSE_lanes)

lemma SPECK128_Enc_Block_loop_SSE_ref:
  "i \<le> n \<Longrightarrow>
   SPECK128_Enc_Block_loop_SSE i n K (lanes2 (speck_enc (lane_keys 0 K) i) (speck_enc (lane_keys 1 K) i) s) =
     lanes2 (speck_enc (lane_keys 0 K) n) (speck_enc (lane_keys 1 K) n) s"
proof (induction "n - i" arbitrary: i)
  case 0
  then show ?case
    by (cases "lanes2 (speck_enc (lane_keys 0 K) i) (speck_enc (lane_keys 1 K) i) s")
      (simp add: SPECK128_Enc_Block_loop_SSE.simps [of i])
next
  case (Suc d)
  then have lt: "i < n" by simp
  have e: "lanes2 (speck_enc_round ((lane_keys 0 K) i)) (speck_enc_round ((lane_keys 1 K) i))
      (lanes2 (speck_enc (lane_keys 0 K) i) (speck_enc (lane_keys 1 K) i) s)
      = lanes2 (speck_enc (lane_keys 0 K) (i + 1)) (speck_enc (lane_keys 1 K) (i + 1)) s"
    by (simp add: lanes2_def Let_def)
  have "SPECK128_Enc_Block_loop_SSE (i + 1) n K
      (lanes2 (speck_enc (lane_keys 0 K) (i + 1)) (speck_enc (lane_keys 1 K) (i + 1)) s)
     = lanes2 (speck_enc (lane_keys 0 K) n) (speck_enc (lane_keys 1 K) n) s"
    using Suc.hyps(2) lt by (intro Suc.hyps(1)) simp_all
  then show ?case
    by (simp only: SPECK128_Enc_Block_loop_SSE_step [OF lt] e)
qed

lemma SPECK128_Enc_Block_SSE_ref:
  "SPECK128_Enc_Block_SSE block0 block1 K rounds =
     (on_block (speck_enc (lane_keys 0 K) (unat rounds)) block0,
      on_block (speck_enc (lane_keys 1 K) (unat rounds)) block1)"
proof -
  let ?s = "(mm_unpackhi_epi64 block0 block1, mm_unpacklo_epi64 block0 block1)"
  have "SPECK128_Enc_Block_loop_SSE 0 (unat rounds) K
      (lanes2 (speck_enc (lane_keys 0 K) 0) (speck_enc (lane_keys 1 K) 0) ?s)
    = lanes2 (speck_enc (lane_keys 0 K) (unat rounds)) (speck_enc (lane_keys 1 K) (unat rounds)) ?s"
    by (rule SPECK128_Enc_Block_loop_SSE_ref) simp
  then have "SPECK128_Enc_Block_loop_SSE 0 (unat rounds) K ?s
    = lanes2 (speck_enc (lane_keys 0 K) (unat rounds)) (speck_enc (lane_keys 1 K) (unat rounds)) ?s"
    by (simp add: lanes2_def)
  then show ?thesis
    unfolding SPECK128_Enc_Block_SSE_def Let_def
    by (simp add: Let_def lanes2_def on_block_def sse_defs)
qed

lemma SPECK128_Dec_Block_loop_SSE_step:
  "SPECK128_Dec_Block_loop_SSE (int j) K s =
     SPECK128_Dec_Block_loop_SSE (int j - 1) K (lanes (speck_dec_round (K j)) s)"
  by (cases s) (simp add: SPECK128_Dec_Block_loop_SSE.simps [of "int j"] Let_def lanes_def
      lanes2_def speck_dec_round_def sse_defs RotateLeft64_8_SSE_lanes RotateRight64_SSE_lanes)

lemma SPECK128_Dec_Block_loop_SSE_ref:
  "SPECK128_Dec_Block_loop_SSE (int n - 1) K s = lanes (speck_dec K n) s"
proof (induction n arbitrary: s)
  case 0
  show ?case
    by (cases s)
      (simp add: SPECK128_Dec_Block_loop_SSE.simps [of "- 1"] lanes_def lanes2_def)
next
  case (Suc n)
  have "SPECK128_Dec_Block_loop_SSE (int (Suc n) - 1) K s =
      SPECK128_Dec_Block_loop_SSE (int n) K s"
    by simp
  also have "\<dots> = SPECK128_Dec_Block_loop_SSE (int n - 1) K
      (lanes (speck_dec_round (K n)) s)"
    by (rule SPECK128_Dec_Block_loop_SSE_step)
  also have "\<dots> = lanes (speck_dec K n) (lanes (speck_dec_round (K n)) s)"
    by (rule Suc.IH)
  also have "\<dots> = lanes (speck_dec K (Suc n)) s"
    by (simp add: lanes_def lanes2_def Let_def)
  finally show ?case .
qed

lemma SPECK128_Dec_Block_SSE_ref:
  assumes "unat rounds \<le> 2 ^ 31"
  shows "SPECK128_Dec_Block_SSE block0 block1 K rounds =
     (on_block (speck_dec K (unat rounds)) block0, on_block (speck_dec K (unat rounds)) block1)"
proof -
  let ?s = "(mm_unpackhi_epi64 block0 block1, mm_unpacklo_epi64 block0 block1)"
  have i: "sint (rounds - 1) = int (unat rounds) - 1" using assms by (rule sint_pred_32)
  have "SPECK128_Dec_Block_loop_SSE (sint (rounds - 1)) K ?s
    = lanes (speck_dec K (unat rounds)) ?s"
    unfolding i by (rule SPECK128_Dec_Block_loop_SSE_ref)
  then show ?thesis
    unfolding SPECK128_Dec_Block_SSE_def Let_def
    by (simp add: Let_def lanes_def lanes2_def on_block_def sse_defs)
qed

lemma SPECK128_Enc_6_Blocks_loop_SSE_pairs:
  "SPECK128_Enc_6_Blocks_loop_SSE i n K (x1, y1, x2, y2, x3, y3) =
     (case SPECK128_Enc_Block_loop_SSE i n K (x1, y1) of (a, b) \<Rightarrow>
      case SPECK128_Enc_Block_loop_SSE i n K (x2, y2) of (c, d) \<Rightarrow>
      case SPECK128_Enc_Block_loop_SSE i n K (x3, y3) of (e, f) \<Rightarrow> (a, b, c, d, e, f))"
proof (induction "n - i" arbitrary: i x1 y1 x2 y2 x3 y3)
  case 0
  then show ?case
    by (simp add: SPECK128_Enc_6_Blocks_loop_SSE.simps [of i]
        SPECK128_Enc_Block_loop_SSE.simps [of i])
next
  case (Suc d)
  then have lt: "i < n" and d: "d = n - Suc i" by simp_all
  show ?case
    by (subst SPECK128_Enc_6_Blocks_loop_SSE.simps,
        subst (1 2 3) SPECK128_Enc_Block_loop_SSE.simps)
       (simp add: lt Let_def Suc.hyps(1) [OF d])
qed

lemma SPECK128_Dec_6_Blocks_loop_SSE_pairs:
  "SPECK128_Dec_6_Blocks_loop_SSE i K (x1, y1, x2, y2, x3, y3) =
     (case SPECK128_Dec_Block_loop_SSE i K (x1, y1) of (a, b) \<Rightarrow>
      case SPECK128_Dec_Block_loop_SSE i K (x2, y2) of (c, d) \<Rightarrow>
      case SPECK128_Dec_Block_loop_SSE i K (x3, y3) of (e, f) \<Rightarrow> (a, b, c, d, e, f))"
proof (induction "nat (i + 1)" arbitrary: i x1 y1 x2 y2 x3 y3)
  case 0
  then show ?case
    by (simp add: SPECK128_Dec_6_Blocks_loop_SSE.simps [of i]
        SPECK128_Dec_Block_loop_SSE.simps [of i])
next
  case (Suc d)
  then have ge: "0 \<le> i" and d: "d = nat (i - 1 + 1)" by simp_all
  show ?case
    by (subst SPECK128_Dec_6_Blocks_loop_SSE.simps,
        subst (1 2 3) SPECK128_Dec_Block_loop_SSE.simps)
       (simp add: ge Let_def Suc.hyps(1) [OF d])
qed

lemma SPECK128_Enc_6_Blocks_SSE_pairs:
  "SPECK128_Enc_6_Blocks_SSE b0 b1 b2 b3 b4 b5 K r =
    (case SPECK128_Enc_Block_SSE b0 b1 K r of (c0, c1) \<Rightarrow>
     case SPECK128_Enc_Block_SSE b2 b3 K r of (c2, c3) \<Rightarrow>
     case SPECK128_Enc_Block_SSE b4 b5 K r of (c4, c5) \<Rightarrow> (c0, c1, c2, c3, c4, c5))"
  by (simp add: SPECK128_Enc_6_Blocks_SSE_def SPECK128_Enc_Block_SSE_def Let_def
      SPECK128_Enc_6_Blocks_loop_SSE_pairs split: prod.splits)

lemma SPECK128_Dec_6_Blocks_SSE_pairs:
  "SPECK128_Dec_6_Blocks_SSE b0 b1 b2 b3 b4 b5 K r =
    (case SPECK128_Dec_Block_SSE b0 b1 K r of (c0, c1) \<Rightarrow>
     case SPECK128_Dec_Block_SSE b2 b3 K r of (c2, c3) \<Rightarrow>
     case SPECK128_Dec_Block_SSE b4 b5 K r of (c4, c5) \<Rightarrow> (c0, c1, c2, c3, c4, c5))"
  by (simp add: SPECK128_Dec_6_Blocks_SSE_def SPECK128_Dec_Block_SSE_def Let_def
      SPECK128_Dec_6_Blocks_loop_SSE_pairs split: prod.splits)

subsection \<open>SIMON-128 kernels, SSE\<close>

lemma SIMON128_f_SSE_lanes:
  "SIMON128_f_SSE v = Vec (simon_f (lane0 v)) (simon_f (lane1 v))"
  by (simp add: SIMON128_f_SSE_def simon_f_def sse_defs RotateLeft64_SSE_lanes
      RotateLeft64_8_SSE_lanes)

lemma SIMON128_Enc_Block_loop_SSE_step:
  assumes "i < bound" "unat i = 2 * j" "j < 2 ^ 32"
  shows "SIMON128_Enc_Block_loop_SSE i bound K s =
     SIMON128_Enc_Block_loop_SSE (i + 2) bound K
       (lanes2 (\<lambda>t. simon_update_x ((lane_keys 0 K) (2 * j + 1)) (simon_update_y ((lane_keys 0 K) (2 * j)) t))
               (\<lambda>t. simon_update_x ((lane_keys 1 K) (2 * j + 1)) (simon_update_y ((lane_keys 1 K) (2 * j)) t)) s)"
  by (subst SIMON128_Enc_Block_loop_SSE.simps, cases s)
    (simp add: assms(1) unat_index_facts [OF assms(2,3)] assms(2) Let_def lanes2_def
      simon_update_x_def simon_update_y_def sse_defs lane_keys_def SIMON128_f_SSE_lanes xor.assoc
      mult.commute)

lemma SIMON128_Enc_Block_loop_SSE_ref:
  assumes "unat i = 2 * j" "unat bound + 1 = 2 * m" "j \<le> m" "m < 2 ^ 32"
  shows "SIMON128_Enc_Block_loop_SSE i bound K
      (lanes2 (simon_pairs (lane_keys 0 K) j) (simon_pairs (lane_keys 1 K) j) s)
     = Some (lanes2 (simon_pairs (lane_keys 0 K) m) (simon_pairs (lane_keys 1 K) m) s)"
  using assms
proof (induction "m - j" arbitrary: i j)
  case 0
  then have "\<not> i < bound" by (simp add: word_less_nat_alt)
  moreover have "j = m" using 0 by simp
  ultimately show ?case by (subst SIMON128_Enc_Block_loop_SSE.simps) simp
next
  case (Suc d)
  then have lt: "i < bound" by (simp add: word_less_nat_alt)
  have j: "j < 2 ^ 32" using Suc.prems by simp
  have e: "lanes2 (\<lambda>t. simon_update_x ((lane_keys 0 K) (2 * j + 1)) (simon_update_y ((lane_keys 0 K) (2 * j)) t))
               (\<lambda>t. simon_update_x ((lane_keys 1 K) (2 * j + 1)) (simon_update_y ((lane_keys 1 K) (2 * j)) t))
        (lanes2 (simon_pairs (lane_keys 0 K) j) (simon_pairs (lane_keys 1 K) j) s)
     = lanes2 (simon_pairs (lane_keys 0 K) (j + 1)) (simon_pairs (lane_keys 1 K) (j + 1)) s"
    by (simp add: lanes2_def Let_def)
  have "SIMON128_Enc_Block_loop_SSE (i + 2) bound K
      (lanes2 (simon_pairs (lane_keys 0 K) (j + 1)) (simon_pairs (lane_keys 1 K) (j + 1)) s)
     = Some (lanes2 (simon_pairs (lane_keys 0 K) m) (simon_pairs (lane_keys 1 K) m) s)"
    using Suc.hyps(2) Suc.prems unat_index_facts(3) [OF Suc.prems(1) j]
    by (intro Suc.hyps(1)) simp_all
  then show ?case
    by (simp only: SIMON128_Enc_Block_loop_SSE_step [OF lt Suc.prems(1) j] e)
qed

lemma SIMON128_Enc_Block_loop_SSE_from_0:
  assumes "2 \<le> unat (rounds :: 32 word)"
  shows "SIMON128_Enc_Block_loop_SSE 0 (ucast (rounds AND NOT 1) - 1) K s
      = Some (lanes2 (simon_pairs (lane_keys 0 K) (unat rounds div 2))
                (simon_pairs (lane_keys 1 K) (unat rounds div 2)) s)"
proof -
  have "unat rounds div 2 < 2 ^ 32" using unat_lt_32 [of rounds] by simp
  then have "SIMON128_Enc_Block_loop_SSE 0 (ucast (rounds AND NOT 1) - 1) K
          (lanes2 (simon_pairs (lane_keys 0 K) 0) (simon_pairs (lane_keys 1 K) 0) s)
     = Some (lanes2 (simon_pairs (lane_keys 0 K) (unat rounds div 2))
                (simon_pairs (lane_keys 1 K) (unat rounds div 2)) s)"
    using assms by (intro SIMON128_Enc_Block_loop_SSE_ref bound_unat) simp_all
  then show ?thesis by (simp add: lanes2_def)
qed

lemma SIMON128_Enc_Block_loop_SSE_diverges:
  assumes "even i"
  shows "SIMON128_Enc_Block_loop_SSE i (- 1) K s = None"
proof -
  have nd: "\<not> (even i \<and> b = - 1)"
    if "SIMON128_Enc_Block_loop_SSE i b K s = Some y" for i b K s y
    using that
  proof (rule SIMON128_Enc_Block_loop_SSE.raw_induct
      [rotated 1, where P = "\<lambda>i b K s y. \<not> (even i \<and> b = - 1)"], goal_cases)
    case (1 f i b K s y)
    show ?case
    proof
      assume a: "even i \<and> b = - 1"
      then have "i < b" by (simp add: even_max)
      with 1(2) obtain s' where "f (i + 2) b K s' = Some y"
        by (auto simp: Let_def split: prod.splits)
      then have "\<not> (even (i + 2) \<and> b = - 1)" by (rule 1(1))
      with a show False by simp
    qed
  qed
  show ?thesis
  proof (cases "SIMON128_Enc_Block_loop_SSE i (- 1) K s")
    case None
    then show ?thesis .
  next
    case (Some y)
    from nd [OF Some] assms show ?thesis by simp
  qed
qed

lemma SIMON128_Enc_Block_SSE_diverges:
  assumes "unat rounds < 2"
  shows "SIMON128_Enc_Block_SSE block0 block1 K rounds = None"
  by (simp only: SIMON128_Enc_Block_SSE_def Let_def bound_wrap [OF assms])
     (simp add: SIMON128_Enc_Block_loop_SSE_diverges)

lemma SIMON128_Dec_Block_loop_SSE_step:
  "SIMON128_Dec_Block_loop_SSE (int j) K s =
     SIMON128_Dec_Block_loop_SSE (int j - 2) K
       (lanes (\<lambda>t. simon_update_y (K j) (simon_update_x (K (j + 1)) t)) s)"
  by (cases s) (simp add: SIMON128_Dec_Block_loop_SSE.simps [of "int j"] Let_def lanes_def
      lanes2_def simon_update_x_def simon_update_y_def sse_defs SIMON128_f_SSE_lanes xor.assoc)

lemma SIMON128_Dec_Block_loop_SSE_ref:
  "SIMON128_Dec_Block_loop_SSE (int (2 * m) - 2) K s = lanes (simon_pairs_back K m) s"
proof (induction m arbitrary: s)
  case 0
  show ?case
    by (cases s)
      (simp add: SIMON128_Dec_Block_loop_SSE.simps [of "- 2"] lanes_def lanes2_def)
next
  case (Suc m)
  let ?g = "\<lambda>t. simon_update_y (K (2 * m)) (simon_update_x (K (2 * m + 1)) t)"
  have "SIMON128_Dec_Block_loop_SSE (int (2 * Suc m) - 2) K s =
      SIMON128_Dec_Block_loop_SSE (int (2 * m)) K s"
    by simp
  also have "\<dots> = SIMON128_Dec_Block_loop_SSE (int (2 * m) - 2) K (lanes ?g s)"
    by (rule SIMON128_Dec_Block_loop_SSE_step)
  also have "\<dots> = lanes (simon_pairs_back K m) (lanes ?g s)"
    by (rule Suc.IH)
  also have "\<dots> = lanes (simon_pairs_back K (Suc m)) s"
    by (simp add: lanes_def lanes2_def Let_def)
  finally show ?case .
qed

lemma SIMON128_Dec_Block_SSE_ref:
  assumes "unat rounds \<le> 2 ^ 31"
  shows "SIMON128_Dec_Block_SSE block0 block1 K rounds =
     (on_block (simon_dec K (unat rounds)) block0, on_block (simon_dec K (unat rounds)) block1)"
proof (cases "odd (unat rounds)")
  case True
  let ?m = "unat rounds div 2"
  have c: "(rounds AND 1 \<noteq> 0) = True" using True by (simp add: and1_odd)
  have m: "unat rounds - 1 = 2 * ?m" using True by presburger
  have u: "unat (rounds - 1) = 2 * ?m" using unat_pred_odd(1) [OF True] m by simp
  have "sint (rounds - 1 - 2) = int (unat (rounds - 1)) - 2"
    using assms unat_pred_odd [OF True] by (intro sint_sub2) simp_all
  then have i: "sint (rounds - 1 - 2) = int (2 * ?m) - 2" by (simp only: u)
  have loop: "SIMON128_Dec_Block_loop_SSE (sint (rounds - 1 - 2)) K s =
      lanes (simon_pairs_back K ?m) s" for s
    unfolding i by (rule SIMON128_Dec_Block_loop_SSE_ref)
  have sd: "simon_dec K (unat rounds) t =
      simon_pairs_back K ?m (simon_update_y (K (2 * ?m)) (swap_halves t))" for t
    using True m by (simp add: simon_dec_def Let_def)
  show ?thesis
    unfolding SIMON128_Dec_Block_SSE_def Let_def c if_True Swap128_def swap_def
      prod.case fst_conv snd_conv loop m
    by (simp add: sd Let_def lanes_def lanes2_def on_block_def sse_defs
        SIMON128_f_SSE_lanes simon_update_y_def swap_halves_def
        xor.assoc xor.commute xor.left_commute)
next
  case False
  let ?m = "unat rounds div 2"
  have c: "(rounds AND 1 \<noteq> 0) = False" using False by (simp add: and1_odd)
  have m: "unat rounds = 2 * ?m" using False by presburger
  have "sint (rounds - 2) = int (unat rounds) - 2"
    using assms False by (intro sint_sub2) simp_all
  then have i: "sint (rounds - 2) = int (2 * ?m) - 2" using m by simp
  have loop: "SIMON128_Dec_Block_loop_SSE (sint (rounds - 2)) K s =
      lanes (simon_pairs_back K ?m) s" for s
    unfolding i by (rule SIMON128_Dec_Block_loop_SSE_ref)
  have sd: "simon_dec K (unat rounds) t = simon_pairs_back K ?m t" for t
    using False by (simp add: simon_dec_def)
  show ?thesis
    unfolding SIMON128_Dec_Block_SSE_def Let_def c if_False prod.case loop
    by (simp add: sd Let_def lanes_def lanes2_def on_block_def sse_defs)
qed

lemma SIMON128_Enc_6_Blocks_loop_SSE_Some:
  assumes "SIMON128_Enc_6_Blocks_loop_SSE i b K S = Some R"
  shows "six_of_pairs
      (SIMON128_Enc_Block_loop_SSE i b K (fst S, fst (snd S)))
      (SIMON128_Enc_Block_loop_SSE i b K (fst (snd (snd S)), fst (snd (snd (snd S)))))
      (SIMON128_Enc_Block_loop_SSE i b K
         (fst (snd (snd (snd (snd S)))), snd (snd (snd (snd (snd S))))))
    = Some R"
  using assms
proof (rule SIMON128_Enc_6_Blocks_loop_SSE.raw_induct [rotated 1,
    where P = "\<lambda>i b K S R. six_of_pairs
      (SIMON128_Enc_Block_loop_SSE i b K (fst S, fst (snd S)))
      (SIMON128_Enc_Block_loop_SSE i b K (fst (snd (snd S)), fst (snd (snd (snd S)))))
      (SIMON128_Enc_Block_loop_SSE i b K
         (fst (snd (snd (snd (snd S)))), snd (snd (snd (snd (snd S))))))
    = Some R"], goal_cases)
  case (1 f i b K S R)
  show ?case
  proof (cases "i < b")
    case True
    obtain x1 y1 x2 y2 x3 y3 where S: "S = (x1, y1, x2, y2, x3, y3)" by (cases S)
    show ?thesis
      using 1(2) True unfolding S
      by (subst (1 2 3) SIMON128_Enc_Block_loop_SSE.simps) (auto simp: Let_def dest!: 1(1))
  next
    case False
    then show ?thesis using 1(2)
      by (subst (1 2 3) SIMON128_Enc_Block_loop_SSE.simps) (auto simp: six_of_pairs_def)
  qed
qed

lemma SIMON128_Enc_6_Blocks_loop_SSE_not_None:
  assumes "SIMON128_Enc_Block_loop_SSE i b K s = Some r"
  shows "SIMON128_Enc_6_Blocks_loop_SSE i b K (fst s, snd s, x2, y2, x3, y3) \<noteq> None"
proof -
  have "\<forall>x2 y2 x3 y3.
      SIMON128_Enc_6_Blocks_loop_SSE i b K (fst s, snd s, x2, y2, x3, y3) \<noteq> None"
    using assms
  proof (rule SIMON128_Enc_Block_loop_SSE.raw_induct [rotated 1, where P = "\<lambda>i b K s r.
      \<forall>x2 y2 x3 y3.
        SIMON128_Enc_6_Blocks_loop_SSE i b K (fst s, snd s, x2, y2, x3, y3) \<noteq> None"],
      goal_cases)
    case (1 f i b K s r)
    show ?case
    proof (cases "i < b")
      case True
      obtain x1 y1 where s: "s = (x1, y1)" by (cases s)
      show ?thesis
        using 1(2) True unfolding s
        by (subst SIMON128_Enc_6_Blocks_loop_SSE.simps) (auto simp: Let_def dest!: 1(1))
    next
      case False
      then show ?thesis
        by (subst SIMON128_Enc_6_Blocks_loop_SSE.simps) simp
    qed
  qed
  then show ?thesis by blast
qed

lemma SIMON128_Enc_6_Blocks_loop_SSE_pairs:
  "SIMON128_Enc_6_Blocks_loop_SSE i b K (x1, y1, x2, y2, x3, y3) =
     six_of_pairs (SIMON128_Enc_Block_loop_SSE i b K (x1, y1))
       (SIMON128_Enc_Block_loop_SSE i b K (x2, y2))
       (SIMON128_Enc_Block_loop_SSE i b K (x3, y3))"
proof (cases "SIMON128_Enc_6_Blocks_loop_SSE i b K (x1, y1, x2, y2, x3, y3)")
  case None
  then have "SIMON128_Enc_Block_loop_SSE i b K (x1, y1) = None"
    using SIMON128_Enc_6_Blocks_loop_SSE_not_None [of i b K "(x1, y1)" _ x2 y2 x3 y3]
    by (cases "SIMON128_Enc_Block_loop_SSE i b K (x1, y1)") auto
  with None show ?thesis by (simp add: six_of_pairs_def)
next
  case (Some R)
  from SIMON128_Enc_6_Blocks_loop_SSE_Some [OF Some] Some show ?thesis by simp
qed

lemma SIMON128_Enc_6_Blocks_SSE_pairs:
  "SIMON128_Enc_6_Blocks_SSE b0 b1 b2 b3 b4 b5 K r =
     six_of_pairs (SIMON128_Enc_Block_SSE b0 b1 K r) (SIMON128_Enc_Block_SSE b2 b3 K r)
       (SIMON128_Enc_Block_SSE b4 b5 K r)"
  unfolding SIMON128_Enc_6_Blocks_SSE_def SIMON128_Enc_Block_SSE_def Let_def
    SIMON128_Enc_6_Blocks_loop_SSE_pairs
  by (simp add: six_of_pairs_def Swap128_def swap_def Let_def split: option.splits prod.splits)

lemma SIMON128_Dec_6_Blocks_loop_SSE_pairs:
  "SIMON128_Dec_6_Blocks_loop_SSE i K (x1, y1, x2, y2, x3, y3) =
     (case SIMON128_Dec_Block_loop_SSE i K (x1, y1) of (a, b) \<Rightarrow>
      case SIMON128_Dec_Block_loop_SSE i K (x2, y2) of (c, d) \<Rightarrow>
      case SIMON128_Dec_Block_loop_SSE i K (x3, y3) of (e, f) \<Rightarrow> (a, b, c, d, e, f))"
proof (induction "nat (i + 2)" arbitrary: i x1 y1 x2 y2 x3 y3 rule: less_induct)
  case less
  show ?case
  proof (cases "0 \<le> i")
    case True
    then have d: "nat (i - 2 + 2) < nat (i + 2)" by simp
    show ?thesis
      by (subst SIMON128_Dec_6_Blocks_loop_SSE.simps,
          subst (1 2 3) SIMON128_Dec_Block_loop_SSE.simps)
        (simp add: True Let_def less.hyps [OF d])
  next
    case False
    then show ?thesis
      by (simp add: SIMON128_Dec_6_Blocks_loop_SSE.simps [of i]
          SIMON128_Dec_Block_loop_SSE.simps [of i])
  qed
qed

lemma SIMON128_Dec_6_Blocks_SSE_pairs:
  "SIMON128_Dec_6_Blocks_SSE b0 b1 b2 b3 b4 b5 K r =
    (case SIMON128_Dec_Block_SSE b0 b1 K r of (c0, c1) \<Rightarrow>
     case SIMON128_Dec_Block_SSE b2 b3 K r of (c2, c3) \<Rightarrow>
     case SIMON128_Dec_Block_SSE b4 b5 K r of (c4, c5) \<Rightarrow> (c0, c1, c2, c3, c4, c5))"
  by (simp add: SIMON128_Dec_6_Blocks_SSE_def SIMON128_Dec_Block_SSE_def Let_def
      SIMON128_Dec_6_Blocks_loop_SSE_pairs Swap128_def swap_def split: prod.splits)

lemma SIMON128_Enc_Block_SSE_gen:
  assumes "2 \<le> unat rounds"
  shows "SIMON128_Enc_Block_SSE block0 block1 K rounds =
     Some (on_block (\<lambda>s. let s = simon_pairs (lane_keys 0 K) (unat rounds div 2) s
                          in if odd (unat rounds)
                             then swap_halves (simon_update_y (K (unat ((rounds - 1) * 2))) s)
                             else s) block0,
           on_block (\<lambda>s. let s = simon_pairs (lane_keys 1 K) (unat rounds div 2) s
                          in if odd (unat rounds)
                             then swap_halves
                               (simon_update_y (K (unat ((rounds - 1) * 2) + 1)) s)
                             else s) block1)"
  unfolding SIMON128_Enc_Block_SSE_def Let_def SIMON128_Enc_Block_loop_SSE_from_0 [OF assms]
    option.case
  by (simp add: and1_odd Let_def lanes2_def on_block_def sse_defs SIMON128_f_SSE_lanes
      simon_update_y_def swap_halves_def Swap128_def swap_def xor.assoc)

lemma SIMON128_Enc_Block_SSE_ref:
  assumes "2 \<le> unat rounds" "unat rounds \<le> 2 ^ 31"
  shows "SIMON128_Enc_Block_SSE block0 block1 (presplatted_layout k) rounds =
     Some (on_block (simon_enc k (unat rounds)) block0,
           on_block (simon_enc k (unat rounds)) block1)"
proof -
  have idx: "unat ((rounds - 1) * 2) = 2 * (unat rounds - 1)"
    using assms by (intro tail_idx) simp_all
  have t: "presplatted_layout k (2 * (unat rounds - 1)) = k (unat rounds - 1)"
    "presplatted_layout k (2 * (unat rounds - 1) + 1) = k (unat rounds - 1)"
    by (simp_all add: presplatted_layout_def)
  show ?thesis
    unfolding SIMON128_Enc_Block_SSE_gen [OF assms(1)] idx t lane_keys_presplatted
    by (simp add: simon_enc_def on_block_def)
qed

subsection \<open>SPECK-128 kernels, NEON\<close>

lemma SPECK128_Enc_Block_loop_NEON_step:
  "i < n \<Longrightarrow> SPECK128_Enc_Block_loop_NEON i n K s =
     SPECK128_Enc_Block_loop_NEON (i + 1) n K
       (lanes2 (speck_enc_round (K i)) (speck_enc_round (K i)) s)"
  by (cases s) (simp add: SPECK128_Enc_Block_loop_NEON.simps [of i] Let_def lanes2_def
      speck_enc_round_def neon_defs refl RotateRight64_8_NEON_lanes RotateLeft64_NEON_lanes)

lemma SPECK128_Enc_Block_loop_NEON_ref:
  "i \<le> n \<Longrightarrow>
   SPECK128_Enc_Block_loop_NEON i n K (lanes2 (speck_enc K i) (speck_enc K i) s) =
     lanes2 (speck_enc K n) (speck_enc K n) s"
proof (induction "n - i" arbitrary: i)
  case 0
  then show ?case
    by (cases "lanes2 (speck_enc K i) (speck_enc K i) s")
      (simp add: SPECK128_Enc_Block_loop_NEON.simps [of i])
next
  case (Suc d)
  then have lt: "i < n" by simp
  have e: "lanes2 (speck_enc_round (K i)) (speck_enc_round (K i))
      (lanes2 (speck_enc K i) (speck_enc K i) s)
      = lanes2 (speck_enc K (i + 1)) (speck_enc K (i + 1)) s"
    by (simp add: lanes2_def Let_def)
  have "SPECK128_Enc_Block_loop_NEON (i + 1) n K
      (lanes2 (speck_enc K (i + 1)) (speck_enc K (i + 1)) s)
     = lanes2 (speck_enc K n) (speck_enc K n) s"
    using Suc.hyps(2) lt by (intro Suc.hyps(1)) simp_all
  then show ?case
    by (simp only: SPECK128_Enc_Block_loop_NEON_step [OF lt] e)
qed

lemma SPECK128_Enc_Block_NEON_ref:
  "SPECK128_Enc_Block_NEON block0 block1 K rounds =
     (on_block (speck_enc K (unat rounds)) block0,
      on_block (speck_enc K (unat rounds)) block1)"
proof -
  let ?s = "(UnpackHigh64 block0 block1, UnpackLow64 block0 block1)"
  have "SPECK128_Enc_Block_loop_NEON 0 (unat rounds) K
      (lanes2 (speck_enc K 0) (speck_enc K 0) ?s)
    = lanes2 (speck_enc K (unat rounds)) (speck_enc K (unat rounds)) ?s"
    by (rule SPECK128_Enc_Block_loop_NEON_ref) simp
  then have "SPECK128_Enc_Block_loop_NEON 0 (unat rounds) K ?s
    = lanes2 (speck_enc K (unat rounds)) (speck_enc K (unat rounds)) ?s"
    by (simp add: lanes2_def)
  then show ?thesis
    unfolding SPECK128_Enc_Block_NEON_def Let_def
    by (simp add: Let_def lanes2_def on_block_def neon_defs)
qed

lemma SPECK128_Dec_Block_loop_NEON_step:
  "SPECK128_Dec_Block_loop_NEON (int j) K s =
     SPECK128_Dec_Block_loop_NEON (int j - 1) K (lanes (speck_dec_round (K j)) s)"
  by (cases s) (simp add: SPECK128_Dec_Block_loop_NEON.simps [of "int j"] Let_def lanes_def
      lanes2_def speck_dec_round_def neon_defs RotateLeft64_8_NEON_lanes RotateRight64_NEON_lanes)

lemma SPECK128_Dec_Block_loop_NEON_ref:
  "SPECK128_Dec_Block_loop_NEON (int n - 1) K s = lanes (speck_dec K n) s"
proof (induction n arbitrary: s)
  case 0
  show ?case
    by (cases s)
      (simp add: SPECK128_Dec_Block_loop_NEON.simps [of "- 1"] lanes_def lanes2_def)
next
  case (Suc n)
  have "SPECK128_Dec_Block_loop_NEON (int (Suc n) - 1) K s =
      SPECK128_Dec_Block_loop_NEON (int n) K s"
    by simp
  also have "\<dots> = SPECK128_Dec_Block_loop_NEON (int n - 1) K
      (lanes (speck_dec_round (K n)) s)"
    by (rule SPECK128_Dec_Block_loop_NEON_step)
  also have "\<dots> = lanes (speck_dec K n) (lanes (speck_dec_round (K n)) s)"
    by (rule Suc.IH)
  also have "\<dots> = lanes (speck_dec K (Suc n)) s"
    by (simp add: lanes_def lanes2_def Let_def)
  finally show ?case .
qed

lemma SPECK128_Dec_Block_NEON_ref:
  assumes "unat rounds \<le> 2 ^ 31"
  shows "SPECK128_Dec_Block_NEON block0 block1 K rounds =
     (on_block (speck_dec K (unat rounds)) block0, on_block (speck_dec K (unat rounds)) block1)"
proof -
  let ?s = "(UnpackHigh64 block0 block1, UnpackLow64 block0 block1)"
  have i: "sint (rounds - 1) = int (unat rounds) - 1" using assms by (rule sint_pred_32)
  have "SPECK128_Dec_Block_loop_NEON (sint (rounds - 1)) K ?s
    = lanes (speck_dec K (unat rounds)) ?s"
    unfolding i by (rule SPECK128_Dec_Block_loop_NEON_ref)
  then show ?thesis
    unfolding SPECK128_Dec_Block_NEON_def Let_def
    by (simp add: Let_def lanes_def lanes2_def on_block_def neon_defs)
qed

lemma SPECK128_Enc_6_Blocks_loop_NEON_pairs:
  "SPECK128_Enc_6_Blocks_loop_NEON i n K (x1, y1, x2, y2, x3, y3) =
     (case SPECK128_Enc_Block_loop_NEON i n K (x1, y1) of (a, b) \<Rightarrow>
      case SPECK128_Enc_Block_loop_NEON i n K (x2, y2) of (c, d) \<Rightarrow>
      case SPECK128_Enc_Block_loop_NEON i n K (x3, y3) of (e, f) \<Rightarrow> (a, b, c, d, e, f))"
proof (induction "n - i" arbitrary: i x1 y1 x2 y2 x3 y3)
  case 0
  then show ?case
    by (simp add: SPECK128_Enc_6_Blocks_loop_NEON.simps [of i]
        SPECK128_Enc_Block_loop_NEON.simps [of i])
next
  case (Suc d)
  then have lt: "i < n" and d: "d = n - Suc i" by simp_all
  show ?case
    by (subst SPECK128_Enc_6_Blocks_loop_NEON.simps,
        subst (1 2 3) SPECK128_Enc_Block_loop_NEON.simps)
       (simp add: lt Let_def Suc.hyps(1) [OF d])
qed

lemma SPECK128_Dec_6_Blocks_loop_NEON_pairs:
  "SPECK128_Dec_6_Blocks_loop_NEON i K (x1, y1, x2, y2, x3, y3) =
     (case SPECK128_Dec_Block_loop_NEON i K (x1, y1) of (a, b) \<Rightarrow>
      case SPECK128_Dec_Block_loop_NEON i K (x2, y2) of (c, d) \<Rightarrow>
      case SPECK128_Dec_Block_loop_NEON i K (x3, y3) of (e, f) \<Rightarrow> (a, b, c, d, e, f))"
proof (induction "nat (i + 1)" arbitrary: i x1 y1 x2 y2 x3 y3)
  case 0
  then show ?case
    by (simp add: SPECK128_Dec_6_Blocks_loop_NEON.simps [of i]
        SPECK128_Dec_Block_loop_NEON.simps [of i])
next
  case (Suc d)
  then have ge: "0 \<le> i" and d: "d = nat (i - 1 + 1)" by simp_all
  show ?case
    by (subst SPECK128_Dec_6_Blocks_loop_NEON.simps,
        subst (1 2 3) SPECK128_Dec_Block_loop_NEON.simps)
       (simp add: ge Let_def Suc.hyps(1) [OF d])
qed

lemma SPECK128_Enc_6_Blocks_NEON_pairs:
  "SPECK128_Enc_6_Blocks_NEON b0 b1 b2 b3 b4 b5 K r =
    (case SPECK128_Enc_Block_NEON b0 b1 K r of (c0, c1) \<Rightarrow>
     case SPECK128_Enc_Block_NEON b2 b3 K r of (c2, c3) \<Rightarrow>
     case SPECK128_Enc_Block_NEON b4 b5 K r of (c4, c5) \<Rightarrow> (c0, c1, c2, c3, c4, c5))"
  by (simp add: SPECK128_Enc_6_Blocks_NEON_def SPECK128_Enc_Block_NEON_def Let_def
      SPECK128_Enc_6_Blocks_loop_NEON_pairs split: prod.splits)

lemma SPECK128_Dec_6_Blocks_NEON_pairs:
  "SPECK128_Dec_6_Blocks_NEON b0 b1 b2 b3 b4 b5 K r =
    (case SPECK128_Dec_Block_NEON b0 b1 K r of (c0, c1) \<Rightarrow>
     case SPECK128_Dec_Block_NEON b2 b3 K r of (c2, c3) \<Rightarrow>
     case SPECK128_Dec_Block_NEON b4 b5 K r of (c4, c5) \<Rightarrow> (c0, c1, c2, c3, c4, c5))"
  by (simp add: SPECK128_Dec_6_Blocks_NEON_def SPECK128_Dec_Block_NEON_def Let_def
      SPECK128_Dec_6_Blocks_loop_NEON_pairs split: prod.splits)

subsection \<open>SIMON-128 kernels, NEON\<close>

lemma SIMON128_f_NEON_lanes:
  "SIMON128_f_NEON v = Vec (simon_f (lane0 v)) (simon_f (lane1 v))"
  by (simp add: SIMON128_f_NEON_def simon_f_def neon_defs RotateLeft64_NEON_lanes
      RotateLeft64_8_NEON_lanes)

lemma SIMON128_Enc_Block_loop_NEON_step:
  assumes "i < bound" "unat i = 2 * j" "j < 2 ^ 32"
  shows "SIMON128_Enc_Block_loop_NEON i bound K s =
     SIMON128_Enc_Block_loop_NEON (i + 2) bound K
       (lanes2 (\<lambda>t. simon_update_x (K (2 * j + 1)) (simon_update_y (K (2 * j)) t))
               (\<lambda>t. simon_update_x (K (2 * j + 1)) (simon_update_y (K (2 * j)) t)) s)"
  by (subst SIMON128_Enc_Block_loop_NEON.simps, cases s)
    (simp add: assms(1) unat_index_facts [OF assms(2,3)] assms(2) Let_def lanes2_def
      simon_update_x_def simon_update_y_def neon_defs refl SIMON128_f_NEON_lanes xor.assoc
      mult.commute)

lemma SIMON128_Enc_Block_loop_NEON_ref:
  assumes "unat i = 2 * j" "unat bound + 1 = 2 * m" "j \<le> m" "m < 2 ^ 32"
  shows "SIMON128_Enc_Block_loop_NEON i bound K
      (lanes2 (simon_pairs K j) (simon_pairs K j) s)
     = Some (lanes2 (simon_pairs K m) (simon_pairs K m) s)"
  using assms
proof (induction "m - j" arbitrary: i j)
  case 0
  then have "\<not> i < bound" by (simp add: word_less_nat_alt)
  moreover have "j = m" using 0 by simp
  ultimately show ?case by (subst SIMON128_Enc_Block_loop_NEON.simps) simp
next
  case (Suc d)
  then have lt: "i < bound" by (simp add: word_less_nat_alt)
  have j: "j < 2 ^ 32" using Suc.prems by simp
  have e: "lanes2 (\<lambda>t. simon_update_x (K (2 * j + 1)) (simon_update_y (K (2 * j)) t))
               (\<lambda>t. simon_update_x (K (2 * j + 1)) (simon_update_y (K (2 * j)) t))
        (lanes2 (simon_pairs K j) (simon_pairs K j) s)
     = lanes2 (simon_pairs K (j + 1)) (simon_pairs K (j + 1)) s"
    by (simp add: lanes2_def Let_def)
  have "SIMON128_Enc_Block_loop_NEON (i + 2) bound K
      (lanes2 (simon_pairs K (j + 1)) (simon_pairs K (j + 1)) s)
     = Some (lanes2 (simon_pairs K m) (simon_pairs K m) s)"
    using Suc.hyps(2) Suc.prems unat_index_facts(3) [OF Suc.prems(1) j]
    by (intro Suc.hyps(1)) simp_all
  then show ?case
    by (simp only: SIMON128_Enc_Block_loop_NEON_step [OF lt Suc.prems(1) j] e)
qed

lemma SIMON128_Enc_Block_loop_NEON_from_0:
  assumes "2 \<le> unat (rounds :: 32 word)"
  shows "SIMON128_Enc_Block_loop_NEON 0 (ucast (rounds AND NOT 1) - 1) K s
      = Some (lanes2 (simon_pairs K (unat rounds div 2))
                (simon_pairs K (unat rounds div 2)) s)"
proof -
  have "unat rounds div 2 < 2 ^ 32" using unat_lt_32 [of rounds] by simp
  then have "SIMON128_Enc_Block_loop_NEON 0 (ucast (rounds AND NOT 1) - 1) K
          (lanes2 (simon_pairs K 0) (simon_pairs K 0) s)
     = Some (lanes2 (simon_pairs K (unat rounds div 2))
                (simon_pairs K (unat rounds div 2)) s)"
    using assms by (intro SIMON128_Enc_Block_loop_NEON_ref bound_unat) simp_all
  then show ?thesis by (simp add: lanes2_def)
qed

lemma SIMON128_Enc_Block_loop_NEON_diverges:
  assumes "even i"
  shows "SIMON128_Enc_Block_loop_NEON i (- 1) K s = None"
proof -
  have nd: "\<not> (even i \<and> b = - 1)"
    if "SIMON128_Enc_Block_loop_NEON i b K s = Some y" for i b K s y
    using that
  proof (rule SIMON128_Enc_Block_loop_NEON.raw_induct
      [rotated 1, where P = "\<lambda>i b K s y. \<not> (even i \<and> b = - 1)"], goal_cases)
    case (1 f i b K s y)
    show ?case
    proof
      assume a: "even i \<and> b = - 1"
      then have "i < b" by (simp add: even_max)
      with 1(2) obtain s' where "f (i + 2) b K s' = Some y"
        by (auto simp: Let_def split: prod.splits)
      then have "\<not> (even (i + 2) \<and> b = - 1)" by (rule 1(1))
      with a show False by simp
    qed
  qed
  show ?thesis
  proof (cases "SIMON128_Enc_Block_loop_NEON i (- 1) K s")
    case None
    then show ?thesis .
  next
    case (Some y)
    from nd [OF Some] assms show ?thesis by simp
  qed
qed

lemma SIMON128_Enc_Block_NEON_diverges:
  assumes "unat rounds < 2"
  shows "SIMON128_Enc_Block_NEON block0 block1 K rounds = None"
  by (simp only: SIMON128_Enc_Block_NEON_def Let_def bound_wrap [OF assms])
     (simp add: SIMON128_Enc_Block_loop_NEON_diverges)

lemma SIMON128_Dec_Block_loop_NEON_step:
  "SIMON128_Dec_Block_loop_NEON (int j) K s =
     SIMON128_Dec_Block_loop_NEON (int j - 2) K
       (lanes (\<lambda>t. simon_update_y (K j) (simon_update_x (K (j + 1)) t)) s)"
  by (cases s) (simp add: SIMON128_Dec_Block_loop_NEON.simps [of "int j"] Let_def lanes_def
      lanes2_def simon_update_x_def simon_update_y_def neon_defs SIMON128_f_NEON_lanes xor.assoc)

lemma SIMON128_Dec_Block_loop_NEON_ref:
  "SIMON128_Dec_Block_loop_NEON (int (2 * m) - 2) K s = lanes (simon_pairs_back K m) s"
proof (induction m arbitrary: s)
  case 0
  show ?case
    by (cases s)
      (simp add: SIMON128_Dec_Block_loop_NEON.simps [of "- 2"] lanes_def lanes2_def)
next
  case (Suc m)
  let ?g = "\<lambda>t. simon_update_y (K (2 * m)) (simon_update_x (K (2 * m + 1)) t)"
  have "SIMON128_Dec_Block_loop_NEON (int (2 * Suc m) - 2) K s =
      SIMON128_Dec_Block_loop_NEON (int (2 * m)) K s"
    by simp
  also have "\<dots> = SIMON128_Dec_Block_loop_NEON (int (2 * m) - 2) K (lanes ?g s)"
    by (rule SIMON128_Dec_Block_loop_NEON_step)
  also have "\<dots> = lanes (simon_pairs_back K m) (lanes ?g s)"
    by (rule Suc.IH)
  also have "\<dots> = lanes (simon_pairs_back K (Suc m)) s"
    by (simp add: lanes_def lanes2_def Let_def)
  finally show ?case .
qed

lemma SIMON128_Dec_Block_NEON_ref:
  assumes "unat rounds \<le> 2 ^ 31"
  shows "SIMON128_Dec_Block_NEON block0 block1 K rounds =
     (on_block (simon_dec K (unat rounds)) block0, on_block (simon_dec K (unat rounds)) block1)"
proof (cases "odd (unat rounds)")
  case True
  let ?m = "unat rounds div 2"
  have c: "(rounds AND 1 \<noteq> 0) = True" using True by (simp add: and1_odd)
  have m: "unat rounds - 1 = 2 * ?m" using True by presburger
  have u: "unat (rounds - 1) = 2 * ?m" using unat_pred_odd(1) [OF True] m by simp
  have "sint (rounds - 1 - 2) = int (unat (rounds - 1)) - 2"
    using assms unat_pred_odd [OF True] by (intro sint_sub2) simp_all
  then have i: "sint (rounds - 1 - 2) = int (2 * ?m) - 2" by (simp only: u)
  have loop: "SIMON128_Dec_Block_loop_NEON (sint (rounds - 1 - 2)) K s =
      lanes (simon_pairs_back K ?m) s" for s
    unfolding i by (rule SIMON128_Dec_Block_loop_NEON_ref)
  have sd: "simon_dec K (unat rounds) t =
      simon_pairs_back K ?m (simon_update_y (K (2 * ?m)) (swap_halves t))" for t
    using True m by (simp add: simon_dec_def Let_def)
  show ?thesis
    unfolding SIMON128_Dec_Block_NEON_def Let_def c if_True swap_def
      prod.case fst_conv snd_conv loop m
    by (simp add: sd Let_def lanes_def lanes2_def on_block_def neon_defs
        SIMON128_f_NEON_lanes simon_update_y_def swap_halves_def
        xor.assoc xor.commute xor.left_commute)
next
  case False
  let ?m = "unat rounds div 2"
  have c: "(rounds AND 1 \<noteq> 0) = False" using False by (simp add: and1_odd)
  have m: "unat rounds = 2 * ?m" using False by presburger
  have "sint (rounds - 2) = int (unat rounds) - 2"
    using assms False by (intro sint_sub2) simp_all
  then have i: "sint (rounds - 2) = int (2 * ?m) - 2" using m by simp
  have loop: "SIMON128_Dec_Block_loop_NEON (sint (rounds - 2)) K s =
      lanes (simon_pairs_back K ?m) s" for s
    unfolding i by (rule SIMON128_Dec_Block_loop_NEON_ref)
  have sd: "simon_dec K (unat rounds) t = simon_pairs_back K ?m t" for t
    using False by (simp add: simon_dec_def)
  show ?thesis
    unfolding SIMON128_Dec_Block_NEON_def Let_def c if_False prod.case loop
    by (simp add: sd Let_def lanes_def lanes2_def on_block_def neon_defs)
qed

lemma SIMON128_Enc_6_Blocks_loop_NEON_Some:
  assumes "SIMON128_Enc_6_Blocks_loop_NEON i b K S = Some R"
  shows "six_of_pairs
      (SIMON128_Enc_Block_loop_NEON i b K (fst S, fst (snd S)))
      (SIMON128_Enc_Block_loop_NEON i b K (fst (snd (snd S)), fst (snd (snd (snd S)))))
      (SIMON128_Enc_Block_loop_NEON i b K
         (fst (snd (snd (snd (snd S)))), snd (snd (snd (snd (snd S))))))
    = Some R"
  using assms
proof (rule SIMON128_Enc_6_Blocks_loop_NEON.raw_induct [rotated 1,
    where P = "\<lambda>i b K S R. six_of_pairs
      (SIMON128_Enc_Block_loop_NEON i b K (fst S, fst (snd S)))
      (SIMON128_Enc_Block_loop_NEON i b K (fst (snd (snd S)), fst (snd (snd (snd S)))))
      (SIMON128_Enc_Block_loop_NEON i b K
         (fst (snd (snd (snd (snd S)))), snd (snd (snd (snd (snd S))))))
    = Some R"], goal_cases)
  case (1 f i b K S R)
  show ?case
  proof (cases "i < b")
    case True
    obtain x1 y1 x2 y2 x3 y3 where S: "S = (x1, y1, x2, y2, x3, y3)" by (cases S)
    show ?thesis
      using 1(2) True unfolding S
      by (subst (1 2 3) SIMON128_Enc_Block_loop_NEON.simps) (auto simp: Let_def dest!: 1(1))
  next
    case False
    then show ?thesis using 1(2)
      by (subst (1 2 3) SIMON128_Enc_Block_loop_NEON.simps) (auto simp: six_of_pairs_def)
  qed
qed

lemma SIMON128_Enc_6_Blocks_loop_NEON_not_None:
  assumes "SIMON128_Enc_Block_loop_NEON i b K s = Some r"
  shows "SIMON128_Enc_6_Blocks_loop_NEON i b K (fst s, snd s, x2, y2, x3, y3) \<noteq> None"
proof -
  have "\<forall>x2 y2 x3 y3.
      SIMON128_Enc_6_Blocks_loop_NEON i b K (fst s, snd s, x2, y2, x3, y3) \<noteq> None"
    using assms
  proof (rule SIMON128_Enc_Block_loop_NEON.raw_induct [rotated 1, where P = "\<lambda>i b K s r.
      \<forall>x2 y2 x3 y3.
        SIMON128_Enc_6_Blocks_loop_NEON i b K (fst s, snd s, x2, y2, x3, y3) \<noteq> None"],
      goal_cases)
    case (1 f i b K s r)
    show ?case
    proof (cases "i < b")
      case True
      obtain x1 y1 where s: "s = (x1, y1)" by (cases s)
      show ?thesis
        using 1(2) True unfolding s
        by (subst SIMON128_Enc_6_Blocks_loop_NEON.simps) (auto simp: Let_def dest!: 1(1))
    next
      case False
      then show ?thesis
        by (subst SIMON128_Enc_6_Blocks_loop_NEON.simps) simp
    qed
  qed
  then show ?thesis by blast
qed

lemma SIMON128_Enc_6_Blocks_loop_NEON_pairs:
  "SIMON128_Enc_6_Blocks_loop_NEON i b K (x1, y1, x2, y2, x3, y3) =
     six_of_pairs (SIMON128_Enc_Block_loop_NEON i b K (x1, y1))
       (SIMON128_Enc_Block_loop_NEON i b K (x2, y2))
       (SIMON128_Enc_Block_loop_NEON i b K (x3, y3))"
proof (cases "SIMON128_Enc_6_Blocks_loop_NEON i b K (x1, y1, x2, y2, x3, y3)")
  case None
  then have "SIMON128_Enc_Block_loop_NEON i b K (x1, y1) = None"
    using SIMON128_Enc_6_Blocks_loop_NEON_not_None [of i b K "(x1, y1)" _ x2 y2 x3 y3]
    by (cases "SIMON128_Enc_Block_loop_NEON i b K (x1, y1)") auto
  with None show ?thesis by (simp add: six_of_pairs_def)
next
  case (Some R)
  from SIMON128_Enc_6_Blocks_loop_NEON_Some [OF Some] Some show ?thesis by simp
qed

lemma SIMON128_Enc_6_Blocks_NEON_pairs:
  "SIMON128_Enc_6_Blocks_NEON b0 b1 b2 b3 b4 b5 K r =
     six_of_pairs (SIMON128_Enc_Block_NEON b0 b1 K r) (SIMON128_Enc_Block_NEON b2 b3 K r)
       (SIMON128_Enc_Block_NEON b4 b5 K r)"
  unfolding SIMON128_Enc_6_Blocks_NEON_def SIMON128_Enc_Block_NEON_def Let_def
    SIMON128_Enc_6_Blocks_loop_NEON_pairs
  by (simp add: six_of_pairs_def swap_def Let_def split: option.splits prod.splits)

lemma SIMON128_Dec_6_Blocks_loop_NEON_pairs:
  "SIMON128_Dec_6_Blocks_loop_NEON i K (x1, y1, x2, y2, x3, y3) =
     (case SIMON128_Dec_Block_loop_NEON i K (x1, y1) of (a, b) \<Rightarrow>
      case SIMON128_Dec_Block_loop_NEON i K (x2, y2) of (c, d) \<Rightarrow>
      case SIMON128_Dec_Block_loop_NEON i K (x3, y3) of (e, f) \<Rightarrow> (a, b, c, d, e, f))"
proof (induction "nat (i + 2)" arbitrary: i x1 y1 x2 y2 x3 y3 rule: less_induct)
  case less
  show ?case
  proof (cases "0 \<le> i")
    case True
    then have d: "nat (i - 2 + 2) < nat (i + 2)" by simp
    show ?thesis
      by (subst SIMON128_Dec_6_Blocks_loop_NEON.simps,
          subst (1 2 3) SIMON128_Dec_Block_loop_NEON.simps)
        (simp add: True Let_def less.hyps [OF d])
  next
    case False
    then show ?thesis
      by (simp add: SIMON128_Dec_6_Blocks_loop_NEON.simps [of i]
          SIMON128_Dec_Block_loop_NEON.simps [of i])
  qed
qed

lemma SIMON128_Dec_6_Blocks_NEON_pairs:
  "SIMON128_Dec_6_Blocks_NEON b0 b1 b2 b3 b4 b5 K r =
    (case SIMON128_Dec_Block_NEON b0 b1 K r of (c0, c1) \<Rightarrow>
     case SIMON128_Dec_Block_NEON b2 b3 K r of (c2, c3) \<Rightarrow>
     case SIMON128_Dec_Block_NEON b4 b5 K r of (c4, c5) \<Rightarrow> (c0, c1, c2, c3, c4, c5))"
  by (simp add: SIMON128_Dec_6_Blocks_NEON_def SIMON128_Dec_Block_NEON_def Let_def
      SIMON128_Dec_6_Blocks_loop_NEON_pairs swap_def split: prod.splits)

lemma SIMON128_Enc_Block_NEON_ref:
  assumes "2 \<le> unat rounds"
  shows "SIMON128_Enc_Block_NEON block0 block1 K rounds =
     Some (on_block (simon_enc K (unat rounds)) block0,
           on_block (simon_enc K (unat rounds)) block1)"
  unfolding SIMON128_Enc_Block_NEON_def Let_def SIMON128_Enc_Block_loop_NEON_from_0 [OF assms]
    option.case
  by (simp add: and1_odd Let_def lanes2_def on_block_def neon_defs SIMON128_f_NEON_lanes
      simon_enc_def simon_update_y_def swap_halves_def swap_def xor.assoc)

subsection \<open>The AltiVec permutes\<close>








subsection \<open>SPECK-128 kernels, AltiVec\<close>







subsection \<open>SIMON-128 kernels, AltiVec\<close>





lemma SIMON128_Enc_Block_loop_ALTIVEC_diverges:
  assumes "even i"
  shows "SIMON128_Enc_Block_loop_ALTIVEC i (- 1) K s = None"
proof -
  have nd: "\<not> (even i \<and> b = - 1)"
    if "SIMON128_Enc_Block_loop_ALTIVEC i b K s = Some y" for i b K s y
    using that
  proof (rule SIMON128_Enc_Block_loop_ALTIVEC.raw_induct
      [rotated 1, where P = "\<lambda>i b K s y. \<not> (even i \<and> b = - 1)"], goal_cases)
    case (1 f i b K s y)
    show ?case
    proof
      assume a: "even i \<and> b = - 1"
      then have "i < b" by (simp add: even_max)
      with 1(2) obtain s' where "f (i + 2) b K s' = Some y"
        by (auto simp: Let_def split: prod.splits)
      then have "\<not> (even (i + 2) \<and> b = - 1)" by (rule 1(1))
      with a show False by simp
    qed
  qed
  show ?thesis
  proof (cases "SIMON128_Enc_Block_loop_ALTIVEC i (- 1) K s")
    case None
    then show ?thesis .
  next
    case (Some y)
    from nd [OF Some] assms show ?thesis by simp
  qed
qed



lemma SIMON128_Enc_Block_ALTIVEC_diverges:
  assumes "unat rounds < 2"
  shows "SIMON128_Enc_Block_ALTIVEC big_endian block K rounds = None"
  by (simp only: SIMON128_Enc_Block_ALTIVEC_def Let_def bound_wrap [OF assms])
     (simp add: SIMON128_Enc_Block_loop_ALTIVEC_diverges)




section \<open>The SPECK-128/128 test vector, round by round\<close>

lemma SPECK128_key_state_step:
  "SPECK128_key_state l k n = s \<Longrightarrow> m = Suc n \<Longrightarrow> speck_enc_round (of_nat n) s = t
     \<Longrightarrow> SPECK128_key_state l k m = t"
  by simp

lemma speck_enc_step:
  "speck_enc (SPECK128_round_keys l k) n s = t \<Longrightarrow> m = Suc n
     \<Longrightarrow> SPECK128_key_state l k n = (a, b) \<Longrightarrow> speck_enc_round b t = t'
     \<Longrightarrow> speck_enc (SPECK128_round_keys l k) m s = t'"
  by (simp add: SPECK128_round_keys_def)

lemma speck128_128_vector_lane:
  "speck_enc (SPECK128_round_keys 0x0f0e0d0c0b0a0908 0x0706050403020100) 32
      (0x6c61766975716520, 0x7469206564616d20)
     = (0xa65d985179783265, 0x7860fedf5c570d18)"
proof -
  let ?K = "SPECK128_key_state 0x0f0e0d0c0b0a0908 0x0706050403020100"
  let ?E = "\<lambda>n. speck_enc (SPECK128_round_keys 0x0f0e0d0c0b0a0908 0x0706050403020100) n
      (0x6c61766975716520, 0x7469206564616d20)"
  have k0: "?K 0 = (0x0f0e0d0c0b0a0908, 0x0706050403020100)"
    by simp
  have k1: "?K 1 = (0x0f1513110f0d0b09, 0x37253b31171d0309)"
    by (rule SPECK128_key_state_step [OF k0]) (simp, code_simp)
  have k2: "?K 2 = (0x40345044282c1015, 0xf91d89cc90c4085c)"
    by (rule SPECK128_key_state_step [OF k1]) (simp, code_simp)
  have k3: "?K 3 = (0x0e5dbe1cd4ec346e, 0xc6b1f07852cc7689)"
    by (rule SPECK128_key_state_step [OF k2]) (simp, code_simp)
  have k4: "?K 4 = (0x34c04e366fa162be, 0x014fcdf4f9c2d6f0)"
    by (rule SPECK128_key_state_step [OF k3]) (simp, code_simp)
  have k5: "?K 5 = (0xbf848e4330327856, 0xb5fae1e4fe24cfd6)"
    by (rule SPECK128_key_state_step [OF k4]) (simp, code_simp)
  have k6: "?K 6 = (0x0cba66734155024b, 0xa36d6954b0737cfe)"
    by (rule SPECK128_key_state_step [OF k5]) (simp, code_simp)
  have k7: "?K 7 = (0xee7a23bb23b4d206, 0xf511691ea02f35f3)"
    by (rule SPECK128_key_state_step [OF k6]) (simp, code_simp)
  have k8: "?K 8 = (0xfbffe3425b52eac2, 0x5374abb75a2b455d)"
    by (rule SPECK128_key_state_step [OF k7]) (simp, code_simp)
  have k9: "?K 9 = (0x1670ab9a9c86984f, 0x8dd5f6204ddcb2a5)"
    by (rule SPECK128_key_state_step [OF k8]) (simp, code_simp)
  have k10: "?K 10 = (0xdcec66cbe8793934, 0xb243d7c9869cac18)"
    by (rule SPECK128_key_state_step [OF k9]) (simp, code_simp)
  have k11: "?K 11 = (0xe720c4305285255b, 0x753e7a7c6660459e)"
    by (rule SPECK128_key_state_step [OF k10]) (simp, code_simp)
  have k12: "?K 12 = (0xd1259b4096b2cac8, 0x78d648a3a5b0e63b)"
    by (rule SPECK128_key_state_step [OF k11]) (simp, code_simp)
  have k13: "?K 13 = (0x41a76e3ee6479909, 0x87152b23cbc0a8d2)"
    by (rule SPECK128_key_state_step [OF k12]) (simp, code_simp)
  have k14: "?K 14 = (0x9056d2920aa6f066, 0xa8ff8b8c54a3b6f2)"
    by (rule SPECK128_key_state_step [OF k13]) (simp, code_simp)
  have k15: "?K 15 = (0x0f8fe25ee6ae5dec, 0x4873be3c43b3ea79)"
    by (rule SPECK128_key_state_step [OF k14]) (simp, code_simp)
  have k16: "?K 16 = (0x34834e1ea29a98d9, 0x771ebffcbf05cb13)"
    by (rule SPECK128_key_state_step [OF k15]) (simp, code_simp)
  have k17: "?K 17 = (0x5053434adda865bb, 0xe8a6bcaf25863d20)"
    by (rule SPECK128_key_state_step [OF k16]) (simp, code_simp)
  have k18: "?K 18 = (0xa3f70ff27063e594, 0xe6c2ea8b5c520c93)"
    by (rule SPECK128_key_state_step [OF k17]) (simp, code_simp)
  have k19: "?K 19 = (0x7b66e19b4ec2706a, 0x4d71b5c1ac5214f5)"
    by (rule SPECK128_key_state_step [OF k18]) (simp, code_simp)
  have k20: "?K 20 = (0xb7ed1ca347a0d776, 0xdc60b2ae253070dc)"
    by (rule SPECK128_key_state_step [OF k19]) (simp, code_simp)
  have k21: "?K 21 = (0x53189fcac87811a7, 0xb01d0abbe1fb9741)"
    by (rule SPECK128_key_state_step [OF k20]) (simp, code_simp)
  have k22: "?K 22 = (0x5770235bacc40f47, 0xd7987684a318b54a)"
    by (rule SPECK128_key_state_step [OF k21]) (simp, code_simp)
  have k23: "?K 23 = (0x1eefe6a7fec5794f, 0xa22c5282e600d319)"
    by (rule SPECK128_key_state_step [OF k22]) (simp, code_simp)
  have k24: "?K 24 = (0xf14b42698dff9885, 0xe029d67ebdf90048)"
    by (rule SPECK128_key_state_step [OF k23]) (simp, code_simp)
  have k25: "?K 25 = (0x661b21c12786fff8, 0x67559234c84efdbf)"
    by (rule SPECK128_key_state_step [OF k24]) (simp, code_simp)
  have k26: "?K 26 = (0x5fbbad56897684a7, 0x65173cf0cb01695c)"
    by (rule SPECK128_key_state_step [OF k25]) (simp, code_simp)
  have k27: "?K 27 = (0x0c76f89e218adffa, 0x24cf1f1879819519)"
    by (rule SPECK128_key_state_step [OF k26]) (simp, code_simp)
  have k28: "?K 28 = (0x1edb961117a31fe3, 0x38a36ed2dbafb72a)"
    by (rule SPECK128_key_state_step [OF k27]) (simp, code_simp)
  have k29: "?K 29 = (0x1bc24a68ecc75a55, 0xded93cfe31bae304)"
    by (rule SPECK128_key_state_step [OF k28]) (simp, code_simp)
  have k30: "?K 30 = (0x33f4ff489aa7aa43, 0xc53d18b91770b265)"
    by (rule SPECK128_key_state_step [OF k29]) (simp, code_simp)
  have k31: "?K 31 = (0x08710db8600b5a11, 0x2199c870db8ec93f)"
    by (rule SPECK128_key_state_step [OF k30]) (simp, code_simp)
  have e0: "?E 0 = (0x6c61766975716520, 0x7469206564616d20)"
    by simp
  have e1: "?E 1 = (0x93d384dfced4df85, 0x309a87f4eddfb686)"
    by (rule speck_enc_step [OF e0 _ k0]) (simp, code_simp)
  have e2: "?E 2 = (0x810b6048dab3886c, 0x05df5fefb44e3c5d)"
    by (rule speck_enc_step [OF e1 _ k1]) (simp, code_simp)
  have e3: "?E 3 = (0x8b7de2836dece7b9, 0xa5871dfecf9d0551)"
    by (rule speck_enc_step [OF e2 _ k2]) (simp, code_simp)
  have e4: "?E 4 = (0x99a36b9901c684b1, 0xb59b846f7d2eae3c)"
    by (rule speck_enc_step [OF e3 _ k3]) (simp, code_simp)
  have e5: "?E 5 = (0x667aea2feff2a230, 0xcaa6c9540687d3d5)"
    by (rule speck_enc_step [OF e4 _ k4]) (simp, code_simp)
  have e6: "?E 6 = (0x4ef7a5dac85309a1, 0x1bc1ef7afc6d970f)"
    by (rule speck_enc_step [OF e5 _ k5]) (simp, code_simp)
  have e7: "?E 7 = (0x1e7d8e74674696e6, 0xc072f5a3842a2e9e)"
    by (rule speck_enc_step [OF e6 _ k6]) (simp, code_simp)
  have e8: "?E 8 = (0x53801a2f58be40c7, 0x5017b73379ef3431)"
    by (rule speck_enc_step [OF e7 _ k7]) (simp, code_simp)
  have e9: "?E 9 = (0x441f9cfaf36cb72c, 0xc4a225613c1516a6)"
    by (rule speck_enc_step [OF e8 _ k8]) (simp, code_simp)
  have e10: "?E 10 = (0x7d33b2de7ad431f8, 0x582299d79a7c84ce)"
    by (rule speck_enc_step [OF e9 _ k9]) (simp, code_simp)
  have e11: "?E 11 = (0xe2dc1a43fe6bf4e7, 0x23c8d4ff2d8fd295)"
    by (rule speck_enc_step [OF e10 _ k10]) (simp, code_simp)
  have e12: "?E 12 = (0x7e95cb6517ee7b17, 0x60d36c9c7b90efbe)"
    by (rule speck_enc_step [OF e11 _ k11]) (simp, code_simp)
  have e13: "?E 13 = (0x00844ac445183802, 0x061f2e27999f45f1)"
    by (rule speck_enc_step [OF e12 _ k12]) (simp, code_simp)
  have e14: "?E 14 = (0x8f0a99519624f6fb, 0xbff3e86d5aded973)"
    by (rule speck_enc_step [OF e13 _ k13]) (simp, code_simp)
  have e15: "?E 15 = (0x137d788af8d7489b, 0xece23be02e218306)"
    by (rule speck_enc_step [OF e14 _ k14]) (simp, code_simp)
  have e16: "?E 16 = (0xcf860764faa9b037, 0xa897d8658ba5a800)"
    by (rule speck_enc_step [OF e15 _ k15]) (simp, code_simp)
  have e17: "?E 17 = (0x9779e1904fa59aa3, 0xd3c722bc1288daa6)"
    by (rule speck_enc_step [OF e16 _ k16]) (simp, code_simp)
  have e18: "?E 18 = (0x9ff82032875ebd60, 0x01c135d213186856)"
    by (rule speck_enc_step [OF e17 _ k17]) (simp, code_simp)
  have e19: "?E 19 = (0x84a3c77919cdcb80, 0x8aaa69e9810e8930)"
    by (rule speck_enc_step [OF e18 _ k18]) (simp, code_simp)
  have e20: "?E 20 = (0x465eb871567a420e, 0x130df73d5e0e0b8a)"
    by (rule speck_enc_step [OF e19 _ k19]) (simp, code_simp)
  have e21: "?E 21 = (0xfd34e75bea54f510, 0x655b5eb11a24a940)"
    by (rule speck_enc_step [OF e20 _ k20]) (simp, code_simp)
  have e22: "?E 22 = (0xc645992397f56974, 0xec9f6cab46d02377)"
    by (rule speck_enc_step [OF e21 _ k21]) (simp, code_simp)
  have e23: "?E 23 = (0xb6fdc4c0c970adaa, 0xd206a19afff1b615)"
    by (rule speck_enc_step [OF e22 _ k22]) (simp, code_simp)
  have e24: "?E 24 = (0xde91cddd26bbf5db, 0x4ea4c10ad9364575)"
    by (rule speck_enc_step [OF e23 _ k23]) (simp, code_simp)
  have e25: "?E 25 = (0xcaaa84a60ba40122, 0xbf8c8cf0c2162a88)"
    by (rule speck_enc_step [OF e24 _ k24]) (simp, code_simp)
  have e26: "?E 26 = (0x8502a541a06f3336, 0x7966c2c7b0de6773)"
    by (rule speck_enc_step [OF e25 _ k25]) (simp, code_simp)
  have e27: "?E 27 = (0xcafcf99c397fbffa, 0x01caefa1bf8c8461)"
    by (rule speck_enc_step [OF e26 _ k26]) (simp, code_simp)
  have e28: "?E 28 = (0xd85af38322479139, 0xd60d8e8ede23b231)"
    by (rule speck_enc_step [OF e27 _ k27]) (simp, code_simp)
  have e29: "?E 29 = (0x37468750baea4ee8, 0x872af3264bf7df66)"
    by (rule speck_enc_step [OF e28 _ k28]) (simp, code_simp)
  have e30: "?E 30 = (0xb1bb0553ad082ab0, 0x88ec9c61f2b6d184)"
    by (rule speck_enc_step [OF e29 _ k29]) (simp, code_simp)
  have e31: "?E 31 = (0xfca34fde51136bcb, 0xbbc7acd1c4a5e7ef)"
    by (rule speck_enc_step [OF e30 _ k30]) (simp, code_simp)
  have e32: "?E 32 = (0xa65d985179783265, 0x7860fedf5c570d18)"
    by (rule speck_enc_step [OF e31 _ k31]) (simp, code_simp)
  from e32 show ?thesis .
qed

section \<open>The driver's loops in closed form\<close>

lemma six_blocks_loop_closed:
  "six_blocks_loop fl f6 n s =
     (if BT_AllowParallel fl then (n mod 96, (six_blocks_step fl f6 ^^ (n div 96)) s)
      else (n, s))"
proof (induction fl f6 n s rule: six_blocks_loop.induct)
  case (1 fl f6 n s)
  show ?case
  proof (cases "n \<ge> 6 * 16 \<and> BT_AllowParallel fl")
    case True
    then have d: "n div 96 = Suc ((n - 96) div 96)" and m: "n mod 96 = (n - 96) mod 96"
      by (simp_all add: le_div_geq le_mod_geq)
    have "six_blocks_loop fl f6 n s
            = six_blocks_loop fl f6 (n - 96) (six_blocks_step fl f6 s)"
      using True by (simp add: six_blocks_loop.simps [of fl f6 n])
    also have "\<dots> = ((n - 96) mod 96,
                      (six_blocks_step fl f6 ^^ ((n - 96) div 96)) (six_blocks_step fl f6 s))"
      using "1.IH" [OF True] True by simp
    finally show ?thesis
      using True by (simp add: d m funpow_swap1)
  next
    case False
    then show ?thesis
      by (auto simp: six_blocks_loop.simps [of fl f6 n])
  qed
qed

lemma two_blocks_loop_closed:
  "two_blocks_loop fl f2 n s = (n mod 32, (two_blocks_step fl f2 ^^ (n div 32)) s)"
proof (induction fl f2 n s rule: two_blocks_loop.induct)
  case (1 fl f2 n s)
  show ?case
  proof (cases "n \<ge> 2 * 16")
    case True
    then have d: "n div 32 = Suc ((n - 32) div 32)" and m: "n mod 32 = (n - 32) mod 32"
      by (simp_all add: le_div_geq le_mod_geq)
    have "two_blocks_loop fl f2 n s
            = two_blocks_loop fl f2 (n - 32) (two_blocks_step fl f2 s)"
      using True by (simp add: two_blocks_loop.simps [of fl f2 n])
    also have "\<dots> = ((n - 32) mod 32,
                      (two_blocks_step fl f2 ^^ ((n - 32) div 32)) (two_blocks_step fl f2 s))"
      using "1.IH" [OF True] by simp
    finally show ?thesis
      by (simp add: d m funpow_swap1)
  next
    case False
    then show ?thesis
      by (simp add: two_blocks_loop.simps [of fl f2 n])
  qed
qed

lemma one_block_loop_closed:
  "one_block_loop fl f2 n s = (n mod 16, (one_block_step fl f2 ^^ (n div 16)) s)"
proof (induction fl f2 n s rule: one_block_loop.induct)
  case (1 fl f2 n s)
  show ?case
  proof (cases "n \<ge> 16")
    case True
    then have d: "n div 16 = Suc ((n - 16) div 16)" and m: "n mod 16 = (n - 16) mod 16"
      by (simp_all add: le_div_geq le_mod_geq)
    have "one_block_loop fl f2 n s
            = one_block_loop fl f2 (n - 16) (one_block_step fl f2 s)"
      using True by (simp add: one_block_loop.simps [of fl f2 n])
    also have "\<dots> = ((n - 16) mod 16,
                      (one_block_step fl f2 ^^ ((n - 16) div 16)) (one_block_step fl f2 s))"
      using "1.IH" [OF True] by simp
    finally show ?thesis
      by (simp add: d m funpow_swap1)
  next
    case False
    then show ?thesis
      by (simp add: one_block_loop.simps [of fl f2 n])
  qed
qed

subsection \<open>Byte counts and block counts\<close>

lemma mod_div_16: "(x::nat) mod (16 * k) div 16 = x div 16 mod k"
  by (simp add: mod_mult2_eq)

lemma block_count_96: "(n::nat) div 96 = n div 16 div 6"
  using div_mult2_eq [of n 16 6] by simp

lemma block_count_32: "(n::nat) div 32 = n div 16 div 2"
  using div_mult2_eq [of n 16 2] by simp

lemma block_count_96_16: "(n::nat) mod 96 div 16 = n div 16 mod 6"
  using mod_div_16 [of n 6] by simp

lemma block_count_32_16: "(n::nat) mod 32 div 16 = n div 16 mod 2"
  using mod_div_16 [of n 2] by simp

lemma block_count_96_32: "(n::nat) mod 96 div 32 = n div 16 mod 6 div 2"
  by (simp add: block_count_32 block_count_96_16)

lemma block_count_96_32_16: "(n::nat) mod 96 mod 32 div 16 = n div 16 mod 6 mod 2"
  by (simp add: block_count_32_16 block_count_96_16)

lemma tail_96: "(n::nat) mod 96 mod 32 mod 16 = n mod 16"
  by (simp add: mod_mod_cancel)

lemma tail_32: "(n::nat) mod 32 mod 16 = n mod 16"
  by (simp add: mod_mod_cancel)

lemma blocks_sum_6: "6 * ((q::nat) div 6) + 2 * (q mod 6 div 2) + q mod 6 mod 2 = q"
  by presburger

lemma blocks_sum_2: "2 * ((q::nat) div 2) + q mod 2 = q"
  by simp

lemma whole_blocks_div: "((n::nat) - n mod 16) div 16 = n div 16"
  by presburger

lemma stride_sum_6:
  "(q::nat) = 6 * a + 2 * b + c \<Longrightarrow>
     int a * (6 * st) + int b * (2 * st) + int c * st = int q * st"
  by (simp add: algebra_simps)

lemma stride_sum_2:
  "(q::nat) = 2 * a + b \<Longrightarrow> int a * (2 * st) + int b * st = int q * st"
  by (simp add: algebra_simps)

lemma process_whole_blocks_0: "process_whole_blocks f2 f6 fl 0 s = s"
  by (simp add: process_whole_blocks_def)

lemma advanced_process_blocks_closed:
  "advanced_process_blocks f2 f6 fl s n = (n mod 16, process_whole_blocks f2 f6 fl (n div 16) s)"
proof (cases "BT_AllowParallel fl")
  case True
  have "advanced_process_blocks f2 f6 fl s n
          = (n mod 96 mod 32 mod 16,
             (one_block_step fl f2 ^^ (n mod 96 mod 32 div 16))
               ((two_blocks_step fl f2 ^^ (n mod 96 div 32))
                  ((six_blocks_step fl f6 ^^ (n div 96)) s)))"
    using True
    by (simp add: advanced_process_blocks_def six_blocks_loop_closed two_blocks_loop_closed
        one_block_loop_closed)
  then show ?thesis
    using True
    unfolding tail_96 block_count_96_32_16 block_count_96_32 block_count_96
    by (simp add: process_whole_blocks_def)
next
  case False
  have "advanced_process_blocks f2 f6 fl s n
          = (n mod 32 mod 16,
             (one_block_step fl f2 ^^ (n mod 32 div 16))
               ((two_blocks_step fl f2 ^^ (n div 32)) s))"
    using False
    by (simp add: advanced_process_blocks_def six_blocks_loop_closed two_blocks_loop_closed
        one_block_loop_closed)
  then show ?thesis
    using False
    unfolding tail_32 block_count_32_16 block_count_32
    by (simp add: process_whole_blocks_def)
qed

subsection \<open>The output pointer counts the blocks\<close>

lemma out_blocks_fetch: "out_blocks (snd (fetch_block fl s)) = out_blocks s"
  by (simp add: fetch_block_def Let_def)

lemma out_blocks_emit: "out_blocks (emit_block fl c s) = out_blocks s + stride fl"
  by (simp add: emit_block_def Let_def)

lemma out_blocks_six: "out_blocks (six_blocks_step fl f6 s) = out_blocks s + 6 * stride fl"
  by (simp add: six_blocks_step_def Let_def out_blocks_emit split: prod.splits)
    (metis out_blocks_fetch snd_conv)

lemma out_blocks_two: "out_blocks (two_blocks_step fl f2 s) = out_blocks s + 2 * stride fl"
  by (simp add: two_blocks_step_def Let_def out_blocks_emit split: prod.splits)
    (metis out_blocks_fetch snd_conv)

lemma out_blocks_one: "out_blocks (one_block_step fl f2 s) = out_blocks s + stride fl"
  by (simp add: one_block_step_def Let_def out_blocks_emit split: prod.splits)
    (metis out_blocks_fetch snd_conv)

lemma out_blocks_funpow:
  fixes f :: "driver_state \<Rightarrow> driver_state"
  assumes "\<And>s. out_blocks (f s) = out_blocks s + c"
  shows "out_blocks ((f ^^ k) s) = out_blocks s + int k * c"
  by (induction k) (simp_all add: assms algebra_simps)

lemma out_blocks_process_whole_blocks:
  "out_blocks (process_whole_blocks f2 f6 fl q s) = out_blocks s + int q * stride fl"
proof (cases "BT_AllowParallel fl")
  case True
  have "out_blocks (process_whole_blocks f2 f6 fl q s)
          = out_blocks s + (int (q div 6) * (6 * stride fl)
              + int (q mod 6 div 2) * (2 * stride fl) + int (q mod 6 mod 2) * stride fl)"
    using True
    by (simp add: process_whole_blocks_def out_blocks_funpow [OF out_blocks_six]
        out_blocks_funpow [OF out_blocks_two] out_blocks_funpow [OF out_blocks_one])
  then show ?thesis
    unfolding stride_sum_6 [OF blocks_sum_6 [symmetric]] .
next
  case False
  have "out_blocks (process_whole_blocks f2 f6 fl q s)
          = out_blocks s + (int (q div 2) * (2 * stride fl) + int (q mod 2) * stride fl)"
    using False
    by (simp add: process_whole_blocks_def out_blocks_funpow [OF out_blocks_two]
        out_blocks_funpow [OF out_blocks_one])
  then show ?thesis
    unfolding stride_sum_2 [OF blocks_sum_2 [symmetric]] .
qed

section \<open>The claims\<close>

text \<open>
  C6. For every 128-bit vector, the byte-permute specialization of the rotation by 8
  gives the same vector as the generic shift-shift-or template instantiated at 8, to the
  left and to the right, on the SSSE3 and on the NEON backend.
\<close>

theorem rotate8_specialization_eq_generic:
  "RotateLeft64_8_SSE v = RotateLeft64_SSE 8 v \<and>
   RotateRight64_8_SSE v = RotateRight64_SSE 8 v \<and>
   RotateLeft64_8_NEON v = RotateLeft64_NEON 8 v \<and>
   RotateRight64_8_NEON v = RotateRight64_NEON 8 v \<and>
   RotateLeft64_SSE 8 v = Vec (push_bit 8 (lane0 v) OR drop_bit 56 (lane0 v))
                              (push_bit 8 (lane1 v) OR drop_bit 56 (lane1 v)) \<and>
   RotateRight64_SSE 8 v = Vec (push_bit 56 (lane0 v) OR drop_bit 8 (lane0 v))
                               (push_bit 56 (lane1 v) OR drop_bit 8 (lane1 v))"
  by (simp add: RotateLeft64_8_SSE_lanes RotateRight64_8_SSE_lanes
      RotateLeft64_8_NEON_lanes RotateRight64_8_NEON_lanes
      RotateLeft64_SSE_lanes RotateRight64_SSE_lanes
      RotateLeft64_NEON_lanes RotateRight64_NEON_lanes
      rotl_generic [of 8, simplified] rotr_generic [of 8, simplified])

text \<open>
  C1. Round trip. For every key schedule \<open>k\<close>, every pair of blocks and every rounds
  count up to \<open>2^31\<close> (SPECK-128; the interface admits 32, 33, 34) or between 2 and
  \<open>2^31\<close> (SIMON-128; the interface admits 68, 69, 72), the decryption kernel applied to
  the output of the encryption kernel returns the input blocks. Each kernel reads the
  schedule in its own layout: on SSSE3 the encryption kernels read the pre-splatted layout
  and the decryption kernels the scalar layout, on NEON both read the scalar layout.
\<close>

theorem encrypt_decrypt_roundtrip:
  assumes "unat rs \<le> 2 ^ 31" and "2 \<le> unat rm" and "unat rm \<le> 2 ^ 31"
  shows
    "(case SPECK128_Enc_Block_SSE A B (presplatted_layout k) rs of
        (c0, c1) \<Rightarrow> SPECK128_Dec_Block_SSE c0 c1 (scalar_layout k) rs) = (A, B) \<and>
     (case SPECK128_Enc_Block_NEON A B (scalar_layout k) rs of
        (c0, c1) \<Rightarrow> SPECK128_Dec_Block_NEON c0 c1 (scalar_layout k) rs) = (A, B) \<and>
     (case SIMON128_Enc_Block_SSE A B (presplatted_layout k) rm of
        None \<Rightarrow> None
      | Some (c0, c1) \<Rightarrow> Some (SIMON128_Dec_Block_SSE c0 c1 (scalar_layout k) rm))
       = Some (A, B) \<and>
     (case SIMON128_Enc_Block_NEON A B (scalar_layout k) rm of
        None \<Rightarrow> None
      | Some (c0, c1) \<Rightarrow> Some (SIMON128_Dec_Block_NEON c0 c1 (scalar_layout k) rm))
       = Some (A, B)"
  using assms
  by (simp add: SPECK128_Enc_Block_SSE_ref SPECK128_Dec_Block_SSE_ref
      SPECK128_Enc_Block_NEON_ref SPECK128_Dec_Block_NEON_ref
      SIMON128_Enc_Block_SSE_ref SIMON128_Dec_Block_SSE_ref
      SIMON128_Enc_Block_NEON_ref SIMON128_Dec_Block_NEON_ref
      lane_keys_presplatted scalar_layout_eq on_block_on_block
      speck_dec_enc simon_dec_enc on_block_id)

theorem encrypt_decrypt_roundtrip_witness:
  "unat (32 :: 32 word) \<le> 2 ^ 31 \<and> 2 \<le> unat (69 :: 32 word) \<and> unat (69 :: 32 word) \<le> 2 ^ 31 \<and>
   (case SPECK128_Enc_Block_SSE example_block0 example_block1
           (presplatted_layout example_schedule) 32 of
      (c0, c1) \<Rightarrow> SPECK128_Dec_Block_SSE c0 c1 (scalar_layout example_schedule) 32)
     = (example_block0, example_block1) \<and>
   (case SIMON128_Enc_Block_NEON example_block0 example_block1
           (scalar_layout example_schedule) 69 of
      None \<Rightarrow> None
    | Some (c0, c1) \<Rightarrow> Some (SIMON128_Dec_Block_NEON c0 c1 (scalar_layout example_schedule) 69))
     = Some (example_block0, example_block1)"
  using encrypt_decrypt_roundtrip [where rs = 32 and rm = 69 and A = example_block0
      and B = example_block1 and k = example_schedule]
  by simp

text \<open>
  C3. One iteration of the SPECK-128 loops. In the encryption loop, iteration \<open>i\<close> replaces
  the state \<open>(x, y)\<close> of each lane by \<open>x' = (rotr64<8>(x) + y) \<oplus> k[i]\<close>,
  \<open>y' = rotl64<3>(y) \<oplus> x'\<close>; in the decryption loop, iteration \<open>j\<close> replaces it by
  \<open>y' = rotr64<3>(y \<oplus> x)\<close>, \<open>x' = rotl64<8>((x \<oplus> k[j]) - y')\<close>, with the arithmetic of
  64-bit words; the SSSE3 encryption loop takes the keys of its two lanes from the two
  words at \<open>subkeys + i*2\<close>. The encryption loop leaves the state as it is once the
  index has reached the bound, and the kernel runs it from 0 to \<open>rounds\<close> on the
  transposed blocks. The decryption loop leaves the state as it is below index 0, and the
  kernel runs it from \<open>rounds - 1\<close> down, for a rounds count up to \<open>2^31\<close>.
\<close>

theorem speck_loop_iteration:
  assumes "i < n" and "unat (rounds :: 32 word) \<le> 2 ^ 31"
  shows
    "SPECK128_Enc_Block_loop_SSE i n (presplatted_layout k) (Vec xa xb, Vec ya yb) =
       SPECK128_Enc_Block_loop_SSE (i + 1) n (presplatted_layout k)
         (Vec ((word_rotr 8 xa + ya) XOR k i) ((word_rotr 8 xb + yb) XOR k i),
          Vec (word_rotl 3 ya XOR ((word_rotr 8 xa + ya) XOR k i))
              (word_rotl 3 yb XOR ((word_rotr 8 xb + yb) XOR k i))) \<and>
     SPECK128_Enc_Block_loop_NEON i n (scalar_layout k) (Vec xa xb, Vec ya yb) =
       SPECK128_Enc_Block_loop_NEON (i + 1) n (scalar_layout k)
         (Vec ((word_rotr 8 xa + ya) XOR k i) ((word_rotr 8 xb + yb) XOR k i),
          Vec (word_rotl 3 ya XOR ((word_rotr 8 xa + ya) XOR k i))
              (word_rotl 3 yb XOR ((word_rotr 8 xb + yb) XOR k i))) \<and>
     SPECK128_Enc_Block_loop_SSE i n K (Vec xa xb, Vec ya yb) =
       SPECK128_Enc_Block_loop_SSE (i + 1) n K
         (Vec ((word_rotr 8 xa + ya) XOR K (i * 2)) ((word_rotr 8 xb + yb) XOR K (i * 2 + 1)),
          Vec (word_rotl 3 ya XOR ((word_rotr 8 xa + ya) XOR K (i * 2)))
              (word_rotl 3 yb XOR ((word_rotr 8 xb + yb) XOR K (i * 2 + 1)))) \<and>
     SPECK128_Enc_Block_loop_SSE (n + d) n K s = s \<and>
     SPECK128_Enc_Block_loop_NEON (n + d) n K s = s \<and>
     SPECK128_Enc_Block_SSE (Vec ya xa) (Vec yb xb) K rounds =
       (case SPECK128_Enc_Block_loop_SSE 0 (unat rounds) K (Vec xa xb, Vec ya yb) of
          (x, y) \<Rightarrow> (Vec (lane0 y) (lane0 x), Vec (lane1 y) (lane1 x))) \<and>
     SPECK128_Enc_Block_NEON (Vec ya xa) (Vec yb xb) K rounds =
       (case SPECK128_Enc_Block_loop_NEON 0 (unat rounds) K (Vec xa xb, Vec ya yb) of
          (x, y) \<Rightarrow> (Vec (lane0 y) (lane0 x), Vec (lane1 y) (lane1 x))) \<and>
     SPECK128_Dec_Block_loop_SSE (int j) (scalar_layout k) (Vec xa xb, Vec ya yb) =
       SPECK128_Dec_Block_loop_SSE (int j - 1) (scalar_layout k)
         (Vec (word_rotl 8 ((xa XOR k j) - word_rotr 3 (ya XOR xa)))
              (word_rotl 8 ((xb XOR k j) - word_rotr 3 (yb XOR xb))),
          Vec (word_rotr 3 (ya XOR xa)) (word_rotr 3 (yb XOR xb))) \<and>
     SPECK128_Dec_Block_loop_NEON (int j) (scalar_layout k) (Vec xa xb, Vec ya yb) =
       SPECK128_Dec_Block_loop_NEON (int j - 1) (scalar_layout k)
         (Vec (word_rotl 8 ((xa XOR k j) - word_rotr 3 (ya XOR xa)))
              (word_rotl 8 ((xb XOR k j) - word_rotr 3 (yb XOR xb))),
          Vec (word_rotr 3 (ya XOR xa)) (word_rotr 3 (yb XOR xb))) \<and>
     SPECK128_Dec_Block_loop_SSE (- 1 - int d) K s = s \<and>
     SPECK128_Dec_Block_loop_NEON (- 1 - int d) K s = s \<and>
     SPECK128_Dec_Block_SSE (Vec ya xa) (Vec yb xb) K rounds =
       (case SPECK128_Dec_Block_loop_SSE (int (unat rounds) - 1) K (Vec xa xb, Vec ya yb) of
          (x, y) \<Rightarrow> (Vec (lane0 y) (lane0 x), Vec (lane1 y) (lane1 x))) \<and>
     SPECK128_Dec_Block_NEON (Vec ya xa) (Vec yb xb) K rounds =
       (case SPECK128_Dec_Block_loop_NEON (int (unat rounds) - 1) K (Vec xa xb, Vec ya yb) of
          (x, y) \<Rightarrow> (Vec (lane0 y) (lane0 x), Vec (lane1 y) (lane1 x)))"
proof -
  have e: "lanes2 (speck_enc_round (k i)) (speck_enc_round (k i)) (Vec xa xb, Vec ya yb) =
      (Vec ((word_rotr 8 xa + ya) XOR k i) ((word_rotr 8 xb + yb) XOR k i),
       Vec (word_rotl 3 ya XOR ((word_rotr 8 xa + ya) XOR k i))
           (word_rotl 3 yb XOR ((word_rotr 8 xb + yb) XOR k i)))"
    by (simp add: lanes2_def speck_enc_round_def Let_def)
  have d: "lanes (speck_dec_round (k j)) (Vec xa xb, Vec ya yb) =
      (Vec (word_rotl 8 ((xa XOR k j) - word_rotr 3 (ya XOR xa)))
           (word_rotl 8 ((xb XOR k j) - word_rotr 3 (yb XOR xb))),
       Vec (word_rotr 3 (ya XOR xa)) (word_rotr 3 (yb XOR xb)))"
    by (simp add: lanes_def lanes2_def speck_dec_round_def Let_def)
  have es: "SPECK128_Enc_Block_loop_SSE i n (presplatted_layout k) (Vec xa xb, Vec ya yb) =
       SPECK128_Enc_Block_loop_SSE (i + 1) n (presplatted_layout k)
         (Vec ((word_rotr 8 xa + ya) XOR k i) ((word_rotr 8 xb + yb) XOR k i),
          Vec (word_rotl 3 ya XOR ((word_rotr 8 xa + ya) XOR k i))
              (word_rotl 3 yb XOR ((word_rotr 8 xb + yb) XOR k i)))"
    using SPECK128_Enc_Block_loop_SSE_step [OF assms(1), of "presplatted_layout k"
        "(Vec xa xb, Vec ya yb)"]
    by (simp only: lane_keys_presplatted e)
  have en: "SPECK128_Enc_Block_loop_NEON i n (scalar_layout k) (Vec xa xb, Vec ya yb) =
       SPECK128_Enc_Block_loop_NEON (i + 1) n (scalar_layout k)
         (Vec ((word_rotr 8 xa + ya) XOR k i) ((word_rotr 8 xb + yb) XOR k i),
          Vec (word_rotl 3 ya XOR ((word_rotr 8 xa + ya) XOR k i))
              (word_rotl 3 yb XOR ((word_rotr 8 xb + yb) XOR k i)))"
    using SPECK128_Enc_Block_loop_NEON_step [OF assms(1), of "scalar_layout k"
        "(Vec xa xb, Vec ya yb)"]
    by (simp only: scalar_layout_eq e)
  have eg: "SPECK128_Enc_Block_loop_SSE i n K (Vec xa xb, Vec ya yb) =
       SPECK128_Enc_Block_loop_SSE (i + 1) n K
         (Vec ((word_rotr 8 xa + ya) XOR K (i * 2)) ((word_rotr 8 xb + yb) XOR K (i * 2 + 1)),
          Vec (word_rotl 3 ya XOR ((word_rotr 8 xa + ya) XOR K (i * 2)))
              (word_rotl 3 yb XOR ((word_rotr 8 xb + yb) XOR K (i * 2 + 1))))"
    unfolding SPECK128_Enc_Block_loop_SSE_step [OF assms(1), of K "(Vec xa xb, Vec ya yb)"]
    by (simp add: lanes2_def speck_enc_round_def lane_keys_def Let_def)
  have xs: "SPECK128_Enc_Block_loop_SSE (n + d) n K s = s" for d
    by (cases s) (simp add: SPECK128_Enc_Block_loop_SSE.simps [of "n + d"])
  have xn: "SPECK128_Enc_Block_loop_NEON (n + d) n K s = s" for d
    by (cases s) (simp add: SPECK128_Enc_Block_loop_NEON.simps [of "n + d"])
  have ks: "SPECK128_Enc_Block_SSE (Vec ya xa) (Vec yb xb) K rounds =
       (case SPECK128_Enc_Block_loop_SSE 0 (unat rounds) K (Vec xa xb, Vec ya yb) of
          (x, y) \<Rightarrow> (Vec (lane0 y) (lane0 x), Vec (lane1 y) (lane1 x)))"
    by (simp add: SPECK128_Enc_Block_SSE_def sse_defs Let_def split: prod.splits)
  have kn: "SPECK128_Enc_Block_NEON (Vec ya xa) (Vec yb xb) K rounds =
       (case SPECK128_Enc_Block_loop_NEON 0 (unat rounds) K (Vec xa xb, Vec ya yb) of
          (x, y) \<Rightarrow> (Vec (lane0 y) (lane0 x), Vec (lane1 y) (lane1 x)))"
    by (simp add: SPECK128_Enc_Block_NEON_def neon_defs Let_def split: prod.splits)
  have ds: "SPECK128_Dec_Block_loop_SSE (int j) (scalar_layout k) (Vec xa xb, Vec ya yb) =
       SPECK128_Dec_Block_loop_SSE (int j - 1) (scalar_layout k)
         (Vec (word_rotl 8 ((xa XOR k j) - word_rotr 3 (ya XOR xa)))
              (word_rotl 8 ((xb XOR k j) - word_rotr 3 (yb XOR xb))),
          Vec (word_rotr 3 (ya XOR xa)) (word_rotr 3 (yb XOR xb)))"
    using SPECK128_Dec_Block_loop_SSE_step [of j "scalar_layout k" "(Vec xa xb, Vec ya yb)"]
    by (simp only: scalar_layout_eq d)
  have dn: "SPECK128_Dec_Block_loop_NEON (int j) (scalar_layout k) (Vec xa xb, Vec ya yb) =
       SPECK128_Dec_Block_loop_NEON (int j - 1) (scalar_layout k)
         (Vec (word_rotl 8 ((xa XOR k j) - word_rotr 3 (ya XOR xa)))
              (word_rotl 8 ((xb XOR k j) - word_rotr 3 (yb XOR xb))),
          Vec (word_rotr 3 (ya XOR xa)) (word_rotr 3 (yb XOR xb)))"
    using SPECK128_Dec_Block_loop_NEON_step [of j "scalar_layout k" "(Vec xa xb, Vec ya yb)"]
    by (simp only: scalar_layout_eq d)
  have zs: "SPECK128_Dec_Block_loop_SSE (- 1 - int d) K s = s" for d
    by (cases s) (simp add: SPECK128_Dec_Block_loop_SSE.simps [of "- 1 - int d"])
  have zn: "SPECK128_Dec_Block_loop_NEON (- 1 - int d) K s = s" for d
    by (cases s) (simp add: SPECK128_Dec_Block_loop_NEON.simps [of "- 1 - int d"])
  have st: "sint (rounds - 1) = int (unat rounds) - 1"
    using assms(2) by (rule sint_pred_32)
  have js: "SPECK128_Dec_Block_SSE (Vec ya xa) (Vec yb xb) K rounds =
       (case SPECK128_Dec_Block_loop_SSE (int (unat rounds) - 1) K (Vec xa xb, Vec ya yb) of
          (x, y) \<Rightarrow> (Vec (lane0 y) (lane0 x), Vec (lane1 y) (lane1 x)))"
    unfolding SPECK128_Dec_Block_SSE_def st
    by (simp add: sse_defs Let_def split: prod.splits)
  have jn: "SPECK128_Dec_Block_NEON (Vec ya xa) (Vec yb xb) K rounds =
       (case SPECK128_Dec_Block_loop_NEON (int (unat rounds) - 1) K (Vec xa xb, Vec ya yb) of
          (x, y) \<Rightarrow> (Vec (lane0 y) (lane0 x), Vec (lane1 y) (lane1 x)))"
    unfolding SPECK128_Dec_Block_NEON_def st
    by (simp add: neon_defs Let_def split: prod.splits)
  show ?thesis
    by (intro conjI es en eg xs xn ks kn ds dn zs zn js jn)
qed

theorem speck_loop_iteration_witness:
  "(0 :: nat) < 32 \<and> unat (32 :: 32 word) \<le> 2 ^ 31 \<and>
   SPECK128_Enc_Block_loop_SSE 0 32 (presplatted_layout example_schedule) (Vec 1 2, Vec 3 4) =
     SPECK128_Enc_Block_loop_SSE (0 + 1) 32 (presplatted_layout example_schedule)
       (Vec ((word_rotr 8 1 + 3) XOR example_schedule 0)
            ((word_rotr 8 2 + 4) XOR example_schedule 0),
        Vec (word_rotl 3 3 XOR ((word_rotr 8 1 + 3) XOR example_schedule 0))
            (word_rotl 3 4 XOR ((word_rotr 8 2 + 4) XOR example_schedule 0))) \<and>
   SPECK128_Enc_Block_loop_SSE (32 + 0) 32 example_schedule (Vec 1 2, Vec 3 4)
     = (Vec 1 2, Vec 3 4) \<and>
   SPECK128_Dec_Block_SSE (Vec 3 1) (Vec 4 2) example_schedule 32 =
     (case SPECK128_Dec_Block_loop_SSE (int (unat (32 :: 32 word)) - 1) example_schedule
             (Vec 1 2, Vec 3 4) of
        (x, y) \<Rightarrow> (Vec (lane0 y) (lane0 x), Vec (lane1 y) (lane1 x)))"
  using speck_loop_iteration [where i = 0 and n = 32 and rounds = 32 and d = 0
      and k = example_schedule and K = example_schedule and s = "(Vec 1 2, Vec 3 4)"
      and xa = 1 and xb = 2 and ya = 3 and yb = 4]
  by simp

text \<open>
  C5. Kernel agreement. Every six-block kernel (SPECK-128 and SIMON-128, encryption and
  decryption, SSSE3 and NEON) gives, for every key pointer, rounds count and six blocks,
  exactly what the two-block kernel gives on each of the three block pairs. For the SIMON
  encryption kernels, whose loop may not terminate, the six-block kernel returns if and
  only if the two-block kernel does.
\<close>

theorem six_blocks_agree_with_three_pairs:
  "SPECK128_Enc_6_Blocks_SSE b0 b1 b2 b3 b4 b5 K r =
     (case SPECK128_Enc_Block_SSE b0 b1 K r of (c0, c1) \<Rightarrow>
      case SPECK128_Enc_Block_SSE b2 b3 K r of (c2, c3) \<Rightarrow>
      case SPECK128_Enc_Block_SSE b4 b5 K r of (c4, c5) \<Rightarrow> (c0, c1, c2, c3, c4, c5)) \<and>
   SPECK128_Dec_6_Blocks_SSE b0 b1 b2 b3 b4 b5 K r =
     (case SPECK128_Dec_Block_SSE b0 b1 K r of (c0, c1) \<Rightarrow>
      case SPECK128_Dec_Block_SSE b2 b3 K r of (c2, c3) \<Rightarrow>
      case SPECK128_Dec_Block_SSE b4 b5 K r of (c4, c5) \<Rightarrow> (c0, c1, c2, c3, c4, c5)) \<and>
   SIMON128_Enc_6_Blocks_SSE b0 b1 b2 b3 b4 b5 K r =
     six_of_pairs (SIMON128_Enc_Block_SSE b0 b1 K r) (SIMON128_Enc_Block_SSE b2 b3 K r)
       (SIMON128_Enc_Block_SSE b4 b5 K r) \<and>
   SIMON128_Dec_6_Blocks_SSE b0 b1 b2 b3 b4 b5 K r =
     (case SIMON128_Dec_Block_SSE b0 b1 K r of (c0, c1) \<Rightarrow>
      case SIMON128_Dec_Block_SSE b2 b3 K r of (c2, c3) \<Rightarrow>
      case SIMON128_Dec_Block_SSE b4 b5 K r of (c4, c5) \<Rightarrow> (c0, c1, c2, c3, c4, c5)) \<and>
   SPECK128_Enc_6_Blocks_NEON b0 b1 b2 b3 b4 b5 K r =
     (case SPECK128_Enc_Block_NEON b0 b1 K r of (c0, c1) \<Rightarrow>
      case SPECK128_Enc_Block_NEON b2 b3 K r of (c2, c3) \<Rightarrow>
      case SPECK128_Enc_Block_NEON b4 b5 K r of (c4, c5) \<Rightarrow> (c0, c1, c2, c3, c4, c5)) \<and>
   SPECK128_Dec_6_Blocks_NEON b0 b1 b2 b3 b4 b5 K r =
     (case SPECK128_Dec_Block_NEON b0 b1 K r of (c0, c1) \<Rightarrow>
      case SPECK128_Dec_Block_NEON b2 b3 K r of (c2, c3) \<Rightarrow>
      case SPECK128_Dec_Block_NEON b4 b5 K r of (c4, c5) \<Rightarrow> (c0, c1, c2, c3, c4, c5)) \<and>
   SIMON128_Enc_6_Blocks_NEON b0 b1 b2 b3 b4 b5 K r =
     six_of_pairs (SIMON128_Enc_Block_NEON b0 b1 K r) (SIMON128_Enc_Block_NEON b2 b3 K r)
       (SIMON128_Enc_Block_NEON b4 b5 K r) \<and>
   SIMON128_Dec_6_Blocks_NEON b0 b1 b2 b3 b4 b5 K r =
     (case SIMON128_Dec_Block_NEON b0 b1 K r of (c0, c1) \<Rightarrow>
      case SIMON128_Dec_Block_NEON b2 b3 K r of (c2, c3) \<Rightarrow>
      case SIMON128_Dec_Block_NEON b4 b5 K r of (c4, c5) \<Rightarrow> (c0, c1, c2, c3, c4, c5))"
  by (intro conjI SPECK128_Enc_6_Blocks_SSE_pairs SPECK128_Dec_6_Blocks_SSE_pairs
      SIMON128_Enc_6_Blocks_SSE_pairs SIMON128_Dec_6_Blocks_SSE_pairs
      SPECK128_Enc_6_Blocks_NEON_pairs SPECK128_Dec_6_Blocks_NEON_pairs
      SIMON128_Enc_6_Blocks_NEON_pairs SIMON128_Dec_6_Blocks_NEON_pairs)

text \<open>
  C7. Transpose invertibility. The kernel-entry transpose
  \<open>Xv = unpack_hi64(block0, block1)\<close>, \<open>Yv = unpack_lo64(block0, block1)\<close> followed by
  the kernel-exit detranspose \<open>block0 = unpack_lo64(Yv, Xv)\<close>,
  \<open>block1 = unpack_hi64(Yv, Xv)\<close> gives back \<open>(block0, block1)\<close>, with the NEON helpers
  and with the SSE2 intrinsics; so a kernel run with zero rounds returns its input.
\<close>

theorem transpose_detranspose_identity:
  "(UnpackLow64 (UnpackLow64 A B) (UnpackHigh64 A B),
    UnpackHigh64 (UnpackLow64 A B) (UnpackHigh64 A B)) = (A, B) \<and>
   (mm_unpacklo_epi64 (mm_unpacklo_epi64 A B) (mm_unpackhi_epi64 A B),
    mm_unpackhi_epi64 (mm_unpacklo_epi64 A B) (mm_unpackhi_epi64 A B)) = (A, B) \<and>
   SPECK128_Enc_Block_NEON A B K 0 = (A, B) \<and>
   SPECK128_Enc_Block_SSE A B K 0 = (A, B)"
  by (simp add: neon_defs sse_defs Let_def SPECK128_Enc_Block_NEON_def
      SPECK128_Enc_Block_SSE_def SPECK128_Enc_Block_loop_NEON.simps [of 0]
      SPECK128_Enc_Block_loop_SSE.simps [of 0])

text \<open>
  C4 as stated fails for the odd rounds count 1: the paired loop of the encryption kernel
  has the bound \<open>static_cast<size_t>(1 & ~1) - 1\<close>, which wraps around, and the kernel
  never reaches its final round.
\<close>

theorem simon_odd_rounds_counterexample:
  "SIMON128_Enc_Block_NEON example_block0 example_block1 (scalar_layout example_schedule) 1
     = None"
  by (rule SIMON128_Enc_Block_NEON_diverges) simp

text \<open>
  C4, amended. For every odd rounds count from 3 to \<open>2^31\<close> (69 among them), the SIMON-128
  encryption kernel processes rounds \<open>0..rounds-2\<close> in pairs, then performs the single
  update \<open>y \<leftarrow> y \<oplus> f(x) \<oplus> k[rounds-1]\<close> and swaps \<open>(x, y)\<close>; the decryption kernel first
  swaps \<open>(x, y)\<close>, performs the single round with key \<open>k[rounds-1]\<close>, and then runs the
  pairwise loop over the remaining \<open>rounds-1\<close> rounds; and decryption is the inverse of
  encryption.
\<close>

theorem simon_odd_rounds:
  assumes "odd (unat rounds)" and "3 \<le> unat rounds" and "unat rounds \<le> 2 ^ 31"
  shows
    "SIMON128_Enc_Block_NEON A B (scalar_layout k) rounds =
       Some (on_block (\<lambda>s. swap_halves (simon_update_y (k (unat rounds - 1))
                        (simon_pairs k ((unat rounds - 1) div 2) s))) A,
             on_block (\<lambda>s. swap_halves (simon_update_y (k (unat rounds - 1))
                        (simon_pairs k ((unat rounds - 1) div 2) s))) B) \<and>
     SIMON128_Enc_Block_SSE A B (presplatted_layout k) rounds =
       Some (on_block (\<lambda>s. swap_halves (simon_update_y (k (unat rounds - 1))
                        (simon_pairs k ((unat rounds - 1) div 2) s))) A,
             on_block (\<lambda>s. swap_halves (simon_update_y (k (unat rounds - 1))
                        (simon_pairs k ((unat rounds - 1) div 2) s))) B) \<and>
     SIMON128_Dec_Block_NEON C D (scalar_layout k) rounds =
       (on_block (\<lambda>s. simon_pairs_back k ((unat rounds - 1) div 2)
                   (simon_update_y (k (unat rounds - 1)) (swap_halves s))) C,
        on_block (\<lambda>s. simon_pairs_back k ((unat rounds - 1) div 2)
                   (simon_update_y (k (unat rounds - 1)) (swap_halves s))) D) \<and>
     SIMON128_Dec_Block_SSE C D (scalar_layout k) rounds =
       (on_block (\<lambda>s. simon_pairs_back k ((unat rounds - 1) div 2)
                   (simon_update_y (k (unat rounds - 1)) (swap_halves s))) C,
        on_block (\<lambda>s. simon_pairs_back k ((unat rounds - 1) div 2)
                   (simon_update_y (k (unat rounds - 1)) (swap_halves s))) D) \<and>
     (case SIMON128_Enc_Block_NEON A B (scalar_layout k) rounds of
        None \<Rightarrow> None
      | Some (c0, c1) \<Rightarrow> Some (SIMON128_Dec_Block_NEON c0 c1 (scalar_layout k) rounds))
       = Some (A, B) \<and>
     (case SIMON128_Enc_Block_SSE A B (presplatted_layout k) rounds of
        None \<Rightarrow> None
      | Some (c0, c1) \<Rightarrow> Some (SIMON128_Dec_Block_SSE c0 c1 (scalar_layout k) rounds))
       = Some (A, B)"
proof -
  have two: "2 \<le> unat rounds" using assms(2) by simp
  have h: "(unat rounds - 1) div 2 = unat rounds div 2" using assms(1) by presburger
  have e: "simon_enc k (unat rounds) = (\<lambda>s. swap_halves (simon_update_y (k (unat rounds - 1))
      (simon_pairs k ((unat rounds - 1) div 2) s)))"
    unfolding h using assms(1) by (simp add: simon_enc_def Let_def fun_eq_iff)
  have d: "simon_dec k (unat rounds) = (\<lambda>s. simon_pairs_back k ((unat rounds - 1) div 2)
      (simon_update_y (k (unat rounds - 1)) (swap_halves s)))"
    unfolding h using assms(1) by (simp add: simon_dec_def Let_def fun_eq_iff)
  have inv: "on_block (simon_dec k (unat rounds)) (on_block (simon_enc k (unat rounds)) X) = X"
    for X
    by (simp add: on_block_on_block simon_dec_enc on_block_id)
  show ?thesis
    unfolding SIMON128_Enc_Block_NEON_ref [OF two] SIMON128_Enc_Block_SSE_ref [OF two assms(3)]
      SIMON128_Dec_Block_NEON_ref [OF assms(3)] SIMON128_Dec_Block_SSE_ref [OF assms(3)]
      scalar_layout_eq option.case prod.case inv
    by (simp add: e d)
qed

theorem simon_odd_rounds_witness:
  "odd (unat (69 :: 32 word)) \<and> 3 \<le> unat (69 :: 32 word) \<and> unat (69 :: 32 word) \<le> 2 ^ 31 \<and>
   (case SIMON128_Enc_Block_NEON example_block0 example_block1
           (scalar_layout example_schedule) 69 of
      None \<Rightarrow> None
    | Some (c0, c1) \<Rightarrow> Some (SIMON128_Dec_Block_NEON c0 c1 (scalar_layout example_schedule) 69))
     = Some (example_block0, example_block1)"
proof -
  have h: "odd (unat (69 :: 32 word))" "3 \<le> unat (69 :: 32 word)"
    "unat (69 :: 32 word) \<le> 2 ^ 31"
    by simp_all
  show ?thesis
    using h simon_odd_rounds [OF h, where A = example_block0 and B = example_block1
      and C = example_block0 and D = example_block1 and k = example_schedule]
    by blast
qed




text \<open>
  C10. For every rounds count of at least 2, the SIMON-128 encryption kernels, two-block
  and six-block, return, and what they return on each block is the result of
  \<open>rounds div 2\<close> paired iterations and one more single-round update when \<open>rounds\<close> is
  odd, that is of \<open>rounds\<close> single-round updates. For a rounds count below 2 the
  bound of the paired loop wraps around to the largest \<open>size_t\<close> and the kernels do not
  return.
\<close>

theorem simon_enc_terminates_iff_two_rounds:
  assumes "2 \<le> unat rounds" and "unat few < 2"
  shows
    "SIMON128_Enc_Block_NEON A B K rounds =
       Some (on_block (simon_enc K (unat rounds)) A, on_block (simon_enc K (unat rounds)) B) \<and>
     SIMON128_Enc_Block_SSE A B K rounds =
       Some (on_block (\<lambda>s. let s = simon_pairs (lane_keys 0 K) (unat rounds div 2) s
                            in if odd (unat rounds)
                               then swap_halves (simon_update_y (K (unat ((rounds - 1) * 2))) s)
                               else s) A,
             on_block (\<lambda>s. let s = simon_pairs (lane_keys 1 K) (unat rounds div 2) s
                            in if odd (unat rounds)
                               then swap_halves
                                 (simon_update_y (K (unat ((rounds - 1) * 2) + 1)) s)
                               else s) B) \<and>
     (unat rounds \<le> 2 ^ 31 \<longrightarrow>
        SIMON128_Enc_Block_SSE A B (presplatted_layout k) rounds =
          Some (on_block (simon_enc k (unat rounds)) A,
                on_block (simon_enc k (unat rounds)) B)) \<and>
     SIMON128_Enc_6_Blocks_NEON A B C D E F K rounds =
       Some (on_block (simon_enc K (unat rounds)) A, on_block (simon_enc K (unat rounds)) B,
             on_block (simon_enc K (unat rounds)) C, on_block (simon_enc K (unat rounds)) D,
             on_block (simon_enc K (unat rounds)) E, on_block (simon_enc K (unat rounds)) F) \<and>
     SIMON128_Enc_6_Blocks_SSE A B C D E F K rounds =
       (let even_lane = (\<lambda>s. let s = simon_pairs (lane_keys 0 K) (unat rounds div 2) s
                            in if odd (unat rounds)
                               then swap_halves (simon_update_y (K (unat ((rounds - 1) * 2))) s)
                               else s);
            odd_lane = (\<lambda>s. let s = simon_pairs (lane_keys 1 K) (unat rounds div 2) s
                            in if odd (unat rounds)
                               then swap_halves
                                 (simon_update_y (K (unat ((rounds - 1) * 2) + 1)) s)
                               else s)
        in Some (on_block even_lane A, on_block odd_lane B, on_block even_lane C,
                 on_block odd_lane D, on_block even_lane E, on_block odd_lane F)) \<and>
     (unat rounds \<le> 2 ^ 31 \<longrightarrow>
        SIMON128_Enc_6_Blocks_SSE A B C D E F (presplatted_layout k) rounds =
          Some (on_block (simon_enc k (unat rounds)) A, on_block (simon_enc k (unat rounds)) B,
                on_block (simon_enc k (unat rounds)) C, on_block (simon_enc k (unat rounds)) D,
                on_block (simon_enc k (unat rounds)) E, on_block (simon_enc k (unat rounds)) F)) \<and>
     simon_enc k n s =
       (if odd n then swap_halves (simon_rounds k n s) else simon_rounds k n s) \<and>
     simon_pairs k m s = simon_rounds k (2 * m) s \<and>
     SIMON128_Enc_Block_NEON A B K few = None \<and>
     SIMON128_Enc_Block_SSE A B K few = None \<and>
     SIMON128_Enc_6_Blocks_NEON A B C D E F K few = None \<and>
     SIMON128_Enc_6_Blocks_SSE A B C D E F K few = None"
proof -
  note two = assms(1) and few = assms(2)
  have six_N: "SIMON128_Enc_6_Blocks_NEON A B C D E F K rounds =
       Some (on_block (simon_enc K (unat rounds)) A, on_block (simon_enc K (unat rounds)) B,
             on_block (simon_enc K (unat rounds)) C, on_block (simon_enc K (unat rounds)) D,
             on_block (simon_enc K (unat rounds)) E, on_block (simon_enc K (unat rounds)) F)"
    by (simp add: SIMON128_Enc_6_Blocks_NEON_pairs SIMON128_Enc_Block_NEON_ref [OF two]
        six_of_pairs_def)
  have six_S: "SIMON128_Enc_6_Blocks_SSE A B C D E F K rounds =
       (let even_lane = (\<lambda>s. let s = simon_pairs (lane_keys 0 K) (unat rounds div 2) s
                            in if odd (unat rounds)
                               then swap_halves (simon_update_y (K (unat ((rounds - 1) * 2))) s)
                               else s);
            odd_lane = (\<lambda>s. let s = simon_pairs (lane_keys 1 K) (unat rounds div 2) s
                            in if odd (unat rounds)
                               then swap_halves
                                 (simon_update_y (K (unat ((rounds - 1) * 2) + 1)) s)
                               else s)
        in Some (on_block even_lane A, on_block odd_lane B, on_block even_lane C,
                 on_block odd_lane D, on_block even_lane E, on_block odd_lane F))"
    unfolding SIMON128_Enc_6_Blocks_SSE_pairs SIMON128_Enc_Block_SSE_gen [OF two]
    by (simp add: six_of_pairs_def Let_def)
  have six_P: "SIMON128_Enc_6_Blocks_SSE A B C D E F (presplatted_layout k) rounds =
          Some (on_block (simon_enc k (unat rounds)) A, on_block (simon_enc k (unat rounds)) B,
                on_block (simon_enc k (unat rounds)) C, on_block (simon_enc k (unat rounds)) D,
                on_block (simon_enc k (unat rounds)) E, on_block (simon_enc k (unat rounds)) F)"
    if "unat rounds \<le> 2 ^ 31"
    unfolding SIMON128_Enc_6_Blocks_SSE_pairs SIMON128_Enc_Block_SSE_ref [OF two that]
    by (simp add: six_of_pairs_def)
  have six_few: "SIMON128_Enc_6_Blocks_NEON A B C D E F K few = None"
    "SIMON128_Enc_6_Blocks_SSE A B C D E F K few = None"
    by (simp_all add: SIMON128_Enc_6_Blocks_NEON_pairs SIMON128_Enc_6_Blocks_SSE_pairs
        SIMON128_Enc_Block_NEON_diverges [OF few] SIMON128_Enc_Block_SSE_diverges [OF few]
        six_of_pairs_def)
  show ?thesis
    by (intro conjI impI SIMON128_Enc_Block_NEON_ref [OF two]
        SIMON128_Enc_Block_SSE_gen [OF two] SIMON128_Enc_Block_SSE_ref [OF two]
        six_N six_S six_P six_few simon_enc_rounds simon_pairs_rounds
        SIMON128_Enc_Block_NEON_diverges [OF few] SIMON128_Enc_Block_SSE_diverges [OF few])
qed

theorem simon_enc_terminates_iff_two_rounds_witness:
  "2 \<le> unat (68 :: 32 word) \<and> unat (1 :: 32 word) < 2 \<and> unat (68 :: 32 word) \<le> 2 ^ 31 \<and>
   SIMON128_Enc_Block_NEON example_block0 example_block1 example_schedule 68 =
     Some (on_block (simon_enc example_schedule (unat (68 :: 32 word))) example_block0,
           on_block (simon_enc example_schedule (unat (68 :: 32 word))) example_block1) \<and>
   SIMON128_Enc_Block_SSE example_block0 example_block1 (presplatted_layout example_schedule) 68 =
     Some (on_block (simon_enc example_schedule (unat (68 :: 32 word))) example_block0,
           on_block (simon_enc example_schedule (unat (68 :: 32 word))) example_block1) \<and>
   SIMON128_Enc_6_Blocks_SSE example_block0 example_block1 example_block0 example_block1
       example_block0 example_block1 (presplatted_layout example_schedule) 68 =
     Some (on_block (simon_enc example_schedule (unat (68 :: 32 word))) example_block0,
           on_block (simon_enc example_schedule (unat (68 :: 32 word))) example_block1,
           on_block (simon_enc example_schedule (unat (68 :: 32 word))) example_block0,
           on_block (simon_enc example_schedule (unat (68 :: 32 word))) example_block1,
           on_block (simon_enc example_schedule (unat (68 :: 32 word))) example_block0,
           on_block (simon_enc example_schedule (unat (68 :: 32 word))) example_block1) \<and>
   SIMON128_Enc_Block_SSE example_block0 example_block1 example_schedule 1 = None \<and>
   SIMON128_Enc_6_Blocks_NEON example_block0 example_block1 example_block0 example_block1
       example_block0 example_block1 example_schedule 1 = None"
  using simon_enc_terminates_iff_two_rounds [where rounds = 68 and few = 1
      and A = example_block0 and B = example_block1 and C = example_block0
      and D = example_block1 and E = example_block0 and F = example_block1
      and K = example_schedule and k = example_schedule and n = 68 and m = 34
      and s = "(0, 0)"]
  by simp

text \<open>
  C2. With the 32 round keys derived from the key \<open>0f0e0d0c0b0a0908 0706050403020100\<close>,
  the SPECK-128 encryption kernel maps the block with X half \<open>6c61766975716520\<close> and Y
  half \<open>7469206564616d20\<close> to the block with X half \<open>a65d985179783265\<close> and Y half
  \<open>7860fedf5c570d18\<close>, whatever the other block of the pair is; X is the high lane of a
  block and Y the low lane. The SSSE3 kernel reads the pre-splatted schedule and the NEON
  kernel the scalar one.
\<close>

theorem speck128_128_test_vector:
  "fst (SPECK128_Enc_Block_SSE (Vec 0x7469206564616d20 0x6c61766975716520) B
          (presplatted_layout (SPECK128_round_keys 0x0f0e0d0c0b0a0908 0x0706050403020100)) 32)
     = Vec 0x7860fedf5c570d18 0xa65d985179783265 \<and>
   snd (SPECK128_Enc_Block_SSE A (Vec 0x7469206564616d20 0x6c61766975716520)
          (presplatted_layout (SPECK128_round_keys 0x0f0e0d0c0b0a0908 0x0706050403020100)) 32)
     = Vec 0x7860fedf5c570d18 0xa65d985179783265 \<and>
   fst (SPECK128_Enc_Block_NEON (Vec 0x7469206564616d20 0x6c61766975716520) B
          (scalar_layout (SPECK128_round_keys 0x0f0e0d0c0b0a0908 0x0706050403020100)) 32)
     = Vec 0x7860fedf5c570d18 0xa65d985179783265"
  by (simp add: SPECK128_Enc_Block_SSE_ref SPECK128_Enc_Block_NEON_ref lane_keys_presplatted
      scalar_layout_eq on_block_def speck128_128_vector_lane)

text \<open>
  C9. A call of the driver with \<open>length = 0\<close> returns 0 and leaves the memory (so the
  output and xor buffers) and the three pointers as they were. For every \<open>length\<close> the
  call returns \<open>length mod 16\<close>, the byte count of the tail after the last whole block,
  which is positive exactly when \<open>length\<close> is not a multiple of 16; the state it leaves is
  the one the call leaves on the whole blocks alone, \<open>length - length mod 16\<close> bytes, and
  the output pointer has moved by one stride for each of the \<open>length div 16\<close> whole
  blocks.
\<close>

theorem advanced_process_blocks_length:
  "advanced_process_blocks f2 f6 fl s 0 = (0, s) \<and>
   fst (advanced_process_blocks f2 f6 fl s len) = len mod 16 \<and>
   snd (advanced_process_blocks f2 f6 fl s len)
     = snd (advanced_process_blocks f2 f6 fl s (len - len mod 16)) \<and>
   out_blocks (snd (advanced_process_blocks f2 f6 fl s len))
     = out_blocks s + int (len div 16) * stride fl"
  by (simp add: advanced_process_blocks_closed whole_blocks_div
      out_blocks_process_whole_blocks process_whole_blocks_0)

end
